(* ===== verification/Prelude.thy ===== *)
theory Prelude
  imports Complex_Main "HOL-Library.Word"
begin

text \<open>
  What every other theory shares: the exception hierarchy of the service as one datatype, programs
  that read and write a state and may raise (with Python's \<open>try/except/else/finally\<close>), and the
  rules that carry an invariant, and a relation between the state before and after, through such
  programs.
\<close>

section \<open>Exceptions\<close>

text \<open>A UUID is its 128-bit value; a moment is a number of microseconds since the epoch, in UTC.\<close>

type_synonym uuid = "128 word"
type_synonym time = int

text \<open>
  The classes of \<open>src/domain/exceptions.py\<close> and \<open>src/application/exceptions.py\<close>, and the
  exceptions of the standard library and of the drivers that the service meets. An
  \<open>IntegrityError\<close> carries the driver's constraint name, when it has one, and its text.
  \<open>ForeignError\<close> is any other subclass of \<open>Exception\<close> a library raises.
  \<open>CancelledError\<close> is the one that is not an \<open>Exception\<close>: \<open>except Exception\<close> lets it pass.
\<close>

datatype exn =
    DomainError string
  | InvalidMoneyError string
  | InvalidCurrencyError string
  | InvalidIdempotencyKeyError string
  | InvalidPaymentIdError string
  | InvalidWebhookUrlError string
  | IllegalStatusTransitionError string string
  | ApplicationError string
  | DuplicateIdempotencyKey
  | IdempotencyConflict "uuid option"
  | PaymentNotFound uuid
  | ProcessingError string
  | TransientDependencyError string
  | PermanentProcessingError string
  | IntegrityError "string option" string
  | DataError string
  | MultipleResultsFound
  | RuntimeError string
  | ValueError string
  | TypeError string
  | OverflowError string
  | InvalidOperation
  | ForeignError string
  | ExceptionGroup string "exn list"
  | CancelledError

text \<open>\<open>isinstance(error, DomainError)\<close>: \<open>src/domain/exceptions.py\<close>.\<close>

fun is_domain_error :: "exn \<Rightarrow> bool" where
  "is_domain_error (DomainError _) = True"
| "is_domain_error (InvalidMoneyError _) = True"
| "is_domain_error (InvalidCurrencyError _) = True"
| "is_domain_error (InvalidIdempotencyKeyError _) = True"
| "is_domain_error (InvalidPaymentIdError _) = True"
| "is_domain_error (InvalidWebhookUrlError _) = True"
| "is_domain_error (IllegalStatusTransitionError _ _) = True"
| "is_domain_error _ = False"

text \<open>\<open>isinstance(error, ProcessingError)\<close> and \<open>isinstance(error, ApplicationError)\<close>.\<close>

fun is_processing_error :: "exn \<Rightarrow> bool" where
  "is_processing_error (ProcessingError _) = True"
| "is_processing_error (TransientDependencyError _) = True"
| "is_processing_error (PermanentProcessingError _) = True"
| "is_processing_error _ = False"

fun is_application_error :: "exn \<Rightarrow> bool" where
  "is_application_error (ApplicationError _) = True"
| "is_application_error DuplicateIdempotencyKey = True"
| "is_application_error (IdempotencyConflict _) = True"
| "is_application_error (PaymentNotFound _) = True"
| "is_application_error e = is_processing_error e"

definition is_exception :: "exn \<Rightarrow> bool" where
  "is_exception e \<longleftrightarrow> e \<noteq> CancelledError"

section \<open>Programs over a state that may raise\<close>

type_synonym ('s, 'a) prog = "'s \<Rightarrow> (exn + 'a) \<times> 's"

definition ret :: "'a \<Rightarrow> ('s, 'a) prog" where
  "ret x s = (Inr x, s)"

definition raise :: "exn \<Rightarrow> ('s, 'a) prog" where
  "raise e s = (Inl e, s)"

definition andthen :: "('s, 'a) prog \<Rightarrow> ('a \<Rightarrow> ('s, 'b) prog) \<Rightarrow> ('s, 'b) prog" where
  "andthen m f s = (case m s of (Inl e, s') \<Rightarrow> (Inl e, s') | (Inr x, s') \<Rightarrow> f x s')"

text \<open>
  \<open>try: m; except Exception as e: h e; else: k\<close>. What \<open>k\<close> raises is not caught.
\<close>

definition attempt :: "('s, 'a) prog \<Rightarrow> (exn \<Rightarrow> ('s, 'b) prog) \<Rightarrow> ('a \<Rightarrow> ('s, 'b) prog) \<Rightarrow> ('s, 'b) prog"
  where
  "attempt m h k s =
     (case m s of
        (Inl e, s') \<Rightarrow> if is_exception e then h e s' else (Inl e, s')
      | (Inr x, s') \<Rightarrow> k x s')"

text \<open>\<open>try: m; finally: f\<close>: an exception of \<open>f\<close> replaces the outcome of \<open>m\<close>.\<close>

definition finally_do :: "('s, 'a) prog \<Rightarrow> ('s, unit) prog \<Rightarrow> ('s, 'a) prog" where
  "finally_do m f s =
     (case m s of (r, s') \<Rightarrow> (case f s' of (Inl e, s'') \<Rightarrow> (Inl e, s'') | (Inr _, s'') \<Rightarrow> (r, s'')))"

definition reads :: "('s \<Rightarrow> 'a) \<Rightarrow> ('s, 'a) prog" where
  "reads f s = (Inr (f s), s)"

definition modifies :: "('s \<Rightarrow> 's) \<Rightarrow> ('s, unit) prog" where
  "modifies f s = (Inr (), f s)"

text \<open>A pure computation that may raise, run inside a program.\<close>

definition lift_exn :: "exn + 'a \<Rightarrow> ('s, 'a) prog" where
  "lift_exn r s = (r, s)"

fun bind_exn :: "exn + 'a \<Rightarrow> ('a \<Rightarrow> exn + 'b) \<Rightarrow> exn + 'b" where
  "bind_exn (Inl e) f = Inl e"
| "bind_exn (Inr x) f = f x"

named_theorems prog_simps \<open>unfolding of programs applied to a state\<close>

lemmas prog_defs [prog_simps] =
  ret_def raise_def andthen_def attempt_def finally_do_def reads_def modifies_def lift_exn_def

lemma bind_exn_Inr_iff: "bind_exn m f = Inr y \<longleftrightarrow> (\<exists>x. m = Inr x \<and> f x = Inr y)"
  by (cases m) auto

lemma bind_exn_Inl_iff:
  "bind_exn m f = Inl e \<longleftrightarrow> m = Inl e \<or> (\<exists>x. m = Inr x \<and> f x = Inl e)"
  by (cases m) auto

lemma andthen_assoc: "andthen (andthen m f) g = andthen m (\<lambda>x. andthen (f x) g)"
  by (rule ext) (simp add: andthen_def split: prod.splits sum.splits)

lemma andthen_ret [simp]: "andthen m ret = m" and ret_andthen [simp]: "andthen (ret x) f = f x"
  by (rule ext, simp add: andthen_def ret_def split: prod.splits sum.splits)+

lemma andthen_Inr:
  "m s = (Inr x, s') \<Longrightarrow> andthen m f s = f x s'"
  by (simp add: andthen_def)

lemma andthen_Inl:
  "m s = (Inl e, s') \<Longrightarrow> andthen m f s = (Inl e, s')"
  by (simp add: andthen_def)

lemma andthen_Inr_cases:
  assumes "andthen m f s = (Inr y, s'')"
  obtains x s' where "m s = (Inr x, s')" "f x s' = (Inr y, s'')"
  using assms by (auto simp: andthen_def split: prod.splits sum.splits)

section \<open>Programs that keep an invariant and a relation\<close>

text \<open>
  \<open>hoare good step P m Q\<close>: from a good state that satisfies \<open>P\<close>, the program \<open>m\<close> leaves a good state, related by
  \<open>step\<close> to the one it found, whether it returns or raises; what it returns satisfies \<open>Q\<close>. The
  locale derives the rule of every construct above from reflexivity and transitivity.
\<close>

definition hoare ::
    "('s \<Rightarrow> bool) \<Rightarrow> ('s \<Rightarrow> 's \<Rightarrow> bool) \<Rightarrow> ('s \<Rightarrow> bool) \<Rightarrow> ('s, 'a) prog \<Rightarrow> ('a \<Rightarrow> 's \<Rightarrow> bool) \<Rightarrow> bool"
  where
  "hoare good step P m Q \<longleftrightarrow>
     (\<forall>s r s'. good s \<and> P s \<and> m s = (r, s') \<longrightarrow> good s' \<and> step s s' \<and> (\<forall>x. r = Inr x \<longrightarrow> Q x s'))"

lemma hoareI:
  "(\<And>s r s'. good s \<Longrightarrow> P s \<Longrightarrow> m s = (r, s') \<Longrightarrow> good s' \<and> step s s' \<and> (\<forall>x. r = Inr x \<longrightarrow> Q x s')) \<Longrightarrow>
   hoare good step P m Q"
  unfolding hoare_def by blast

lemma hoareD:
  assumes "hoare good step P m Q" and "good s" and "P s" and "m s = (r, s')"
  shows "good s'" "step s s'" "r = Inr x \<Longrightarrow> Q x s'"
  using assms unfolding hoare_def by blast+

lemma hoare_weaken:
  "hoare good step P m Q \<Longrightarrow> (\<And>s. good s \<Longrightarrow> P' s \<Longrightarrow> P s) \<Longrightarrow>
   (\<And>x s. good s \<Longrightarrow> Q x s \<Longrightarrow> Q' x s) \<Longrightarrow> hoare good step P' m Q'"
  unfolding hoare_def by blast

lemma hoare_stable:
  assumes "hoare good step P m Q" and "\<And>s s'. S s \<Longrightarrow> good s' \<Longrightarrow> step s s' \<Longrightarrow> S s'"
  shows "hoare good step (\<lambda>s. P s \<and> S s) m (\<lambda>x s. Q x s \<and> S s)"
  using assms unfolding hoare_def by blast

lemma hoare_pure: "(b \<Longrightarrow> hoare good step (\<lambda>_. True) m Q) \<Longrightarrow> hoare good step (\<lambda>_. b) m Q"
  by (cases b) (simp_all add: hoare_def)

lemma hoare_fact: "(b \<Longrightarrow> hoare good step P m Q) \<Longrightarrow> hoare good step (\<lambda>s. b \<and> P s) m Q"
  by (cases b) (simp_all add: hoare_def)

lemma hoare_ex: "(\<And>y. hoare good step (P y) m Q) \<Longrightarrow> hoare good step (\<lambda>s. \<exists>y. P y s) m Q"
  unfolding hoare_def by blast

locale hoare_logic =
  fixes good :: "'s \<Rightarrow> bool" and step :: "'s \<Rightarrow> 's \<Rightarrow> bool"
  assumes step_refl: "step s s"
    and step_trans: "step s t \<Longrightarrow> step t u \<Longrightarrow> step s u"
begin

lemma hoare_ret: "hoare good step (Q x) (ret x) Q"
  by (simp add: hoare_def ret_def step_refl)

lemma hoare_raise: "hoare good step P (raise e) Q"
  by (simp add: hoare_def raise_def step_refl)

lemma hoare_reads: "hoare good step (\<lambda>s. Q (f s) s) (reads f) Q"
  by (simp add: hoare_def reads_def step_refl)

lemma hoare_lift_exn: "hoare good step (\<lambda>s. \<forall>x. r = Inr x \<longrightarrow> Q x s) (lift_exn r) Q"
  by (simp add: hoare_def lift_exn_def step_refl)

lemma hoare_andthen:
  assumes m: "hoare good step P m M" and f: "\<And>x. hoare good step (M x) (f x) Q"
  shows "hoare good step P (andthen m f) Q"
proof (rule hoareI)
  fix s r s'
  assume s: "good s" "P s" and run: "andthen m f s = (r, s')"
  obtain o1 s1 where eq: "m s = (o1, s1)" by fastforce
  note first = hoareD [OF m s eq]
  show "good s' \<and> step s s' \<and> (\<forall>x. r = Inr x \<longrightarrow> Q x s')"
  proof (cases o1)
    case (Inl e)
    with run eq first show ?thesis by (auto simp: andthen_def)
  next
    case (Inr x)
    with run eq have "f x s1 = (r, s')" by (simp add: andthen_def)
    from hoareD [OF f first(1) first(3) [OF Inr] this] step_trans [OF first(2)]
    show ?thesis by blast
  qed
qed

lemma hoare_attempt:
  assumes m: "hoare good step P m M" and h: "\<And>e. hoare good step (\<lambda>_. True) (h e) Q"
    and k: "\<And>x. hoare good step (M x) (k x) Q"
  shows "hoare good step P (attempt m h k) Q"
proof (rule hoareI)
  fix s r s'
  assume s: "good s" "P s" and run: "attempt m h k s = (r, s')"
  obtain o1 s1 where eq: "m s = (o1, s1)" by fastforce
  note first = hoareD [OF m s eq]
  show "good s' \<and> step s s' \<and> (\<forall>x. r = Inr x \<longrightarrow> Q x s')"
  proof (cases o1)
    case (Inr x)
    with run eq have "k x s1 = (r, s')" by (simp add: attempt_def)
    from hoareD [OF k first(1) first(3) [OF Inr] this] step_trans [OF first(2)]
    show ?thesis by blast
  next
    case (Inl e)
    show ?thesis
    proof (cases "is_exception e")
      case True
      with run eq Inl have "h e s1 = (r, s')" by (simp add: attempt_def)
      from hoareD [OF h first(1) TrueI this] step_trans [OF first(2)]
      show ?thesis by blast
    next
      case False
      with run eq Inl first show ?thesis by (auto simp: attempt_def)
    qed
  qed
qed

lemma hoare_finally:
  assumes m: "hoare good step P m (\<lambda>_ _. True)" and f: "hoare good step (\<lambda>_. True) f (\<lambda>_ _. True)"
  shows "hoare good step P (finally_do m f) (\<lambda>_ _. True)"
proof (rule hoareI)
  fix s r s'
  assume s: "good s" "P s" and run: "finally_do m f s = (r, s')"
  obtain o1 s1 where eq: "m s = (o1, s1)" by fastforce
  obtain o2 s2 where eq2: "f s1 = (o2, s2)" by fastforce
  note first = hoareD [OF m s eq]
  note second = hoareD [OF f first(1) TrueI eq2]
  have "s' = s2" using run eq eq2 by (auto simp: finally_do_def split: sum.splits)
  with second step_trans [OF first(2) second(2)]
  show "good s' \<and> step s s' \<and> (\<forall>x. r = Inr x \<longrightarrow> True)" by blast
qed

text \<open>A program about which nothing more than the invariant and the relation is claimed.\<close>

lemma hoare_weak: "hoare good step P m Q \<Longrightarrow> hoare good step P m (\<lambda>_ _. True)"
  by (erule hoare_weaken) simp_all

lemma hoare_bind:
  assumes "hoare good step P m (\<lambda>_ _. True)"
    and "\<And>x. hoare good step (\<lambda>_. True) (f x) Q"
  shows "hoare good step P (andthen m f) Q"
  using assms by (rule hoare_andthen)

lemma hoare_case_option:
  "(\<And>s. x = None \<Longrightarrow> hoare good step P n Q) \<Longrightarrow> (\<And>y. x = Some y \<Longrightarrow> hoare good step P (f y) Q) \<Longrightarrow>
   hoare good step P (case x of None \<Rightarrow> n | Some y \<Rightarrow> f y) Q"
  by (cases x) simp_all

lemma hoare_if:
  "(b \<Longrightarrow> hoare good step P m Q) \<Longrightarrow> (\<not> b \<Longrightarrow> hoare good step P n Q) \<Longrightarrow>
   hoare good step P (if b then m else n) Q"
  by simp

end

section \<open>Lists\<close>

lemma find_Some_iff_set:
  "find P xs = Some x \<Longrightarrow> x \<in> set xs \<and> P x"
  by (induction xs) (auto split: if_splits)

lemma find_None_set: "find P xs = None \<longleftrightarrow> (\<forall>x\<in>set xs. \<not> P x)"
  by (induction xs) auto

lemma filter_eq_key_distinct:
  "distinct (map f xs) \<Longrightarrow> x \<in> set xs \<Longrightarrow> filter (\<lambda>y. f y = f x) xs = [x]"
proof (induction xs)
  case Nil
  then show ?case by simp
next
  case (Cons y ys)
  show ?case
  proof (cases "x = y")
    case True
    moreover have "filter (\<lambda>z. f z = f y) ys = []"
      using Cons.prems(1) by (auto simp: filter_empty_conv) (metis image_eqI)
    ultimately show ?thesis by simp
  next
    case False
    then have "x \<in> set ys" and "f y \<noteq> f x"
      using Cons.prems by auto
    with Cons show ?thesis by simp
  qed
qed

lemma map_map_if_key:
  "(\<And>x. x \<in> set xs \<Longrightarrow> P x \<Longrightarrow> f (g x) = f x) \<Longrightarrow>
   map f (map (\<lambda>x. if P x then g x else x) xs) = map f xs"
  by (induction xs) auto

end
