(* ===== verification/PyText.thy ===== *)
theory PyText
  imports Prelude "HOL-Library.Sublist"
begin

text \<open>
  The parts of Python's \<open>str\<close>, \<open>int\<close> and \<open>uuid.UUID\<close> that the service uses. A \<open>string\<close> stands for
  a Python text whose code points are below 256, one \<open>char\<close> per code point, so \<open>length\<close> is
  \<open>len\<close>. The lemmas show that parsing the printed form of a UUID gives the UUID back.
\<close>

section \<open>Characters\<close>

abbreviation code :: "char \<Rightarrow> nat" where
  "code c \<equiv> of_char c"

text \<open>\<open>str.isspace\<close>, \<open>str.isascii\<close>, \<open>str.isprintable\<close> (on ASCII), \<open>str.lower\<close> of one character.\<close>

definition is_space :: "char \<Rightarrow> bool" where
  "is_space c \<longleftrightarrow> code c \<in> {9, 10, 11, 12, 13, 28, 29, 30, 31, 32, 133, 160}"

definition is_ascii :: "string \<Rightarrow> bool" where
  "is_ascii s \<longleftrightarrow> list_all (\<lambda>c. code c < 128) s"

definition is_printable_ascii :: "string \<Rightarrow> bool" where
  "is_printable_ascii s \<longleftrightarrow> list_all (\<lambda>c. 32 \<le> code c \<and> code c \<le> 126) s"

definition lower_char :: "char \<Rightarrow> char" where
  "lower_char c =
     (if 65 \<le> code c \<and> code c \<le> 90 \<or> 192 \<le> code c \<and> code c \<le> 222 \<and> code c \<noteq> 215
      then char_of (code c + 32) else c)"

definition upper_ascii_char :: "char \<Rightarrow> char" where
  "upper_ascii_char c = (if 97 \<le> code c \<and> code c \<le> 122 then char_of (code c - 32) else c)"

definition lower :: "string \<Rightarrow> string" where
  "lower s = map lower_char s"

section \<open>Stripping, searching and splitting\<close>

definition lstrip_by :: "(char \<Rightarrow> bool) \<Rightarrow> string \<Rightarrow> string" where
  "lstrip_by P s = dropWhile P s"

definition rstrip_by :: "(char \<Rightarrow> bool) \<Rightarrow> string \<Rightarrow> string" where
  "rstrip_by P s = rev (dropWhile P (rev s))"

definition strip_by :: "(char \<Rightarrow> bool) \<Rightarrow> string \<Rightarrow> string" where
  "strip_by P s = rstrip_by P (lstrip_by P s)"

definition strip :: "string \<Rightarrow> string" where
  "strip s = strip_by is_space s"

fun contains :: "string \<Rightarrow> string \<Rightarrow> bool" where
  "contains sub [] \<longleftrightarrow> sub = []"
| "contains sub (c # cs) \<longleftrightarrow> prefix sub (c # cs) \<or> contains sub cs"

definition ends_with :: "string \<Rightarrow> string \<Rightarrow> bool" where
  "ends_with s suf \<longleftrightarrow> suffix suf s"

text \<open>\<open>s.partition(c)\<close> and \<open>s.rpartition(c)\<close> for a one-character separator, \<open>s.split(c)\<close>.\<close>

definition partition_at :: "char \<Rightarrow> string \<Rightarrow> string \<times> bool \<times> string" where
  "partition_at c s = (takeWhile (\<lambda>x. x \<noteq> c) s, c \<in> set s, drop 1 (dropWhile (\<lambda>x. x \<noteq> c) s))"

definition rpartition_at :: "char \<Rightarrow> string \<Rightarrow> string \<times> bool \<times> string" where
  "rpartition_at c s =
     (if c \<in> set s
      then (rev (drop 1 (dropWhile (\<lambda>x. x \<noteq> c) (rev s))), True, rev (takeWhile (\<lambda>x. x \<noteq> c) (rev s)))
      else ([], False, s))"

fun split_at :: "char \<Rightarrow> string \<Rightarrow> string list" where
  "split_at c [] = [[]]"
| "split_at c (x # xs) =
     (if x = c then [] # split_at c xs
      else (case split_at c xs of [] \<Rightarrow> [[x]] | w # ws \<Rightarrow> (x # w) # ws))"

text \<open>\<open>s.replace(sub, "")\<close>: the occurrences are taken from the left and do not overlap.\<close>

function remove_all :: "string \<Rightarrow> string \<Rightarrow> string" where
  "remove_all sub [] = []"
| "remove_all sub (c # cs) =
     (if sub \<noteq> [] \<and> prefix sub (c # cs) then remove_all sub (drop (length sub) (c # cs))
      else c # remove_all sub cs)"
  by pat_completeness auto
termination
  by (relation "measure (\<lambda>(sub, s). length s)") auto

lemma contains_append: "contains sub (xs @ sub @ ys)"
proof (induction xs)
  case Nil
  have "prefix sub (sub @ ys)" by simp
  then show ?case by (cases "sub @ ys") auto
next
  case (Cons x xs)
  then show ?case by simp
qed

lemma remove_all_id:
  assumes "sub = c # sub'" and "c \<notin> set s"
  shows "remove_all sub s = s"
  using assms(2) by (induction s) (auto simp: assms(1))

lemma dropWhile_none: "(\<forall>x\<in>set xs. \<not> P x) \<Longrightarrow> dropWhile P xs = xs"
  by (cases xs) auto

lemma strip_by_id: "(\<forall>c\<in>set s. \<not> P c) \<Longrightarrow> strip_by P s = s"
  by (simp add: strip_by_def rstrip_by_def lstrip_by_def dropWhile_none)

lemma strip_by_Nil_iff: "strip_by P s = [] \<longleftrightarrow> (\<forall>c\<in>set s. P c)"
proof
  assume "strip_by P s = []"
  then have "\<forall>c\<in>set (dropWhile P s). P c"
    by (simp add: strip_by_def rstrip_by_def lstrip_by_def)
  then show "\<forall>c\<in>set s. P c"
    by (metis dropWhile_eq_Nil_conv hd_dropWhile list.set_sel(1))
next
  assume "\<forall>c\<in>set s. P c"
  then show "strip_by P s = []"
    by (auto simp: strip_by_def rstrip_by_def lstrip_by_def dest: set_dropWhileD)
qed

lemma length_strip_by: "length (strip_by P s) \<le> length s"
proof -
  have "length (dropWhile P (rev (dropWhile P s))) \<le> length (dropWhile P s)"
    using length_dropWhile_le [of P "rev (dropWhile P s)"] by simp
  also have "\<dots> \<le> length s" by (rule length_dropWhile_le)
  finally show ?thesis by (simp add: strip_by_def rstrip_by_def lstrip_by_def)
qed

section \<open>Integers in text\<close>

definition digit_char :: "nat \<Rightarrow> char" where
  "digit_char d = (if d < 10 then char_of (48 + d) else char_of (87 + d))"

definition digit_value :: "nat \<Rightarrow> char \<Rightarrow> nat option" where
  "digit_value base c =
     (let n = code c;
          v = (if 48 \<le> n \<and> n \<le> 57 then n - 48
               else if 97 \<le> n \<and> n \<le> 122 then n - 87
               else if 65 \<le> n \<and> n \<le> 90 then n - 55 else 99)
      in if v < base then Some v else None)"

fun show_nat :: "nat \<Rightarrow> string" where
  "show_nat n = (if n < 10 then [digit_char n] else show_nat (n div 10) @ [digit_char (n mod 10)])"

declare show_nat.simps [simp del]

definition show_int :: "int \<Rightarrow> string" where
  "show_int i = (if i < 0 then ''-'' @ show_nat (nat (- i)) else show_nat (nat i))"

text \<open>\<open>'%0kx' % n\<close> for \<open>n\<close> below \<open>16 ^ k\<close>.\<close>

fun hex_fixed :: "nat \<Rightarrow> nat \<Rightarrow> string" where
  "hex_fixed 0 n = []"
| "hex_fixed (Suc k) n = hex_fixed k (n div 16) @ [digit_char (n mod 16)]"

text \<open>
  The digits of \<open>int(text, base)\<close>: an underscore may stand between two digits. The flag says whether
  the character before was a digit.
\<close>

fun read_digits :: "nat \<Rightarrow> nat \<Rightarrow> bool \<Rightarrow> string \<Rightarrow> nat option" where
  "read_digits base acc prev [] = (if prev then Some acc else None)"
| "read_digits base acc prev (c # cs) =
     (if c = CHR ''_'' then (if prev then read_digits base acc False cs else None)
      else (case digit_value base c of
              None \<Rightarrow> None
            | Some d \<Rightarrow> read_digits base (acc * base + d) True cs))"

text \<open>
  \<open>int(text, base)\<close>: white space around, a sign, in base 16 a prefix \<open>0x\<close> that one underscore may
  follow. \<open>None\<close> is the \<open>ValueError\<close>.
\<close>

definition drop_hex_prefix :: "string \<Rightarrow> string" where
  "drop_hex_prefix s =
     (case s of
        a # b # rest \<Rightarrow>
          if a = CHR ''0'' \<and> (b = CHR ''x'' \<or> b = CHR ''X'')
          then (case rest of c # rest' \<Rightarrow> if c = CHR ''_'' then rest' else rest | [] \<Rightarrow> rest)
          else s
      | _ \<Rightarrow> s)"

definition read_unsigned :: "nat \<Rightarrow> string \<Rightarrow> nat option" where
  "read_unsigned base s =
     read_digits base 0 False (if base = 16 then drop_hex_prefix s else s)"

definition read_int :: "nat \<Rightarrow> string \<Rightarrow> int option" where
  "read_int base text =
     (case strip text of
        [] \<Rightarrow> None
      | c # cs \<Rightarrow>
          if c = CHR ''-'' then map_option (\<lambda>n. - int n) (read_unsigned base cs)
          else if c = CHR ''+'' then map_option int (read_unsigned base cs)
          else map_option int (read_unsigned base (c # cs)))"

section \<open>UUIDs in text\<close>

text \<open>\<open>str(uuid)\<close>: 8-4-4-4-12 lower-case hexadecimal digits.\<close>

definition uuid_str :: "uuid \<Rightarrow> string" where
  "uuid_str u =
     (let h = hex_fixed 32 (unat u)
      in take 8 h @ ''-'' @ take 4 (drop 8 h) @ ''-'' @ take 4 (drop 12 h) @ ''-''
         @ take 4 (drop 16 h) @ ''-'' @ drop 20 h)"

text \<open>\<open>uuid.UUID(text)\<close>; \<open>None\<close> is the \<open>ValueError\<close>.\<close>

definition parse_uuid :: "string \<Rightarrow> uuid option" where
  "parse_uuid text =
     (let a = remove_all ''uuid:'' (remove_all ''urn:'' text);
          b = filter (\<lambda>c. c \<noteq> CHR ''-'') (strip_by (\<lambda>c. c = CHR ''{'' \<or> c = CHR ''}'') a)
      in if length b \<noteq> 32 then None
         else (case read_int 16 b of
                 None \<Rightarrow> None
               | Some i \<Rightarrow> if 0 \<le> i \<and> i < 2 ^ 128 then Some (word_of_int i) else None))"

subsection \<open>Hexadecimal digits\<close>

definition hex_digits :: "char set" where
  "hex_digits = set ''0123456789abcdef''"

lemma digit_char_hex: "d < 16 \<Longrightarrow> digit_char d \<in> hex_digits"
proof -
  assume "d < 16"
  moreover have "list_all (\<lambda>d. digit_char d \<in> hex_digits) [0..<16]" by code_simp
  ultimately show ?thesis by (simp add: list_all_iff)
qed

lemma digit_value_digit_char: "d < 16 \<Longrightarrow> digit_value 16 (digit_char d) = Some d"
  by (auto simp: digit_value_def digit_char_def Let_def)

lemma length_hex_fixed [simp]: "length (hex_fixed k n) = k"
  by (induction k arbitrary: n) auto

lemma set_hex_fixed: "set (hex_fixed k n) \<subseteq> hex_digits"
  by (induction k arbitrary: n) (auto simp: digit_char_hex)

lemma hex_digit_facts:
  "c \<in> hex_digits \<Longrightarrow>
     \<not> is_space c \<and> c \<noteq> CHR ''-'' \<and> c \<noteq> CHR ''+'' \<and> c \<noteq> CHR ''_'' \<and> c \<noteq> CHR ''x'' \<and>
     c \<noteq> CHR ''X'' \<and> c \<noteq> CHR ''{'' \<and> c \<noteq> CHR ''}'' \<and> c \<noteq> CHR ''u'' \<and> code c < 128"
  by (auto simp: hex_digits_def is_space_def)

lemma read_digits_snoc:
  assumes "digit_value base c = Some d" and "c \<noteq> CHR ''_''"
    and "read_digits base acc prev s = Some n"
  shows "read_digits base acc prev (s @ [c]) = Some (n * base + d)"
  using assms(3)
proof (induction s arbitrary: acc prev)
  case Nil
  then show ?case using assms(1,2) by (simp split: if_splits)
next
  case (Cons x xs)
  then show ?case by (auto split: if_splits option.splits)
qed

subsection \<open>Decimal numerals\<close>

lemma digit_char_dec: "d < 10 \<Longrightarrow> digit_char d \<in> set ''0123456789''"
proof -
  assume "d < 10"
  moreover have "list_all (\<lambda>d. digit_char d \<in> set ''0123456789'') [0..<10]" by code_simp
  ultimately show ?thesis unfolding list_all_iff by fastforce
qed

lemma set_show_nat: "set (show_nat n) \<subseteq> set ''0123456789''"
proof (induction n rule: less_induct)
  case (less n)
  show ?case
  proof (cases "n < 10")
    case True
    then show ?thesis using digit_char_dec [OF True] by (subst show_nat.simps) auto
  next
    case False
    then have "set (show_nat (n div 10)) \<subseteq> set ''0123456789''" by (intro less) simp
    moreover have "digit_char (n mod 10) \<in> set ''0123456789''" by (rule digit_char_dec) simp
    ultimately show ?thesis using False by (subst show_nat.simps) simp
  qed
qed

lemma show_nat_not_Nil [simp]: "show_nat n \<noteq> []"
  by (subst show_nat.simps) simp

lemma show_nat_0: "show_nat 0 = ''0''"
  by code_simp

lemma digit_value_dec: "d < 10 \<Longrightarrow> digit_value 10 (digit_char d) = Some d"
  by (auto simp: digit_value_def digit_char_def Let_def)

lemma digit_char_eq_0: "d < 10 \<Longrightarrow> digit_char d = CHR ''0'' \<Longrightarrow> d = 0"
  using digit_value_dec [of d] by (simp add: digit_value_def)

lemma read_digits_show_nat: "read_digits 10 0 False (show_nat n) = Some n"
proof (induction n rule: less_induct)
  case (less n)
  show ?case
  proof (cases "n < 10")
    case True
    then have "digit_char n \<noteq> CHR ''_''" using digit_char_dec by fastforce
    with True show ?thesis by (simp add: show_nat.simps [of n] digit_value_dec)
  next
    case False
    then have "read_digits 10 0 False (show_nat (n div 10)) = Some (n div 10)" by (intro less) simp
    moreover have "digit_char (n mod 10) \<noteq> CHR ''_''" using digit_char_dec [of "n mod 10"] by fastforce
    ultimately have "read_digits 10 0 False (show_nat (n div 10) @ [digit_char (n mod 10)])
        = Some (n div 10 * 10 + n mod 10)"
      by (intro read_digits_snoc) (simp_all add: digit_value_dec)
    with False show ?thesis by (simp add: show_nat.simps [of n])
  qed
qed

lemma hd_show_nat: "0 < n \<Longrightarrow> hd (show_nat n) \<noteq> CHR ''0''"
proof (induction n rule: less_induct)
  case (less n)
  show ?case
  proof (cases "n < 10")
    case True
    with less.prems show ?thesis using digit_char_eq_0 [of n] by (auto simp: show_nat.simps [of n])
  next
    case False
    then have "hd (show_nat (n div 10)) \<noteq> CHR ''0''" by (intro less.IH) simp_all
    with False show ?thesis by (simp add: show_nat.simps [of n])
  qed
qed

lemma length_show_nat: "n < 10 ^ k \<Longrightarrow> 0 < k \<Longrightarrow> length (show_nat n) \<le> k"
proof (induction k arbitrary: n)
  case 0
  then show ?case by simp
next
  case (Suc k)
  show ?case
  proof (cases "n < 10")
    case True
    then show ?thesis by (simp add: show_nat.simps [of n])
  next
    case False
    from Suc.prems(1) have "n div 10 < 10 ^ k" by (simp add: less_mult_imp_div_less mult.commute)
    moreover from False Suc.prems(1) have "0 < k" by (cases k) auto
    ultimately have "length (show_nat (n div 10)) \<le> k" by (rule Suc.IH)
    with False show ?thesis by (simp add: show_nat.simps [of n])
  qed
qed

subsection \<open>Printing a UUID, then parsing it\<close>

lemma read_digits_hex_fixed:
  "n < 16 ^ k \<Longrightarrow> read_digits 16 0 True (hex_fixed k n) = Some n"
proof (induction k arbitrary: n)
  case 0
  then show ?case by simp
next
  case (Suc k)
  from Suc.prems have "n div 16 < 16 ^ k" by (simp add: less_mult_imp_div_less mult.commute)
  then have "read_digits 16 0 True (hex_fixed k (n div 16)) = Some (n div 16)" by (rule Suc.IH)
  moreover have "digit_char (n mod 16) \<noteq> CHR ''_''"
    using digit_char_hex [of "n mod 16"] hex_digit_facts by fastforce
  ultimately have "read_digits 16 0 True (hex_fixed k (n div 16) @ [digit_char (n mod 16)])
      = Some (n div 16 * 16 + n mod 16)"
    using read_digits_snoc digit_value_digit_char by simp
  then show ?case by simp
qed

lemma read_digits_flag:
  "s \<noteq> [] \<Longrightarrow> hd s \<noteq> CHR ''_'' \<Longrightarrow> read_digits base acc False s = read_digits base acc True s"
  by (cases s) auto

lemma drop_hex_prefix_id:
  "set s \<subseteq> hex_digits \<Longrightarrow> drop_hex_prefix s = s"
  by (auto simp: drop_hex_prefix_def dest: hex_digit_facts split: list.splits)

lemma read_int_hex:
  assumes "set s \<subseteq> hex_digits" and "s \<noteq> []" and "read_digits 16 0 True s = Some n"
  shows "read_int 16 s = Some (int n)"
proof -
  obtain c cs where s: "s = c # cs" using assms(2) by (cases s) auto
  have st: "strip s = s"
    using assms(1) hex_digit_facts by (auto simp: strip_def intro!: strip_by_id)
  have "c \<in> hex_digits" using assms(1) s by simp
  then have c: "c \<noteq> CHR ''-''" "c \<noteq> CHR ''+''" "c \<noteq> CHR ''_''" using hex_digit_facts by blast+
  have "read_unsigned 16 s = Some n"
    using assms(2,3) c(3) drop_hex_prefix_id [OF assms(1)] s
    by (simp add: read_unsigned_def read_digits_flag)
  then show ?thesis using st s c by (simp add: read_int_def)
qed

lemma hex_fixed_plain: "c \<in> set (hex_fixed k n) \<Longrightarrow> c \<in> hex_digits"
  using set_hex_fixed by blast

lemma set_uuid_str: "set (uuid_str u) \<subseteq> insert (CHR ''-'') hex_digits"
proof
  fix c
  assume "c \<in> set (uuid_str u)"
  then have "c = CHR ''-'' \<or> c \<in> set (hex_fixed 32 (unat u))"
    by (auto simp only: uuid_str_def Let_def set_append Un_iff list.set empty_iff insert_iff
        dest: in_set_takeD in_set_dropD)
  then show "c \<in> insert (CHR ''-'') hex_digits" using hex_fixed_plain by blast
qed

lemma filter_id_on: "(\<forall>x\<in>set xs. P x) \<Longrightarrow> filter P xs = xs"
  by (induction xs) auto

lemma split_32:
  "take 8 h @ take 4 (drop 8 h) @ take 4 (drop 12 h) @ take 4 (drop 16 h) @ drop 20 h = h"
proof -
  have "take 4 (drop 16 h) @ drop 20 h = drop 16 h"
    using append_take_drop_id [of 4 "drop 16 h"] by simp
  moreover have "take 4 (drop 12 h) @ drop 16 h = drop 12 h"
    using append_take_drop_id [of 4 "drop 12 h"] by simp
  moreover have "take 4 (drop 8 h) @ drop 12 h = drop 8 h"
    using append_take_drop_id [of 4 "drop 8 h"] by simp
  ultimately show ?thesis by simp
qed

lemma filter_uuid_str:
  "filter (\<lambda>c. c \<noteq> CHR ''-'') (uuid_str u) = hex_fixed 32 (unat u)"
proof -
  define h where "h = hex_fixed 32 (unat u)"
  have no_dash: "x \<noteq> CHR ''-''" if "x \<in> set h" for x
    using hex_fixed_plain [of x 32 "unat u"] hex_digit_facts that by (auto simp: h_def)
  have keep: "filter (\<lambda>c. c \<noteq> CHR ''-'') (take i (drop j h)) = take i (drop j h)"
    "filter (\<lambda>c. c \<noteq> CHR ''-'') (drop j h) = drop j h" for i j
    using no_dash by (auto intro!: filter_id_on dest: in_set_takeD in_set_dropD)
  have "filter (\<lambda>c. c \<noteq> CHR ''-'') (uuid_str u)
      = take 8 h @ take 4 (drop 8 h) @ take 4 (drop 12 h) @ take 4 (drop 16 h) @ drop 20 h"
    using keep(1) [of 8 0] by (simp add: uuid_str_def keep del: hex_fixed.simps flip: h_def)
  then show ?thesis by (simp only: split_32 h_def)
qed

lemma uuid_str_chars:
  assumes "c \<in> set (uuid_str u)"
  shows "\<not> is_space c" "c \<noteq> CHR ''u''" "c \<noteq> CHR ''{''" "c \<noteq> CHR ''}''" "code c < 128"
proof -
  from assms have "c = CHR ''-'' \<or> c \<in> hex_digits" using set_uuid_str by blast
  moreover have "\<not> is_space (CHR ''-'')" by (simp add: is_space_def)
  ultimately show "\<not> is_space c" "c \<noteq> CHR ''u''" "c \<noteq> CHR ''{''" "c \<noteq> CHR ''}''" "code c < 128"
    using hex_digit_facts [of c] by auto
qed

theorem parse_uuid_str: "parse_uuid (uuid_str u) = Some u"
proof -
  let ?h = "hex_fixed 32 (unat u)"
  have "CHR ''u'' \<notin> set (uuid_str u)" using uuid_str_chars(2) by blast
  then have "remove_all ''uuid:'' (remove_all ''urn:'' (uuid_str u)) = uuid_str u"
    using remove_all_id by simp
  moreover have "strip_by (\<lambda>c. c = CHR ''{'' \<or> c = CHR ''}'') (uuid_str u) = uuid_str u"
    using uuid_str_chars(3,4) by (intro strip_by_id) blast
  moreover have "unat u < 16 ^ 32"
    using unsigned_less [where ?'a = nat and w = u] by simp
  then have "read_int 16 ?h = Some (int (unat u))"
    by (intro read_int_hex set_hex_fixed read_digits_hex_fixed) (simp_all flip: length_0_conv del: hex_fixed.simps)
  moreover have "int (unat u) < 2 ^ 128"
    using unsigned_less [where ?'a = int and w = u] by simp
  ultimately show ?thesis
    by (simp add: parse_uuid_def filter_uuid_str del: hex_fixed.simps)
qed

lemma uuid_str_inject: "uuid_str u = uuid_str v \<longleftrightarrow> u = v"
  by (metis option.inject parse_uuid_str)

lemma strip_uuid_str [simp]: "strip (uuid_str u) = uuid_str u"
  by (simp add: strip_def strip_by_id uuid_str_chars(1))

lemma length_uuid_str [simp]: "length (uuid_str u) = 36"
  by (simp add: uuid_str_def Let_def)

lemma uuid_str_not_Nil [simp]: "uuid_str u \<noteq> []"
  using length_uuid_str [of u] by (metis length_0_conv zero_neq_numeral)

lemma is_ascii_uuid_str: "is_ascii (uuid_str u)"
  by (simp add: is_ascii_def list_all_iff uuid_str_chars(5))

end
