(* ===== verification/Money.thy ===== *)
theory Money
  imports PyText
begin

text \<open>
  \<open>src/domain/money.py\<close>: currencies and amounts of money, with the part of \<open>decimal.Decimal\<close> they use.
  The lemmas show that an accepted amount keeps its value, is positive, and has scale two.
\<close>

section \<open>decimal.Decimal\<close>

text \<open>A finite number is sign, coefficient and exponent: \<open>Dec s c e\<close> is \<open>(-1)^s * c * 10^e\<close>.\<close>

datatype decimal = Dec bool nat int | DInfinity bool | DNaN bool

definition is_finite :: "decimal \<Rightarrow> bool" where
  "is_finite d = (case d of Dec s c e \<Rightarrow> True | _ \<Rightarrow> False)"

fun decimal_value :: "decimal \<Rightarrow> rat" where
  "decimal_value (Dec s c e) = (if s then - 1 else 1) * of_nat c * 10 powi e"
| "decimal_value _ = 0"

definition decimal_eq :: "decimal \<Rightarrow> decimal \<Rightarrow> bool" where
  "decimal_eq a b = (is_finite a \<and> is_finite b \<and> decimal_value a = decimal_value b)"

definition num_digits :: "nat \<Rightarrow> nat" where
  "num_digits c = length (show_nat c)"

text \<open>
  \<open>amount.quantize(Decimal("0.01"))\<close> for a positive finite amount of exponent at least -2, where no
  rounding happens: the coefficient is scaled. More than 28 digits, the precision of the default
  context, raise \<open>decimal.InvalidOperation\<close>.
\<close>

definition quantize_cents :: "bool \<Rightarrow> nat \<Rightarrow> int \<Rightarrow> exn + decimal" where
  "quantize_cents s c e =
     (if 28 < int (num_digits c) + e + 2 then Inl InvalidOperation
      else Inr (Dec s (c * 10 ^ nat (e + 2)) (- 2)))"

text \<open>\<open>str(amount)\<close>.\<close>

definition decimal_str :: "decimal \<Rightarrow> string" where
  "decimal_str d =
     (case d of
        DInfinity neg \<Rightarrow> (if neg then ''-Infinity'' else ''Infinity'')
      | DNaN sig \<Rightarrow> (if sig then ''sNaN'' else ''NaN'')
      | Dec s c e \<Rightarrow>
          (let digits = show_nat c;
               leftdigits = e + int (length digits);
               dotplace = (if e \<le> 0 \<and> - 6 < leftdigits then leftdigits else 1);
               intpart = (if dotplace \<le> 0 then ''0''
                          else if int (length digits) \<le> dotplace
                               then digits @ replicate (nat dotplace - length digits) (CHR ''0'')
                               else take (nat dotplace) digits);
               fracpart = (if dotplace \<le> 0
                           then ''.'' @ replicate (nat (- dotplace)) (CHR ''0'') @ digits
                           else if int (length digits) \<le> dotplace then []
                                else ''.'' @ drop (nat dotplace) digits);
               exponent = leftdigits - dotplace
           in (if s then ''-'' else []) @ intpart @ fracpart
              @ (if exponent = 0 then []
                 else ''E'' @ (if exponent < 0 then [] else ''+'') @ show_int exponent)))"

section \<open>Currency\<close>

datatype currency = RUB | USD | EUR

fun currency_value :: "currency \<Rightarrow> string" where
  "currency_value RUB = ''RUB''"
| "currency_value USD = ''USD''"
| "currency_value EUR = ''EUR''"

text \<open>\<open>Currency(text)\<close>, the look-up of a member by its value; \<open>None\<close> is the \<open>ValueError\<close>.\<close>

definition currency_of_value :: "string \<Rightarrow> currency option" where
  "currency_of_value text = find (\<lambda>c. currency_value c = text) [RUB, USD, EUR]"

text \<open>\<open>Currency.parse\<close>: a member is returned as it is.\<close>

definition currency_parse :: "currency + string \<Rightarrow> exn + currency" where
  "currency_parse currency =
     (case currency of
        Inl c \<Rightarrow> Inr c
      | Inr text \<Rightarrow>
          (case currency_of_value text of
             Some c \<Rightarrow> Inr c
           | None \<Rightarrow> Inl (InvalidCurrencyError (''unsupported currency: '' @ text))))"

section \<open>Money\<close>

text \<open>What the caller may pass as the amount, told apart by \<open>isinstance\<close>.\<close>

datatype amount_arg = ABool bool | AFloat rat | AInt int | ADecimal decimal | AOther

record money =
  m_amount :: decimal
  m_currency :: currency

text \<open>\<open>Money.__init__\<close>.\<close>

definition money_amount :: "decimal \<Rightarrow> exn + decimal" where
  "money_amount amount =
     (case amount of
        Dec s c e \<Rightarrow>
          if s \<or> c = 0 then Inl (InvalidMoneyError ''amount must be greater than zero'')
          else if e < - 2 then Inl (InvalidMoneyError ''amount scale must be at most 2'')
          else quantize_cents s c e
      | _ \<Rightarrow> Inl (InvalidMoneyError ''amount must be finite''))"

definition money_new :: "amount_arg \<Rightarrow> currency + string \<Rightarrow> exn + money" where
  "money_new amount currency =
     bind_exn
       (case amount of
          ABool b \<Rightarrow> Inl (InvalidMoneyError ''amount must be Decimal, never float'')
        | AFloat q \<Rightarrow> Inl (InvalidMoneyError ''amount must be Decimal, never float'')
        | AInt i \<Rightarrow> money_amount (Dec (i < 0) (nat \<bar>i\<bar>) 0)
        | ADecimal d \<Rightarrow> money_amount d
        | AOther \<Rightarrow> Inl (InvalidMoneyError ''amount must be Decimal''))
       (\<lambda>a. bind_exn (currency_parse currency) (\<lambda>c. Inr \<lparr>m_amount = a, m_currency = c\<rparr>))"

text \<open>\<open>Money.__eq__\<close>.\<close>

definition money_eq :: "money \<Rightarrow> money \<Rightarrow> bool" where
  "money_eq a b = (decimal_eq (m_amount a) (m_amount b) \<and> m_currency a = m_currency b)"

section \<open>What holds of accepted amounts\<close>

text \<open>The class invariant: positive, exponent -2, at most 28 digits.\<close>

definition money_ok :: "money \<Rightarrow> bool" where
  "money_ok m = (\<exists>c. m_amount m = Dec False c (- 2) \<and> 0 < c \<and> num_digits c \<le> 28)"

lemma num_digits_rec:
  "num_digits c = (if c < 10 then 1 else Suc (num_digits (c div 10)))"
  by (simp add: num_digits_def show_nat.simps [of c])

lemma num_digits_times_10: "0 < c \<Longrightarrow> num_digits (c * 10) = Suc (num_digits c)"
  using num_digits_rec [of "c * 10"] by simp

lemma num_digits_times_power: "0 < c \<Longrightarrow> num_digits (c * 10 ^ k) = num_digits c + k"
proof (induction k)
  case 0
  then show ?case by simp
next
  case (Suc k)
  then have "0 < c * 10 ^ k" by simp
  from num_digits_times_10 [OF this] Suc show ?case by (simp add: ac_simps)
qed

lemma num_digits_pos: "0 < num_digits c"
  by (simp add: num_digits_rec [of c])

lemma num_digits_bound: "c < 10 ^ num_digits c"
proof (induction c rule: less_induct)
  case (less c)
  show ?case
  proof (cases "c < 10")
    case True
    then show ?thesis by (simp add: num_digits_rec [of c])
  next
    case False
    then have "c div 10 < 10 ^ num_digits (c div 10)" by (intro less.IH) simp
    then have "c < 10 * 10 ^ num_digits (c div 10)" by linarith
    with False show ?thesis by (simp add: num_digits_rec [of c])
  qed
qed

lemma num_digits_le: "c < 10 ^ k \<Longrightarrow> 0 < k \<Longrightarrow> num_digits c \<le> k"
  by (simp add: num_digits_def length_show_nat)

lemma money_amount_Inr:
  assumes "money_amount d = Inr a"
  obtains c e where "d = Dec False c e" "0 < c" "- 2 \<le> e" "a = Dec False (c * 10 ^ nat (e + 2)) (- 2)"
    "num_digits (c * 10 ^ nat (e + 2)) \<le> 28"
proof -
  from assms obtain s c e where d: "d = Dec s c e"
    by (cases d) (auto simp: money_amount_def)
  with assms have facts: "\<not> s" "0 < c" "- 2 \<le> e"
    "a = Dec s (c * 10 ^ nat (e + 2)) (- 2)" "int (num_digits c) + e + 2 \<le> 28"
    by (auto simp: money_amount_def quantize_cents_def split: if_splits)
  moreover from facts have "num_digits (c * 10 ^ nat (e + 2)) \<le> 28"
    by (simp add: num_digits_times_power)
  ultimately show ?thesis using that d by simp
qed

lemma money_amount_keeps_value:
  assumes "money_amount d = Inr a"
  shows "decimal_value a = decimal_value d"
proof -
  from assms obtain c e where d: "d = Dec False c e" and e: "- 2 \<le> e"
    and a: "a = Dec False (c * 10 ^ nat (e + 2)) (- 2)"
    by (rule money_amount_Inr)
  define k where "k = nat (e + 2)"
  have k: "e = int k + - 2" using e by (simp add: k_def)
  have "(10 :: rat) powi e = 10 ^ k * 10 powi (- 2)"
    unfolding k using power_int_add [of "10 :: rat" "int k" "- 2"] by simp
  moreover have "nat (e + 2) = k" by (simp add: k)
  ultimately show ?thesis by (simp add: d a)
qed

lemma money_new_Inr:
  assumes "money_new arg cur = Inr m"
  obtains d where "money_amount d = Inr (m_amount m)" "arg = ADecimal d \<or> (\<exists>i. arg = AInt i \<and> d = Dec (i < 0) (nat \<bar>i\<bar>) 0)"
    "currency_parse cur = Inr (m_currency m)"
  using assms by (cases arg) (auto simp: money_new_def bind_exn_Inr_iff)

lemma money_new_ok: "money_new arg cur = Inr m \<Longrightarrow> money_ok m"
  by (elim money_new_Inr money_amount_Inr) (auto simp: money_ok_def)

lemma money_ok_value:
  assumes "money_ok m" and "money_ok n"
  shows "money_eq m n \<longleftrightarrow> m_amount m = m_amount n \<and> m_currency m = m_currency n"
  using assms by (auto simp: money_eq_def money_ok_def decimal_eq_def is_finite_def)

lemma money_eq_refl: "money_ok m \<Longrightarrow> money_eq m m"
  by (simp add: money_ok_value)

lemma currency_of_value_value [simp]: "currency_of_value (currency_value c) = Some c"
  by (cases c) (simp_all add: currency_of_value_def)

lemma currency_of_value_Some: "currency_of_value text = Some c \<Longrightarrow> text = currency_value c"
  by (auto simp: currency_of_value_def split: if_splits)

text \<open>An amount already in cents is returned as it is.\<close>

lemma money_new_again:
  assumes "money_ok m"
  shows "money_new (ADecimal (m_amount m)) (Inl (m_currency m)) = Inr m"
  using assms
  by (auto simp: money_ok_def money_new_def money_amount_def quantize_cents_def currency_parse_def)

text \<open>The number an argument stands for: \<open>int\<close> and \<open>Decimal\<close> are the types that are accepted.\<close>

definition arg_decimal :: "amount_arg \<Rightarrow> decimal option" where
  "arg_decimal arg =
     (case arg of AInt i \<Rightarrow> Some (Dec (i < 0) (nat \<bar>i\<bar>) 0) | ADecimal d \<Rightarrow> Some d | _ \<Rightarrow> None)"

text \<open>Which numbers are acceptable, told by the value and the number of places: finite, positive, at most two
  decimal places, and fewer than 29 digits in cents.\<close>

definition acceptable_amount :: "amount_arg \<Rightarrow> bool" where
  "acceptable_amount arg \<longleftrightarrow>
     (case arg_decimal arg of
        Some (Dec s c e) \<Rightarrow> - 2 \<le> e \<and> 0 < decimal_value (Dec s c e) \<and> decimal_value (Dec s c e) < 10 ^ 26
      | _ \<Rightarrow> False)"

lemma powi_split: "- 2 \<le> e \<Longrightarrow> (10 :: rat) powi e = 10 ^ nat (e + 2) / 100"
proof -
  assume "- 2 \<le> e"
  then have "e = int (nat (e + 2)) + - 2" by simp
  then have "(10 :: rat) powi e = 10 powi (int (nat (e + 2)) + - 2)" by simp
  also have "\<dots> = 10 powi (int (nat (e + 2))) * 10 powi (- 2)" by (rule power_int_add) simp
  also have "\<dots> = 10 ^ nat (e + 2) * 10 powi (- 2)" by (simp only: power_int_of_nat)
  finally show ?thesis by simp
qed

lemma decimal_value_pos: "0 < decimal_value (Dec s c e) \<longleftrightarrow> \<not> s \<and> 0 < c"
proof -
  have "(0 :: rat) < 10 powi e" by simp
  then show ?thesis by (cases "c = 0"; cases s) (simp_all add: zero_less_mult_iff not_less less_imp_le)
qed

lemma decimal_value_bound:
  assumes "0 < c" and "- 2 \<le> e"
  shows "decimal_value (Dec False c e) < 10 ^ 26 \<longleftrightarrow> int (num_digits c) + e + 2 \<le> 28"
proof -
  let ?n = "c * 10 ^ nat (e + 2)"
  have v: "decimal_value (Dec False c e) = of_nat ?n / 100" by (simp add: powi_split [OF assms(2)])
  have "decimal_value (Dec False c e) < 10 ^ 26 \<longleftrightarrow> (of_nat ?n :: rat) < 10 ^ 28"
    unfolding v by (simp add: divide_less_eq)
  also have "\<dots> \<longleftrightarrow> (of_nat ?n :: rat) < of_nat (10 ^ 28)" by (simp only: of_nat_power of_nat_numeral)
  also have "\<dots> \<longleftrightarrow> ?n < 10 ^ 28" by (simp only: of_nat_less_iff)
  also have "\<dots> \<longleftrightarrow> num_digits ?n \<le> 28"
  proof
    assume "?n < 10 ^ 28"
    then show "num_digits ?n \<le> 28" by (rule num_digits_le) simp
  next
    assume "num_digits ?n \<le> 28"
    then have "(10 :: nat) ^ num_digits ?n \<le> 10 ^ 28" by (intro power_increasing) simp_all
    with num_digits_bound [of ?n] show "?n < 10 ^ 28" by (rule less_le_trans)
  qed
  also have "\<dots> \<longleftrightarrow> int (num_digits c) + e + 2 \<le> 28"
    using assms by (auto simp: num_digits_times_power)
  finally show ?thesis .
qed

lemma money_amount_accepts:
  "(\<exists>a. money_amount (Dec s c e) = Inr a) \<longleftrightarrow>
     - 2 \<le> e \<and> 0 < decimal_value (Dec s c e) \<and> decimal_value (Dec s c e) < 10 ^ 26"
  using decimal_value_bound [of c e]
  by (cases s; cases "c = 0") (auto simp: money_amount_def quantize_cents_def decimal_value_pos simp del: decimal_value.simps)

lemma currency_parse_Inr: "currency_parse (Inr text) = Inr c \<longleftrightarrow> text = currency_value c"
  by (auto simp: currency_parse_def dest: currency_of_value_Some split: option.splits)

lemma money_new_iff:
  "money_new (ADecimal d) (Inr text) = Inr m \<longleftrightarrow>
     money_amount d = Inr (m_amount m) \<and> text = currency_value (m_currency m)"
proof -
  have "money_new (ADecimal d) (Inr text) = Inr m \<longleftrightarrow>
      (\<exists>a c. money_amount d = Inr a \<and> text = currency_value c \<and> m = \<lparr>m_amount = a, m_currency = c\<rparr>)"
    by (auto simp: money_new_def bind_exn_Inr_iff currency_parse_Inr)
  then show ?thesis by (metis (full_types) money.cases money.select_convs(1,2))
qed

section \<open>Properties\<close>

text \<open>C13: \<open>Money\<close> accepts an amount exactly when it is an \<open>int\<close> or a \<open>Decimal\<close> that is finite, positive, of at
  most two decimal places and of at most 28 digits in cents, with one of the three currency codes; the money
  it then makes has the amount's value, exactly two decimal places, and the given currency.\<close>

theorem money_accepts_exactly:
  "case money_new arg (Inr text) of
     Inr m \<Rightarrow> acceptable_amount arg \<and> text \<in> {''RUB'', ''USD'', ''EUR''} \<and>
       map_option decimal_value (arg_decimal arg) = Some (decimal_value (m_amount m)) \<and>
       (\<exists>c. m_amount m = Dec False c (- 2)) \<and> currency_value (m_currency m) = text
   | Inl e \<Rightarrow> \<not> (acceptable_amount arg \<and> text \<in> {''RUB'', ''USD'', ''EUR''})"
proof (cases "money_new arg (Inr text)")
  case (Inl e)
  have "\<not> (acceptable_amount arg \<and> text \<in> {''RUB'', ''USD'', ''EUR''})"
  proof
    assume ok: "acceptable_amount arg \<and> text \<in> {''RUB'', ''USD'', ''EUR''}"
    then obtain d where d: "arg_decimal arg = Some d" by (auto simp: acceptable_amount_def split: option.splits)
    then obtain s c e where "d = Dec s c e" using ok by (cases d) (auto simp: acceptable_amount_def)
    then obtain a where a: "money_amount d = Inr a"
      using ok d money_amount_accepts [of s c e] by (auto simp: acceptable_amount_def simp del: decimal_value.simps)
    have "\<exists>c. text = currency_value c"
      using ok currency_value.simps by (metis (no_types) empty_iff insert_iff)
    then obtain c where "currency_parse (Inr text) = Inr c" by (auto simp: currency_parse_Inr)
    then show False using Inl a d by (cases arg) (auto simp: money_new_def arg_decimal_def)
  qed
  then show ?thesis by (simp add: Inl)
next
  case (Inr m)
  then obtain d where d: "money_amount d = Inr (m_amount m)" "arg_decimal arg = Some d"
    and cur: "currency_parse (Inr text) = Inr (m_currency m)"
    by (elim money_new_Inr) (auto simp: arg_decimal_def)
  have "acceptable_amount arg"
    using d money_amount_accepts
    by (cases d) (auto simp: acceptable_amount_def money_amount_def simp del: decimal_value.simps)
  moreover have "text \<in> {''RUB'', ''USD'', ''EUR''}" "currency_value (m_currency m) = text"
    using cur by (cases "m_currency m"; simp add: currency_parse_Inr)+
  moreover have "\<exists>c. m_amount m = Dec False c (- 2)" using d(1) by (rule money_amount_Inr) simp
  ultimately show ?thesis using money_amount_keeps_value [OF d(1)] d(2) by (simp add: Inr)
qed

end
