(* ===== verification/PyValue.thy ===== *)
theory PyValue
  imports PyText
begin

text \<open>
  The values behind the \<open>Any\<close> of the source: what a JSON document, an AMQP header table or a
  \<open>metadata\<close> dictionary may hold, with Python's equality, \<open>str\<close>, \<open>int\<close> and \<open>json.dumps\<close> on them.
  A finite float is its exact rational value. What CPython alone can print (the shortest decimal form of
  a float, the \<open>repr\<close> of a container, malformed UTF-8) is a parameter, the record \<open>pyrt\<close>.
\<close>

datatype pyfloat = Finite rat | Infinite bool | NotANumber

datatype pyval =
    PNone
  | PBool bool
  | PInt int
  | PFloat pyfloat
  | PStr string
  | PBytes string
  | PList "pyval list"
  | PDict "(string \<times> pyval) list"

type_synonym pydict = "(string \<times> pyval) list"

record pyrt =
  utf8_replace :: "string \<Rightarrow> string"
  obj_str :: "pyval \<Rightarrow> string"
  float_repr :: "pyfloat \<Rightarrow> string"

section \<open>Dictionaries\<close>

text \<open>
  A dictionary is its items in insertion order, no key twice. \<open>d.get(k)\<close> is \<open>dict_get\<close>; storing keeps
  the place of a key that is there and appends one that is not.
\<close>

definition dict_get :: "pydict \<Rightarrow> string \<Rightarrow> pyval" where
  "dict_get d k = (case map_of d k of None \<Rightarrow> PNone | Some v \<Rightarrow> v)"

fun dict_set :: "pydict \<Rightarrow> string \<Rightarrow> pyval \<Rightarrow> pydict" where
  "dict_set [] k v = [(k, v)]"
| "dict_set ((k', v') # d) k v = (if k' = k then (k, v) # d else (k', v') # dict_set d k v)"

lemma map_of_dict_set: "map_of (dict_set d k v) = (map_of d)(k \<mapsto> v)"
  by (induction d k v rule: dict_set.induct) (auto simp: fun_upd_twist)

lemma dict_get_set [simp]: "dict_get (dict_set d k v) k' = (if k' = k then v else dict_get d k')"
  by (simp add: dict_get_def map_of_dict_set)

lemma distinct_dict_set: "distinct (map fst d) \<Longrightarrow> distinct (map fst (dict_set d k v))"
proof (induction d k v rule: dict_set.induct)
  case (1 k v)
  then show ?case by simp
next
  case (2 k' v' d k v)
  have "set (map fst (dict_set d k v)) = insert k (set (map fst d))"
    by (induction d k v rule: dict_set.induct) auto
  with 2 show ?case by auto
qed

section \<open>Equality\<close>

text \<open>
  \<open>==\<close>: booleans, integers and floats compare by their numeric value, dictionaries as sets of items,
  lists item by item; values of other types are equal to their own type only.
\<close>

fun numeric :: "pyval \<Rightarrow> pyfloat option" where
  "numeric (PBool b) = Some (Finite (if b then 1 else 0))"
| "numeric (PInt i) = Some (Finite (of_int i))"
| "numeric (PFloat f) = Some f"
| "numeric _ = None"

function py_eq :: "pyval \<Rightarrow> pyval \<Rightarrow> bool" where
  "py_eq a b =
     (case numeric a of
        Some x \<Rightarrow> (case numeric b of Some y \<Rightarrow> x = y \<and> x \<noteq> NotANumber | None \<Rightarrow> False)
      | None \<Rightarrow>
         (case a of
            PNone \<Rightarrow> b = PNone
          | PStr s \<Rightarrow> b = PStr s
          | PBytes s \<Rightarrow> b = PBytes s
          | PList xs \<Rightarrow>
              (case b of PList ys \<Rightarrow>
                 length xs = length ys \<and> list_all (\<lambda>(x, y). py_eq x y) (zip xs ys)
               | _ \<Rightarrow> False)
          | PDict xs \<Rightarrow>
              (case b of PDict ys \<Rightarrow>
                 length xs = length ys \<and>
                 list_all (\<lambda>(k, v). case map_of ys k of None \<Rightarrow> False | Some w \<Rightarrow> py_eq v w) xs
               | _ \<Rightarrow> False)
          | _ \<Rightarrow> False))"
  by pat_completeness auto
termination
proof (relation "measure (\<lambda>(a, b). size a)", goal_cases)
  case 1
  then show ?case by simp
next
  case (2 a b xs ys z x y)
  then have "x \<in> set xs" by (metis set_zip_leftD)
  then have "size x < Suc (size_list size xs)"
    by (simp add: less_Suc_eq_le size_list_estimation')
  with 2 show ?case by (cases z) simp
next
  case (3 a b xs ys z k v w)
  then have "(k, v) \<in> set xs" by simp
  then have "size_prod (\<lambda>x. 0) size (k, v) \<le> size_list (size_prod (\<lambda>x. 0) size) xs"
    by (rule size_list_estimation') simp
  with 3 show ?case by (cases z) simp
qed

declare py_eq.simps [simp del]

definition dict_eq :: "pydict \<Rightarrow> pydict \<Rightarrow> bool" where
  "dict_eq xs ys = py_eq (PDict xs) (PDict ys)"

section \<open>Conversions\<close>

text \<open>\<open>str(value)\<close>.\<close>

fun py_str :: "pyrt \<Rightarrow> pyval \<Rightarrow> string" where
  "py_str rt PNone = ''None''"
| "py_str rt (PBool b) = (if b then ''True'' else ''False'')"
| "py_str rt (PInt i) = show_int i"
| "py_str rt (PFloat f) = float_repr rt f"
| "py_str rt (PStr s) = s"
| "py_str rt v = obj_str rt v"

text \<open>\<open>value.decode("utf-8", "replace")\<close>: ASCII bytes stand for themselves.\<close>

definition decode_utf8 :: "pyrt \<Rightarrow> string \<Rightarrow> string" where
  "decode_utf8 rt b = (if is_ascii b then b else utf8_replace rt b)"

text \<open>
  \<open>int(value)\<close>: a text or bytes in decimal, a number truncated towards zero; an infinite float raises
  \<open>OverflowError\<close>, \<open>nan\<close> and malformed text \<open>ValueError\<close>, anything else \<open>TypeError\<close>.
\<close>

definition truncate_rat :: "rat \<Rightarrow> int" where
  "truncate_rat q = (if q < 0 then - \<lfloor>- q\<rfloor> else \<lfloor>q\<rfloor>)"

definition read_int_exn :: "string \<Rightarrow> exn + int" where
  "read_int_exn s =
     (case read_int 10 s of None \<Rightarrow> Inl (ValueError ''invalid literal for int()'') | Some i \<Rightarrow> Inr i)"

fun py_int :: "pyval \<Rightarrow> exn + int" where
  "py_int (PBool b) = Inr (if b then 1 else 0)"
| "py_int (PInt i) = Inr i"
| "py_int (PFloat (Finite q)) = Inr (truncate_rat q)"
| "py_int (PFloat (Infinite _)) = Inl (OverflowError ''cannot convert float infinity to integer'')"
| "py_int (PFloat NotANumber) = Inl (ValueError ''cannot convert float NaN to integer'')"
| "py_int (PStr s) = read_int_exn s"
| "py_int (PBytes s) = read_int_exn s"
| "py_int _ = Inl (TypeError ''int() argument must be a string or a number'')"

text \<open>\<open>json.dumps(value)\<close> with the default arguments: the result is ASCII.\<close>

definition json_char :: "char \<Rightarrow> string" where
  "json_char c =
     (let n = code c in
      if n = 34 then [char_of (92::nat), char_of (34::nat)]
      else if n = 92 then [char_of (92::nat), char_of (92::nat)]
      else if n = 10 then [char_of (92::nat), CHR ''n'']
      else if n = 13 then [char_of (92::nat), CHR ''r'']
      else if n = 9 then [char_of (92::nat), CHR ''t'']
      else if n = 12 then [char_of (92::nat), CHR ''f'']
      else if n = 8 then [char_of (92::nat), CHR ''b'']
      else if 32 \<le> n \<and> n < 127 then [c]
      else char_of (92::nat) # CHR ''u'' # hex_fixed 4 n)"

definition json_string :: "string \<Rightarrow> string" where
  "json_string s = [char_of (34::nat)] @ concat (map json_char s) @ [char_of (34::nat)]"

fun join :: "string \<Rightarrow> string list \<Rightarrow> string" where
  "join sep [] = []"
| "join sep [x] = x"
| "join sep (x # y # ys) = x @ sep @ join sep (y # ys)"

fun all_some :: "'a option list \<Rightarrow> 'a list option" where
  "all_some [] = Some []"
| "all_some (None # xs) = None"
| "all_some (Some x # xs) = map_option (Cons x) (all_some xs)"

text \<open>\<open>None\<close> is the \<open>TypeError\<close> for a value that is not JSON (\<open>bytes\<close>).\<close>

fun json_dumps :: "pyrt \<Rightarrow> pyval \<Rightarrow> string option" where
  "json_dumps rt PNone = Some ''null''"
| "json_dumps rt (PBool b) = Some (if b then ''true'' else ''false'')"
| "json_dumps rt (PInt i) = Some (show_int i)"
| "json_dumps rt (PFloat f) =
     Some (case f of Finite q \<Rightarrow> float_repr rt f | NotANumber \<Rightarrow> ''NaN''
           | Infinite neg \<Rightarrow> (if neg then ''-Infinity'' else ''Infinity''))"
| "json_dumps rt (PStr s) = Some (json_string s)"
| "json_dumps rt (PBytes s) = None"
| "json_dumps rt (PList xs) =
     map_option (\<lambda>ys. ''['' @ join '', '' ys @ '']'') (all_some (map (json_dumps rt) xs))"
| "json_dumps rt (PDict d) =
     map_option (\<lambda>ys. ''{'' @ join '', '' ys @ ''}'')
       (all_some (map (\<lambda>(k, v). map_option (\<lambda>t. json_string k @ '': '' @ t) (json_dumps rt v)) d))"

fun is_json :: "pyval \<Rightarrow> bool" where
  "is_json (PBytes s) = False"
| "is_json (PList xs) = list_all is_json xs"
| "is_json (PDict d) = list_all (\<lambda>(k, v). is_json v) d"
| "is_json _ = True"

lemma all_some_iff: "(\<exists>ys. all_some xs = Some ys) \<longleftrightarrow> None \<notin> set xs"
  by (induction xs rule: all_some.induct) auto

lemma json_dumps_Some: "is_json v \<Longrightarrow> \<exists>t. json_dumps rt v = Some t"
proof (induction v rule: is_json.induct)
  case (2 xs)
  then have "None \<notin> set (map (json_dumps rt) xs)"
    by (auto simp: list_all_iff) (metis option.distinct(1))
  then show ?case using all_some_iff by fastforce
next
  case (3 d)
  then have "None \<notin> set (map (\<lambda>(k, v). map_option (\<lambda>t. json_string k @ '': '' @ t) (json_dumps rt v)) d)"
    by (fastforce simp: list_all_iff)
  then obtain ys where
    "all_some (map (\<lambda>(k, v). map_option (\<lambda>t. json_string k @ '': '' @ t) (json_dumps rt v)) d) = Some ys"
    using all_some_iff by blast
  then show ?case by simp
qed auto

section \<open>Facts about equality\<close>

lemma numeric_not_nan_refl:
  "numeric v = Some x \<Longrightarrow> py_eq v v \<longleftrightarrow> x \<noteq> NotANumber"
  by (simp add: py_eq.simps)

text \<open>A value without \<open>nan\<close> in it, whose dictionaries have no key twice, equals itself.\<close>

fun plain_value :: "pyval \<Rightarrow> bool" where
  "plain_value (PFloat f) \<longleftrightarrow> f \<noteq> NotANumber"
| "plain_value (PList xs) \<longleftrightarrow> list_all plain_value xs"
| "plain_value (PDict d) \<longleftrightarrow> distinct (map fst d) \<and> list_all (\<lambda>(k, v). plain_value v) d"
| "plain_value _ \<longleftrightarrow> True"

lemma py_eq_refl: "plain_value v \<Longrightarrow> py_eq v v"
proof (induction v rule: plain_value.induct)
  case (2 xs)
  then have "list_all (\<lambda>(x, y). py_eq x y) (zip xs xs)"
    by (auto simp: list_all_iff zip_same)
  then show ?case by (simp add: py_eq.simps [of "PList xs" "PList xs"])
next
  case (3 d)
  have "case map_of d k of None \<Rightarrow> False | Some w \<Rightarrow> py_eq v w" if "(k, v) \<in> set d" for k v
  proof -
    have "map_of d k = Some v" using 3(2) that by simp
    moreover have "plain_value v" using 3(2) that by (auto simp: list_all_iff)
    then have "py_eq v v" using 3(1) that by auto
    ultimately show ?thesis by simp
  qed
  then show ?case by (auto simp: py_eq.simps [of "PDict d" "PDict d"] list_all_iff)
qed (simp_all add: py_eq.simps)

lemma dict_eq_refl: "plain_value (PDict d) \<Longrightarrow> dict_eq d d"
  by (simp add: dict_eq_def py_eq_refl)

end
