(* ===== verification/Payment.thy ===== *)
theory Payment
  imports Money PyValue
begin

text \<open>
  \<open>src/domain/ids.py\<close> and \<open>src/domain/payment.py\<close>: the identifiers, the status machine and the
  \<open>Payment\<close> aggregate. The lemmas show that the first completion decides and that nothing else of
  a payment ever changes.
\<close>

section \<open>Identifiers\<close>

text \<open>
  \<open>PaymentId.__post_init__\<close>: the caller passes a \<open>UUID\<close> object (left) or some other value (right).
\<close>

definition payment_id_new :: "uuid + pyval \<Rightarrow> exn + uuid" where
  "payment_id_new value =
     (case value of
        Inl u \<Rightarrow> Inr u
      | Inr v \<Rightarrow> Inl (InvalidPaymentIdError ''payment id must be a UUID''))"

text \<open>\<open>IdempotencyKey.__post_init__\<close>.\<close>

definition idempotency_key_new :: "pyval \<Rightarrow> exn + string" where
  "idempotency_key_new value =
     (case value of
        PStr s \<Rightarrow>
          if strip s = [] then Inl (InvalidIdempotencyKeyError ''idempotency key must be a non-empty string'')
          else if 255 < length s then Inl (InvalidIdempotencyKeyError ''idempotency key is too long'')
          else Inr s
      | _ \<Rightarrow> Inl (InvalidIdempotencyKeyError ''idempotency key must be a non-empty string''))"

definition key_ok :: "string \<Rightarrow> bool" where
  "key_ok s \<longleftrightarrow> strip s \<noteq> [] \<and> length s \<le> 255"

lemma idempotency_key_new_Inr: "idempotency_key_new v = Inr k \<longleftrightarrow> v = PStr k \<and> key_ok k"
  by (auto simp: idempotency_key_new_def key_ok_def split: pyval.splits if_splits)

section \<open>Status\<close>

datatype payment_status = PENDING | SUCCEEDED | FAILED

fun status_value :: "payment_status \<Rightarrow> string" where
  "status_value PENDING = ''pending''"
| "status_value SUCCEEDED = ''succeeded''"
| "status_value FAILED = ''failed''"

text \<open>\<open>PaymentStatus(text)\<close>.\<close>

definition status_of_value :: "string \<Rightarrow> payment_status option" where
  "status_of_value text = find (\<lambda>s. status_value s = text) [PENDING, SUCCEEDED, FAILED]"

fun transitions :: "payment_status \<Rightarrow> payment_status list" where
  "transitions PENDING = [SUCCEEDED, FAILED]"
| "transitions SUCCEEDED = []"
| "transitions FAILED = []"

definition terminal :: "payment_status \<Rightarrow> bool" where
  "terminal s \<longleftrightarrow> s \<in> set [SUCCEEDED, FAILED]"

definition can_move_to :: "payment_status \<Rightarrow> payment_status \<Rightarrow> bool" where
  "can_move_to s target \<longleftrightarrow> target \<in> set (transitions s)"

definition require_transition :: "payment_status \<Rightarrow> payment_status \<Rightarrow> exn + unit" where
  "require_transition s target =
     (if can_move_to s target then Inr ()
      else Inl (IllegalStatusTransitionError (status_value s) (status_value target)))"

lemma status_of_value_value [simp]: "status_of_value (status_value s) = Some s"
  by (cases s) (simp_all add: status_of_value_def)

lemma terminal_simps [simp]: "\<not> terminal PENDING" "terminal SUCCEEDED" "terminal FAILED"
  by (simp_all add: terminal_def)

lemma not_terminal: "\<not> terminal s \<longleftrightarrow> s = PENDING"
  by (cases s) simp_all

lemma can_move_to_iff: "can_move_to s t \<longleftrightarrow> s = PENDING \<and> terminal t"
  by (cases s; cases t) (simp_all add: can_move_to_def)

section \<open>The aggregate\<close>

record payment =
  p_id :: uuid
  p_money :: money
  p_description :: string
  p_metadata :: pydict
  p_status :: payment_status
  p_key :: string
  p_webhook_url :: string
  p_created_at :: time
  p_processed_at :: "time option"

text \<open>\<open>Payment.create\<close> and \<open>Payment.reconstitute\<close>.\<close>

definition payment_create ::
    "uuid \<Rightarrow> money \<Rightarrow> string \<Rightarrow> pydict \<Rightarrow> string \<Rightarrow> string \<Rightarrow> time \<Rightarrow> payment" where
  "payment_create i m desc meta k url created =
     \<lparr>p_id = i, p_money = m, p_description = desc, p_metadata = meta, p_status = PENDING,
      p_key = k, p_webhook_url = url, p_created_at = created, p_processed_at = None\<rparr>"

definition payment_reconstitute ::
    "uuid \<Rightarrow> money \<Rightarrow> string \<Rightarrow> pydict \<Rightarrow> payment_status \<Rightarrow> string \<Rightarrow> string \<Rightarrow> time \<Rightarrow> time option \<Rightarrow> payment"
  where
  "payment_reconstitute i m desc meta st k url created processed =
     \<lparr>p_id = i, p_money = m, p_description = desc, p_metadata = meta, p_status = st,
      p_key = k, p_webhook_url = url, p_created_at = created, p_processed_at = processed\<rparr>"

definition is_terminal :: "payment \<Rightarrow> bool" where
  "is_terminal p \<longleftrightarrow> terminal (p_status p)"

text \<open>\<open>Payment._complete\<close>, and \<open>succeed\<close> and \<open>fail\<close> that call it.\<close>

definition payment_complete :: "payment_status \<Rightarrow> time \<Rightarrow> payment \<Rightarrow> exn + payment" where
  "payment_complete status processed_at p =
     (if terminal (p_status p) then Inr p
      else bind_exn (require_transition (p_status p) status)
             (\<lambda>_. Inr (p\<lparr>p_status := status, p_processed_at := Some processed_at\<rparr>)))"

definition payment_succeed :: "time \<Rightarrow> payment \<Rightarrow> exn + payment" where
  "payment_succeed processed_at p = payment_complete SUCCEEDED processed_at p"

definition payment_fail :: "time \<Rightarrow> payment \<Rightarrow> exn + payment" where
  "payment_fail processed_at p = payment_complete FAILED processed_at p"

section \<open>Facts\<close>

text \<open>The class invariant: an accepted amount, an accepted key, and a processing time exactly when
  the payment is terminal.\<close>

definition payment_ok :: "payment \<Rightarrow> bool" where
  "payment_ok p \<longleftrightarrow>
     money_ok (p_money p) \<and> key_ok (p_key p) \<and>
     (terminal (p_status p) \<longleftrightarrow> p_processed_at p \<noteq> None)"

lemma payment_complete_terminal:
  "is_terminal p \<Longrightarrow> payment_complete st t p = Inr p"
  by (simp add: payment_complete_def is_terminal_def)

lemma payment_complete_pending:
  "\<not> is_terminal p \<Longrightarrow> terminal st \<Longrightarrow>
   payment_complete st t p = Inr (p\<lparr>p_status := st, p_processed_at := Some t\<rparr>)"
  by (simp add: payment_complete_def is_terminal_def not_terminal require_transition_def
      can_move_to_iff)

lemma payment_complete_total:
  "terminal st \<Longrightarrow> \<exists>q. payment_complete st t p = Inr q \<and> is_terminal q"
  by (cases "is_terminal p")
    (auto simp: payment_complete_terminal payment_complete_pending, simp add: is_terminal_def)

lemma payment_complete_ok:
  "payment_ok p \<Longrightarrow> payment_complete st t p = Inr q \<Longrightarrow> payment_ok q"
  by (auto simp: payment_complete_def payment_ok_def require_transition_def can_move_to_iff
      bind_exn_Inr_iff split: if_splits)

text \<open>A sequence of calls of \<open>succeed\<close> and \<open>fail\<close> on one payment.\<close>

fun complete_all :: "payment \<Rightarrow> (bool \<times> time) list \<Rightarrow> exn + payment" where
  "complete_all p [] = Inr p"
| "complete_all p ((ok, t) # calls) =
     bind_exn (if ok then payment_succeed t p else payment_fail t p) (\<lambda>q. complete_all q calls)"

lemma complete_all_terminal: "is_terminal p \<Longrightarrow> complete_all p calls = Inr p"
  by (induction calls)
    (auto simp: payment_succeed_def payment_fail_def payment_complete_terminal)

section \<open>Properties\<close>

text \<open>C12: The first completion of a created payment decides: whatever \<open>succeed\<close> and \<open>fail\<close> calls
  follow it, none raises, the status and the processing time stay those of the first call, and no other
  field has changed.\<close>

theorem first_completion_wins:
  "complete_all (payment_create i m desc meta k url created) ((ok, t) # calls) =
     Inr (payment_reconstitute i m desc meta (if ok then SUCCEEDED else FAILED) k url created (Some t))"
proof -
  let ?p = "payment_create i m desc meta k url created"
  let ?q = "payment_reconstitute i m desc meta (if ok then SUCCEEDED else FAILED) k url created (Some t)"
  have "\<not> is_terminal ?p" and final: "is_terminal ?q"
    by (simp_all add: is_terminal_def payment_create_def payment_reconstitute_def)
  then have "(if ok then payment_succeed t ?p else payment_fail t ?p) = Inr ?q"
    by (simp add: payment_succeed_def payment_fail_def payment_complete_pending payment_create_def
        payment_reconstitute_def)
  then show ?thesis by (simp add: complete_all_terminal [OF final])
qed

text \<open>The status machine: a transition is allowed exactly from \<open>pending\<close> to a terminal status;
  any other raises \<open>IllegalStatusTransitionError\<close> with the two status values, in order.\<close>

lemma transitions_only_from_pending:
  "require_transition s t =
     (if s = PENDING \<and> t \<noteq> PENDING then Inr ()
      else Inl (IllegalStatusTransitionError (status_value s) (status_value t)))"
  by (cases s; cases t) (simp_all add: require_transition_def can_move_to_def)

end
