(* ===== verification/PyTime.thy ===== *)
theory PyTime
  imports PyText
begin

text \<open>
  Moments and durations of the standard library. A moment is its number of microseconds since
  1970-01-01 00:00 UTC, a duration (\<open>timedelta\<close>) a number of microseconds; floats are exact rationals.
\<close>

text \<open>\<open>timedelta(seconds=q)\<close> rounds to whole microseconds, halves to the even one.\<close>

definition round_half_even :: "rat \<Rightarrow> int" where
  "round_half_even q =
     (let f = \<lfloor>q\<rfloor>; d = q - of_int f
      in if d < 1 / 2 then f else if 1 / 2 < d then f + 1 else if even f then f else f + 1)"

definition seconds :: "rat \<Rightarrow> int" where
  "seconds q = round_half_even (q * 1000000)"

definition days :: "int \<Rightarrow> int" where
  "days n = n * 86400000000"

text \<open>\<open>delta.total_seconds()\<close>.\<close>

definition total_seconds :: "int \<Rightarrow> rat" where
  "total_seconds d = of_int d / 1000000"

text \<open>The proleptic Gregorian date of a day number, and \<open>datetime.isoformat()\<close> in UTC.\<close>

definition civil_from_days :: "int \<Rightarrow> int \<times> int \<times> int" where
  "civil_from_days n =
     (let z = n + 719468;
          era = z div 146097;
          doe = z - era * 146097;
          yoe = (doe - doe div 1460 + doe div 36524 - doe div 146096) div 365;
          doy = doe - (365 * yoe + yoe div 4 - yoe div 100);
          mp = (5 * doy + 2) div 153;
          d = doy - (153 * mp + 2) div 5 + 1;
          m = (if mp < 10 then mp + 3 else mp - 9);
          y = yoe + era * 400
      in (if m \<le> 2 then y + 1 else y, m, d))"

definition pad :: "nat \<Rightarrow> int \<Rightarrow> string" where
  "pad k i = (let s = show_int i in replicate (k - length s) (CHR ''0'') @ s)"

definition isoformat :: "time \<Rightarrow> string" where
  "isoformat t =
     (let (y, m, d) = civil_from_days (t div 86400000000);
          us = t mod 86400000000;
          sec = us div 1000000; frac = us mod 1000000
      in pad 4 y @ ''-'' @ pad 2 m @ ''-'' @ pad 2 d @ ''T''
         @ pad 2 (sec div 3600) @ '':'' @ pad 2 (sec div 60 mod 60) @ '':'' @ pad 2 (sec mod 60)
         @ (if frac = 0 then [] else ''.'' @ pad 6 frac) @ ''+00:00'')"

lemma isoformat_epoch: "isoformat 0 = ''1970-01-01T00:00:00+00:00''"
  by code_simp

lemma civil_leap_day: "civil_from_days 19782 = (2024, 2, 29)"
  by code_simp

lemma round_half_even_error:
  "of_int (round_half_even q) - q \<le> 1 / 2" and "q - of_int (round_half_even q) \<le> 1 / 2"
  using of_int_floor_le [of q] floor_correct [of q] unfolding round_half_even_def Let_def
  by (simp_all split: if_splits, linarith+)

lemma round_half_even_of_int [simp]: "round_half_even (of_int i) = i"
  by (simp add: round_half_even_def)

lemma round_half_even_mono: "q \<le> r \<Longrightarrow> round_half_even q \<le> round_half_even r"
proof -
  assume le: "q \<le> r"
  show ?thesis
  proof (cases "\<lfloor>q\<rfloor> = \<lfloor>r\<rfloor>")
    case True
    with le show ?thesis by (simp add: round_half_even_def Let_def)
  next
    case False
    with le have "\<lfloor>q\<rfloor> + 1 \<le> \<lfloor>r\<rfloor>" using floor_mono [of q r] by simp
    then show ?thesis by (auto simp: round_half_even_def Let_def)
  qed
qed

lemma seconds_of_int [simp]: "seconds (of_int i) = i * 1000000"
  using round_half_even_of_int [of "i * 1000000"] by (simp add: seconds_def)

lemma seconds_mono: "q \<le> r \<Longrightarrow> seconds q \<le> seconds r"
  by (simp add: seconds_def round_half_even_mono)

lemma seconds_nonneg: "0 \<le> q \<Longrightarrow> 0 \<le> seconds q"
  using seconds_mono [of 0 q] seconds_of_int [of 0] by simp

end
