(* ===== verification/Codec.thy ===== *)
theory Codec
  imports Payment PyTime
begin

text \<open>
  \<open>src/application/records.py\<close>, \<open>outbox/codec.py\<close>, \<open>outbox/routing.py\<close> and \<open>payments/events.py\<close>: the
  records the ports exchange, and the event an outbox record becomes on the wire. The lemmas show
  that the consumer reads back from an event what the producer put in.
\<close>

section \<open>Records\<close>

datatype outbox_status = NEW | PROCESSING | PROCESSED | OUTBOX_FAILED

fun outbox_status_value :: "outbox_status \<Rightarrow> string" where
  "outbox_status_value NEW = ''NEW''"
| "outbox_status_value PROCESSING = ''PROCESSING''"
| "outbox_status_value PROCESSED = ''PROCESSED''"
| "outbox_status_value OUTBOX_FAILED = ''FAILED''"

lemma outbox_status_value_inject [simp]: "outbox_status_value s = outbox_status_value t \<longleftrightarrow> s = t"
  by (cases s; cases t) simp_all

record outbox_record =
  r_id :: uuid
  r_event_type :: string
  r_payload :: pydict
  r_created_at :: time
  r_status :: outbox_status
  r_retry_count :: int
  r_published_at :: "time option"
  r_claimed_at :: "time option"
  r_available_at :: "time option"

datatype gateway_result = GatewayResult (is_successful: bool)

section \<open>Names\<close>

definition NEW_ROUTING_KEY :: string where "NEW_ROUTING_KEY = ''payments.new''"
definition RETRY_ROUTING_KEY :: string where "RETRY_ROUTING_KEY = ''payments.new.retry''"
definition DLQ_ROUTING_KEY :: string where "DLQ_ROUTING_KEY = ''payments.new.dlq''"

definition PAYMENT_CREATED :: string where "PAYMENT_CREATED = ''PaymentCreated''"

definition EVENT_VERSION :: int where "EVENT_VERSION = 1"
definition OUTBOX_ID_HEADER :: string where "OUTBOX_ID_HEADER = ''x-outbox-id''"
definition EVENT_TYPE_HEADER :: string where "EVENT_TYPE_HEADER = ''x-event-type''"

section \<open>OutboxEventCodec\<close>

text \<open>
  \<open>encode\<close>: the body, the headers, and the bytes of the body, which are ASCII, so that the text
  \<open>json.dumps\<close> returns is its own UTF-8 encoding. A payload that is not JSON raises \<open>TypeError\<close>.
\<close>

definition event_body :: "uuid \<Rightarrow> string \<Rightarrow> pydict \<Rightarrow> pydict" where
  "event_body i event_type payload =
     [(''outbox_id'', PStr (uuid_str i)),
      (''event_type'', PStr event_type),
      (''event_version'', PInt EVENT_VERSION),
      (''payload'', PDict payload)]"

definition event_headers :: "uuid \<Rightarrow> string \<Rightarrow> pydict" where
  "event_headers i event_type =
     [(OUTBOX_ID_HEADER, PStr (uuid_str i)), (EVENT_TYPE_HEADER, PStr event_type)]"

definition codec_encode :: "pyrt \<Rightarrow> outbox_record \<Rightarrow> exn + string \<times> pydict" where
  "codec_encode rt record =
     (case json_dumps rt (PDict (event_body (r_id record) (r_event_type record) (r_payload record))) of
        None \<Rightarrow> Inl (TypeError ''Object of type bytes is not JSON serializable'')
      | Some body \<Rightarrow> Inr (body, event_headers (r_id record) (r_event_type record)))"

definition to_text :: "pyrt \<Rightarrow> pyval \<Rightarrow> string option" where
  "to_text rt raw =
     (if raw = PNone then None
      else let raw' = (case raw of PBytes b \<Rightarrow> PStr (decode_utf8 rt b) | _ \<Rightarrow> raw);
               text = strip (py_str rt raw')
           in if text = [] then None else Some text)"

definition extract_payment_id :: "pyrt \<Rightarrow> pydict \<Rightarrow> string option" where
  "extract_payment_id rt body =
     (case dict_get body ''payload'' of
        PDict payload \<Rightarrow>
          if dict_get payload ''payment_id'' \<noteq> PNone
          then to_text rt (dict_get payload ''payment_id'')
          else to_text rt (dict_get body ''payment_id'')
      | _ \<Rightarrow> to_text rt (dict_get body ''payment_id''))"

definition extract_outbox_id :: "pyrt \<Rightarrow> pydict \<Rightarrow> pydict option \<Rightarrow> uuid option" where
  "extract_outbox_id rt body headers =
     (let raw = dict_get body ''outbox_id'';
          raw' = (if raw = PNone then (case headers of None \<Rightarrow> raw | Some h \<Rightarrow> dict_get h OUTBOX_ID_HEADER)
                  else raw)
      in case to_text rt raw' of None \<Rightarrow> None | Some text \<Rightarrow> parse_uuid text)"

section \<open>Facts\<close>

lemma to_text_uuid [simp]: "to_text rt (PStr (uuid_str u)) = Some (uuid_str u)"
  by (simp add: to_text_def)

lemma to_text_uuid_bytes [simp]: "to_text rt (PBytes (uuid_str u)) = Some (uuid_str u)"
  by (simp add: to_text_def decode_utf8_def is_ascii_uuid_str)

lemma to_text_stripped: "to_text rt v = Some t \<Longrightarrow> t \<noteq> []"
  by (auto simp: to_text_def Let_def split: if_splits)

lemma extract_outbox_id_event [simp]:
  "extract_outbox_id rt (event_body i ty payload) h = Some i"
  by (simp add: extract_outbox_id_def event_body_def dict_get_def parse_uuid_str)

lemma extract_payment_id_event:
  "dict_get payload ''payment_id'' = PStr (uuid_str u) \<Longrightarrow>
   extract_payment_id rt (event_body i ty payload) = Some (uuid_str u)"
  by (simp add: extract_payment_id_def event_body_def dict_get_def)

text \<open>The payload the service itself writes is always JSON.\<close>

definition payment_created_payload :: "uuid \<Rightarrow> pydict" where
  "payment_created_payload i = [(''payment_id'', PStr (uuid_str i))]"

lemma codec_encode_total:
  "is_json (PDict (r_payload r)) \<Longrightarrow> \<exists>body. codec_encode rt r = Inr (body, event_headers (r_id r) (r_event_type r))"
proof -
  assume "is_json (PDict (r_payload r))"
  then have "is_json (PDict (event_body (r_id r) (r_event_type r) (r_payload r)))"
    by (simp add: event_body_def)
  then obtain t where "json_dumps rt (PDict (event_body (r_id r) (r_event_type r) (r_payload r))) = Some t"
    using json_dumps_Some by blast
  then show ?thesis by (simp add: codec_encode_def del: json_dumps.simps)
qed

section \<open>Properties\<close>

text \<open>C15: The identifiers survive the wire: from the event of an outbox row the consumer recovers the
  outbox id and the payment id, whatever else the headers hold; when the body has lost the outbox id
  (here: a body with the payment id only), the header still gives it, as text or as bytes.\<close>

theorem event_identity_round_trip:
  "extract_outbox_id rt (event_body i ty (payment_created_payload p)) h = Some i \<and>
   extract_payment_id rt (event_body i ty (payment_created_payload p)) = Some (uuid_str p) \<and>
   parse_uuid (uuid_str p) = Some p \<and>
   extract_outbox_id rt (payment_created_payload p) (Some (event_headers i ty)) = Some i \<and>
   extract_outbox_id rt (payment_created_payload p) (Some [(OUTBOX_ID_HEADER, PBytes (uuid_str i))]) = Some i \<and>
   extract_payment_id rt (payment_created_payload p) = Some (uuid_str p)"
proof (intro conjI)
  show "extract_payment_id rt (event_body i ty (payment_created_payload p)) = Some (uuid_str p)"
    by (rule extract_payment_id_event) (simp add: payment_created_payload_def dict_get_def)
  show "extract_outbox_id rt (event_body i ty (payment_created_payload p)) h = Some i" by simp
qed (simp_all add: payment_created_payload_def dict_get_def parse_uuid_str extract_outbox_id_def
    event_headers_def extract_payment_id_def)

end
