(* ===== verification/Metrics.thy ===== *)
theory Metrics
  imports PyTime PyValue
begin

text \<open>
  \<open>src/infrastructure/observability/prometheus.py\<close>, \<open>metrics.py\<close> and \<open>src/application/outbox/metrics.py\<close>:
  the outbox metrics, the port through which the use case records them, its two implementations, and
  the text exposition.
\<close>

section \<open>State\<close>

record outbox_metrics_state =
  ms_published :: int
  ms_errors :: int
  ms_queue :: int
  ms_failed :: int
  ms_lag_seconds :: rat
  ms_duration_seconds :: rat

definition metrics_initial :: outbox_metrics_state where
  "metrics_initial = \<lparr>ms_published = 0, ms_errors = 0, ms_queue = 0, ms_failed = 0,
     ms_lag_seconds = 0, ms_duration_seconds = 0\<rparr>"

text \<open>The port \<open>OutboxMetrics\<close>, as the record of its operations.\<close>

record outbox_metrics =
  record_published :: "rat \<Rightarrow> outbox_metrics_state \<Rightarrow> outbox_metrics_state"
  record_error :: "outbox_metrics_state \<Rightarrow> outbox_metrics_state"
  set_queue_size :: "int \<Rightarrow> outbox_metrics_state \<Rightarrow> outbox_metrics_state"
  set_failed_count :: "int \<Rightarrow> outbox_metrics_state \<Rightarrow> outbox_metrics_state"
  observe_batch :: "rat \<Rightarrow> outbox_metrics_state \<Rightarrow> outbox_metrics_state"

definition null_outbox_metrics :: outbox_metrics where
  "null_outbox_metrics =
     \<lparr>record_published = (\<lambda>lag_seconds s. s), record_error = (\<lambda>s. s), set_queue_size = (\<lambda>count s. s),
      set_failed_count = (\<lambda>count s. s), observe_batch = (\<lambda>duration_seconds s. s)\<rparr>"

definition prometheus_record_published :: "rat \<Rightarrow> outbox_metrics_state \<Rightarrow> outbox_metrics_state" where
  "prometheus_record_published lag_seconds s =
     s\<lparr>ms_published := ms_published s + 1, ms_lag_seconds := lag_seconds\<rparr>"

definition prometheus_record_error :: "outbox_metrics_state \<Rightarrow> outbox_metrics_state" where
  "prometheus_record_error s = s\<lparr>ms_errors := ms_errors s + 1\<rparr>"

definition prometheus_set_queue_size :: "int \<Rightarrow> outbox_metrics_state \<Rightarrow> outbox_metrics_state" where
  "prometheus_set_queue_size count s = s\<lparr>ms_queue := count\<rparr>"

definition prometheus_set_failed_count :: "int \<Rightarrow> outbox_metrics_state \<Rightarrow> outbox_metrics_state" where
  "prometheus_set_failed_count count s = s\<lparr>ms_failed := count\<rparr>"

definition prometheus_observe_batch :: "rat \<Rightarrow> outbox_metrics_state \<Rightarrow> outbox_metrics_state" where
  "prometheus_observe_batch duration_seconds s = s\<lparr>ms_duration_seconds := duration_seconds\<rparr>"

definition prometheus_outbox_metrics :: outbox_metrics where
  "prometheus_outbox_metrics =
     \<lparr>record_published = prometheus_record_published, record_error = prometheus_record_error,
      set_queue_size = prometheus_set_queue_size, set_failed_count = prometheus_set_failed_count,
      observe_batch = prometheus_observe_batch\<rparr>"

section \<open>PrometheusTextRenderer\<close>

text \<open>
  \<open>render\<close>: the counters and gauges are integers; the two durations are floats, printed by the
  runtime. A line feed separates the lines and ends the text.
\<close>

definition newline :: string where "newline = [char_of (10 :: nat)]"

definition metric_lines :: "pyrt \<Rightarrow> outbox_metrics_state \<Rightarrow> string list" where
  "metric_lines rt s =
     [''# HELP outbox_queue_size Pending outbox rows (NEW + PROCESSING).'',
      ''# TYPE outbox_queue_size gauge'',
      ''outbox_queue_size '' @ show_int (ms_queue s),
      ''# HELP outbox_failed Outbox rows that exhausted publish retries.'',
      ''# TYPE outbox_failed gauge'',
      ''outbox_failed '' @ show_int (ms_failed s),
      ''# HELP outbox_publish_errors_total Outbox publish failures.'',
      ''# TYPE outbox_publish_errors_total counter'',
      ''outbox_publish_errors_total '' @ show_int (ms_errors s),
      ''# HELP outbox_published_total Successfully published outbox rows.'',
      ''# TYPE outbox_published_total counter'',
      ''outbox_published_total '' @ show_int (ms_published s),
      ''# HELP outbox_lag_seconds Age of the last published outbox row.'',
      ''# TYPE outbox_lag_seconds gauge'',
      ''outbox_lag_seconds '' @ float_repr rt (Finite (ms_lag_seconds s)),
      ''# HELP outbox_processing_duration_seconds Last batch duration.'',
      ''# TYPE outbox_processing_duration_seconds gauge'',
      ''outbox_processing_duration_seconds '' @ float_repr rt (Finite (ms_duration_seconds s)),
      []]"

definition render_metrics :: "pyrt \<Rightarrow> outbox_metrics_state \<Rightarrow> string" where
  "render_metrics rt s = join newline (metric_lines rt s)"

section \<open>Facts\<close>

text \<open>What the counters tell, whichever implementation is in use, depends on nothing but the calls.\<close>

lemma null_metrics_id [simp]:
  "record_published null_outbox_metrics q s = s" "record_error null_outbox_metrics s = s"
  "set_queue_size null_outbox_metrics n s = s" "set_failed_count null_outbox_metrics n s = s"
  "observe_batch null_outbox_metrics q s = s"
  by (simp_all add: null_outbox_metrics_def)

lemma prometheus_simps [simp]:
  "record_published prometheus_outbox_metrics = prometheus_record_published"
  "record_error prometheus_outbox_metrics = prometheus_record_error"
  "set_queue_size prometheus_outbox_metrics = prometheus_set_queue_size"
  "set_failed_count prometheus_outbox_metrics = prometheus_set_failed_count"
  "observe_batch prometheus_outbox_metrics = prometheus_observe_batch"
  by (simp_all add: prometheus_outbox_metrics_def)

end
