(* ===== verification/Store.thy ===== *)
theory Store
  imports Codec Metrics
begin

text \<open>
  The tables of \<open>src/infrastructure/persistence/models\<close>, the world the service acts on (database, broker,
  called webhooks, metrics) and its unit of work, \<open>src/infrastructure/persistence/uow.py\<close>.

  What the world answers is an oracle, the record \<open>env\<close>: every effect draws the next tick and looks up
  what the clock, the generator of UUIDs, the database, the broker or the called server does at that tick.
  So any statement may fail, a commit may fail after it took effect, a publication may fail after the
  broker has the message. Other processes of the service change the database and the broker between two
  units of work, by \<open>e_others\<close>; the statements of one unit of work are taken as one step, as the row locks
  and unique indexes make them appear (\<open>READ COMMITTED\<close>, \<open>FOR UPDATE\<close>).
\<close>

section \<open>Tables\<close>

text \<open>\<open>NUMERIC(12, 2)\<close> is kept as a number of cents; \<open>JSONB\<close> as the dictionary read back from it.\<close>

record payment_row =
  pr_id :: uuid
  pr_amount :: int
  pr_currency :: string
  pr_description :: string
  pr_extra :: pydict
  pr_status :: string
  pr_key :: string
  pr_webhook_url :: string
  pr_created_at :: time
  pr_processed_at :: "time option"

record outbox_row =
  ow_id :: uuid
  ow_event_type :: string
  ow_payload :: pydict
  ow_created_at :: time
  ow_published_at :: "time option"
  ow_status :: string
  ow_retry_count :: int
  ow_claimed_at :: "time option"
  ow_available_at :: "time option"

record inbox_row =
  ib_message_id :: uuid
  ib_processed_at :: time

record charge_row =
  ch_payment_id :: uuid
  ch_succeeded :: bool
  ch_created_at :: time

record tables =
  t_payments :: "payment_row list"
  t_outbox :: "outbox_row list"
  t_inbox :: "inbox_row list"
  t_charges :: "charge_row list"

definition find_payment :: "tables \<Rightarrow> uuid \<Rightarrow> payment_row option" where
  "find_payment v i = find (\<lambda>r. pr_id r = i) (t_payments v)"

definition find_outbox :: "tables \<Rightarrow> uuid \<Rightarrow> outbox_row option" where
  "find_outbox v i = find (\<lambda>r. ow_id r = i) (t_outbox v)"

definition find_inbox :: "tables \<Rightarrow> uuid \<Rightarrow> inbox_row option" where
  "find_inbox v i = find (\<lambda>r. ib_message_id r = i) (t_inbox v)"

definition find_charge :: "tables \<Rightarrow> uuid \<Rightarrow> charge_row option" where
  "find_charge v i = find (\<lambda>r. ch_payment_id r = i) (t_charges v)"

subsection \<open>A table with a primary key\<close>

text \<open>
  What the repositories rely on: a look-up by primary key over the rows of a table, through the
  insertion of a row, an update and a deletion.
\<close>

locale keyed_table =
  fixes rows :: "tables \<Rightarrow> 'r list" and set_rows :: "'r list \<Rightarrow> tables \<Rightarrow> tables"
    and key :: "'r \<Rightarrow> uuid" and lookup :: "tables \<Rightarrow> uuid \<Rightarrow> 'r option"
  assumes rows_set: "rows (set_rows xs v) = xs"
    and lookup_find: "lookup v i = find (\<lambda>r. key r = i) (rows v)"
begin

definition unique :: "tables \<Rightarrow> bool" where
  "unique v \<longleftrightarrow> distinct (map key (rows v))"

lemma lookup_key: "lookup v i = Some r \<Longrightarrow> key r = i \<and> r \<in> set (rows v)"
  using find_Some_iff_set by (fastforce simp: lookup_find)

lemma lookup_None: "lookup v i = None \<longleftrightarrow> i \<notin> key ` set (rows v)"
  by (auto simp: lookup_find find_None_set)

lemma lookup_in: "unique v \<Longrightarrow> r \<in> set (rows v) \<Longrightarrow> lookup v (key r) = Some r"
proof -
  assume u: "unique v" and r: "r \<in> set (rows v)"
  then obtain r' where "lookup v (key r) = Some r'"
    using lookup_None [of v "key r"] by (cases "lookup v (key r)") auto
  moreover from this have "key r' = key r" "r' \<in> set (rows v)" using lookup_key by blast+
  ultimately show ?thesis
    using u r by (auto simp: unique_def distinct_map dest: inj_onD)
qed

lemma lookup_append:
  "lookup (set_rows (rows v @ [r]) v) i =
     (case lookup v i of Some x \<Rightarrow> Some x | None \<Rightarrow> if key r = i then Some r else None)"
proof -
  have "find P (xs @ [r]) = (case find P xs of Some x \<Rightarrow> Some x | None \<Rightarrow> if P r then Some r else None)"
    for P :: "'r \<Rightarrow> bool" and xs
    by (induction xs) auto
  then show ?thesis by (simp add: lookup_find rows_set)
qed

lemma unique_append: "unique v \<Longrightarrow> lookup v (key r) = None \<Longrightarrow> unique (set_rows (rows v @ [r]) v)"
  by (auto simp: unique_def rows_set lookup_None)

lemma lookup_map:
  assumes "\<And>r. key (f r) = key r"
  shows "lookup (set_rows (map f (rows v)) v) i = map_option f (lookup v i)"
proof -
  have "find (\<lambda>r. key r = i) (map f xs) = map_option f (find (\<lambda>r. key r = i) xs)" for xs
    by (induction xs) (auto simp: assms)
  then show ?thesis by (simp add: lookup_find rows_set)
qed

lemma unique_map: "(\<And>r. key (f r) = key r) \<Longrightarrow> unique v \<Longrightarrow> unique (set_rows (map f (rows v)) v)"
  by (simp add: unique_def rows_set comp_def)

lemma unique_filter: "unique v \<Longrightarrow> unique (set_rows (filter P (rows v)) v)"
  by (simp add: unique_def rows_set distinct_map_filter)

lemma lookup_filter:
  assumes "unique v"
  shows "lookup (set_rows (filter P (rows v)) v) i =
    (case lookup v i of Some r \<Rightarrow> if P r then Some r else None | None \<Rightarrow> None)"
proof (cases "lookup (set_rows (filter P (rows v)) v) i")
  case None
  then show ?thesis
    using lookup_key [of v i]
    by (auto simp: lookup_None rows_set split: option.splits)
next
  case (Some r)
  then have r: "key r = i" "r \<in> set (rows v)" "P r"
    using lookup_key [of "set_rows (filter P (rows v)) v" i r] by (auto simp: rows_set)
  then have "lookup v i = Some r" using lookup_in [OF assms] by blast
  with Some r show ?thesis by simp
qed

end

interpretation payments: keyed_table t_payments "\<lambda>xs v. v\<lparr>t_payments := xs\<rparr>" pr_id find_payment
  by unfold_locales (simp_all add: find_payment_def)

interpretation outbox: keyed_table t_outbox "\<lambda>xs v. v\<lparr>t_outbox := xs\<rparr>" ow_id find_outbox
  by unfold_locales (simp_all add: find_outbox_def)

interpretation inbox: keyed_table t_inbox "\<lambda>xs v. v\<lparr>t_inbox := xs\<rparr>" ib_message_id find_inbox
  by unfold_locales (simp_all add: find_inbox_def)

interpretation charges: keyed_table t_charges "\<lambda>xs v. v\<lparr>t_charges := xs\<rparr>" ch_payment_id find_charge
  by unfold_locales (simp_all add: find_charge_def)

lemma find_other_table [simp]:
  "find_payment (v\<lparr>t_outbox := xs\<rparr>) i = find_payment v i"
  "find_payment (v\<lparr>t_inbox := ys\<rparr>) i = find_payment v i"
  "find_payment (v\<lparr>t_charges := zs\<rparr>) i = find_payment v i"
  "find_outbox (v\<lparr>t_payments := ps\<rparr>) i = find_outbox v i"
  "find_outbox (v\<lparr>t_inbox := ys\<rparr>) i = find_outbox v i"
  "find_outbox (v\<lparr>t_charges := zs\<rparr>) i = find_outbox v i"
  "find_inbox (v\<lparr>t_payments := ps\<rparr>) i = find_inbox v i"
  "find_inbox (v\<lparr>t_outbox := xs\<rparr>) i = find_inbox v i"
  "find_inbox (v\<lparr>t_charges := zs\<rparr>) i = find_inbox v i"
  "find_charge (v\<lparr>t_payments := ps\<rparr>) i = find_charge v i"
  "find_charge (v\<lparr>t_outbox := xs\<rparr>) i = find_charge v i"
  "find_charge (v\<lparr>t_inbox := ys\<rparr>) i = find_charge v i"
  by (simp_all add: find_payment_def find_outbox_def find_inbox_def find_charge_def)

text \<open>\<open>UPDATE ... WHERE\<close>: every row that satisfies the condition is changed.\<close>

definition update_rows :: "('r \<Rightarrow> bool) \<Rightarrow> ('r \<Rightarrow> 'r) \<Rightarrow> 'r list \<Rightarrow> 'r list" where
  "update_rows P f rs = map (\<lambda>r. if P r then f r else r) rs"

section \<open>The world\<close>

text \<open>A message as the broker has it, a call of a webhook, and what became of a delivery.\<close>

record message =
  m_exchange :: string
  m_routing_key :: string
  m_body :: string
  m_headers :: "pydict option"
  m_expiration :: "int option"
  m_persist :: bool
  m_content_type :: string

record post =
  po_url :: string
  po_payload :: pydict
  po_headers :: "(string \<times> string) list"

datatype post_outcome = Timed_out | Transport_failed | Post_raised exn | Responded int

datatype settlement = Ack | Reject bool

text \<open>
  A session: the tables as its transaction sees them, and the objects added to it that no flush has
  written yet.
\<close>

record uow_session =
  s_view :: tables
  s_new :: "outbox_row list"

record world =
  w_db :: tables
  w_session :: "uow_session option"
  w_sent :: "message list"
  w_posts :: "post list"
  w_metrics :: outbox_metrics_state
  w_settled :: "settlement list"
  w_tick :: nat

record env =
  e_now :: "nat \<Rightarrow> time"
  e_uuid :: "nat \<Rightarrow> uuid"
  e_random :: "nat \<Rightarrow> rat"
  e_perf :: "nat \<Rightarrow> rat"
  e_sql :: "nat \<Rightarrow> exn option"
  e_commit :: "nat \<Rightarrow> (bool \<times> exn) option"
  e_publish :: "nat \<Rightarrow> (bool \<times> exn) option"
  e_post :: "nat \<Rightarrow> post_outcome"
  e_sleep :: "nat \<Rightarrow> exn option"
  e_ack :: "nat \<Rightarrow> (bool \<times> exn) option"
  e_others :: "nat \<Rightarrow> tables \<times> message list \<Rightarrow> tables \<times> message list"
  e_scan :: "nat \<Rightarrow> outbox_row list \<Rightarrow> outbox_row list"
  e_locked :: "nat \<Rightarrow> uuid \<Rightarrow> bool"
  e_jsonb :: "pydict \<Rightarrow> exn + pydict"
  e_driver_text :: "string \<Rightarrow> string"
  e_rt :: pyrt

type_synonym 'a action = "(world, 'a) prog"

definition observe :: "(nat \<Rightarrow> 'a) \<Rightarrow> 'a action" where
  "observe f w = (Inr (f (w_tick w)), w\<lparr>w_tick := w_tick w + 1\<rparr>)"

definition may_fail :: "(nat \<Rightarrow> exn option) \<Rightarrow> unit action" where
  "may_fail f = andthen (observe f) (\<lambda>fault. case fault of None \<Rightarrow> ret () | Some e \<Rightarrow> raise e)"

text \<open>\<open>clock.now()\<close>, \<open>uuid4()\<close>, \<open>random.random()\<close>, \<open>time.perf_counter()\<close>; one statement sent to the database.\<close>

definition clock_now :: "env \<Rightarrow> time action" where "clock_now env = observe (e_now env)"
definition uuid4 :: "env \<Rightarrow> uuid action" where "uuid4 env = observe (e_uuid env)"
definition random_random :: "env \<Rightarrow> rat action" where "random_random env = observe (e_random env)"
definition perf_counter :: "env \<Rightarrow> rat action" where "perf_counter env = observe (e_perf env)"
definition statement :: "env \<Rightarrow> unit action" where "statement env = may_fail (e_sql env)"

section \<open>Sessions\<close>

text \<open>
  \<open>run_sql\<close> applies a query or an update to the tables as the transaction sees them; without a session
  the repository does not exist.
\<close>

definition run_sql :: "(tables \<Rightarrow> (exn + 'a) \<times> tables) \<Rightarrow> 'a action" where
  "run_sql f w =
     (case w_session w of
        None \<Rightarrow> (Inl (ForeignError ''AttributeError''), w)
      | Some s \<Rightarrow>
          (case f (s_view s) of (r, v) \<Rightarrow> (r, w\<lparr>w_session := Some (s\<lparr>s_view := v\<rparr>)\<rparr>)))"

definition query :: "env \<Rightarrow> (tables \<Rightarrow> exn + 'a) \<Rightarrow> 'a action" where
  "query env f = andthen (statement env) (\<lambda>_. run_sql (\<lambda>v. (f v, v)))"

definition update :: "env \<Rightarrow> (tables \<Rightarrow> tables) \<Rightarrow> unit action" where
  "update env f = andthen (statement env) (\<lambda>_. run_sql (\<lambda>v. (Inr (), f v)))"

text \<open>The text of PostgreSQL cannot hold a NUL; a \<open>VARCHAR(n)\<close> holds at most \<open>n\<close> characters.\<close>

definition text_fits :: "nat option \<Rightarrow> string \<Rightarrow> bool" where
  "text_fits n s \<longleftrightarrow>
     list_all (\<lambda>c. code c \<noteq> 0) s \<and> (case n of None \<Rightarrow> True | Some k \<Rightarrow> length s \<le> k)"

text \<open>
  The driver's \<open>IntegrityError\<close> has no constraint name of its own; its text names the constraint, as far
  as \<open>e_driver_text\<close> says.
\<close>

definition unique_violation :: "env \<Rightarrow> string \<Rightarrow> exn" where
  "unique_violation env constraint = IntegrityError None (e_driver_text env constraint)"

definition insert_outbox_row :: "env \<Rightarrow> outbox_row \<Rightarrow> tables \<Rightarrow> exn + tables" where
  "insert_outbox_row env r v =
     bind_exn (e_jsonb env (ow_payload r)) (\<lambda>payload.
       if \<not> (text_fits (Some 64) (ow_event_type r) \<and> text_fits (Some 16) (ow_status r))
       then Inl (DataError ''value out of range'')
       else if find_outbox v (ow_id r) \<noteq> None then Inl (unique_violation env ''outbox_pkey'')
       else Inr (v\<lparr>t_outbox := t_outbox v @ [r\<lparr>ow_payload := payload\<rparr>]\<rparr>))"

fun insert_outbox_rows :: "env \<Rightarrow> outbox_row list \<Rightarrow> tables \<Rightarrow> exn + tables" where
  "insert_outbox_rows env [] v = Inr v"
| "insert_outbox_rows env (r # rs) v = bind_exn (insert_outbox_row env r v) (insert_outbox_rows env rs)"

text \<open>\<open>session.flush()\<close>: the pending objects are inserted.\<close>

definition flush_rows :: "env \<Rightarrow> unit action" where
  "flush_rows env w =
     (case w_session w of
        None \<Rightarrow> (Inl (ForeignError ''AttributeError''), w)
      | Some s \<Rightarrow>
          (case insert_outbox_rows env (s_new s) (s_view s) of
             Inl e \<Rightarrow> (Inl e, w)
           | Inr v \<Rightarrow> (Inr (), w\<lparr>w_session := Some \<lparr>s_view = v, s_new = []\<rparr>\<rparr>)))"

definition flush :: "env \<Rightarrow> unit action" where
  "flush env = andthen (statement env) (\<lambda>_. flush_rows env)"

text \<open>The commit of a transaction takes effect, fails, or takes effect and fails all the same.\<close>

definition apply_transaction :: "world \<Rightarrow> world" where
  "apply_transaction w =
     (case w_session w of None \<Rightarrow> w | Some s \<Rightarrow> w\<lparr>w_db := s_view s\<rparr>)"

definition commit_transaction :: "env \<Rightarrow> unit action" where
  "commit_transaction env =
     andthen (observe (e_commit env)) (\<lambda>outcome.
       case outcome of
         None \<Rightarrow> modifies apply_transaction
       | Some (applied, e) \<Rightarrow>
           andthen (if applied then modifies apply_transaction else ret ()) (\<lambda>_. raise e))"

definition abandon_changes :: "world \<Rightarrow> world" where
  "abandon_changes w = w\<lparr>w_session := map_option (\<lambda>_. \<lparr>s_view = w_db w, s_new = []\<rparr>) (w_session w)\<rparr>"

section \<open>SqlAlchemyUnitOfWork\<close>

definition require_session :: "unit action" where
  "require_session w =
     (if w_session w = None then (Inl (RuntimeError ''unit of work is not active''), w) else (Inr (), w))"

text \<open>\<open>__aenter__\<close>: a new session, on the database as the other processes have left it.\<close>

definition open_session :: "env \<Rightarrow> world \<Rightarrow> world" where
  "open_session env w =
     (case e_others env (w_tick w) (w_db w, w_sent w) of
        (d, out) \<Rightarrow>
          w\<lparr>w_db := d, w_sent := out, w_session := Some \<lparr>s_view = d, s_new = []\<rparr>,
            w_tick := w_tick w + 1\<rparr>)"

definition uow_enter :: "env \<Rightarrow> unit action" where
  "uow_enter env = modifies (open_session env)"

definition uow_commit :: "env \<Rightarrow> unit action" where
  "uow_commit env =
     andthen require_session (\<lambda>_. andthen (flush env) (\<lambda>_. commit_transaction env))"

definition uow_rollback :: "env \<Rightarrow> unit action" where
  "uow_rollback env =
     andthen require_session (\<lambda>_. andthen (statement env) (\<lambda>_. modifies abandon_changes))"

text \<open>\<open>__aexit__\<close>.\<close>

definition close_session :: "world \<Rightarrow> world" where
  "close_session w = w\<lparr>w_session := None\<rparr>"

definition uow_exit :: "env \<Rightarrow> bool \<Rightarrow> unit action" where
  "uow_exit env failed =
     andthen require_session (\<lambda>_.
     andthen (if failed then uow_rollback env else ret ()) (\<lambda>_.
     andthen (statement env) (\<lambda>_. modifies close_session)))"

text \<open>
  \<open>async with uow_factory() as uow: body\<close>. An exception of \<open>__aexit__\<close> replaces the outcome of the body;
  the unit of work goes out of scope either way.
\<close>

definition with_session :: "env \<Rightarrow> (bool \<Rightarrow> unit action) \<Rightarrow> 'a action \<Rightarrow> 'a action" where
  "with_session env leave body w =
     (case body (open_session env w) of
        (r, w1) \<Rightarrow>
          (case leave (isl r) w1 of
             (Inl e, w2) \<Rightarrow> (Inl e, close_session w2)
           | (Inr _, w2) \<Rightarrow> (r, close_session w2)))"

definition in_uow :: "env \<Rightarrow> 'a action \<Rightarrow> 'a action" where
  "in_uow env body = with_session env (uow_exit env) body"

text \<open>
  A session of SQLAlchemy used directly, \<open>async with session_factory() as session\<close>, is closed at the end;
  \<open>async with session.begin()\<close> commits what its block did, or rolls it back.
\<close>

definition in_session :: "env \<Rightarrow> 'a action \<Rightarrow> 'a action" where
  "in_session env body = with_session env (\<lambda>_. statement env) body"

definition begin_block :: "env \<Rightarrow> 'a action \<Rightarrow> 'a action" where
  "begin_block env body w =
     (case body w of
        (Inr x, w1) \<Rightarrow> andthen (commit_transaction env) (\<lambda>_. ret x) w1
      | (Inl e, w1) \<Rightarrow>
          andthen (andthen (statement env) (\<lambda>_. modifies abandon_changes)) (\<lambda>_. raise e) w1)"

section \<open>A world without faults\<close>

text \<open>
  In a calm environment no statement, commit, publication, wait or acknowledgement fails and no other
  process interferes; the functional behaviour of the operations is stated there.
\<close>

definition calm :: "env \<Rightarrow> bool" where
  "calm env \<longleftrightarrow>
     (\<forall>n. e_sql env n = None) \<and> (\<forall>n. e_commit env n = None) \<and> (\<forall>n. e_publish env n = None) \<and>
     (\<forall>n. e_sleep env n = None) \<and> (\<forall>n. e_ack env n = None) \<and> (\<forall>n S. e_others env n S = S)"

lemma calmD:
  assumes "calm env"
  shows "e_sql env n = None" "e_commit env n = None" "e_publish env n = None" "e_sleep env n = None"
    "e_ack env n = None" "e_others env n S = S"
  using assms by (simp_all add: calm_def del: split_paired_All)

lemma statement_calm: "calm env \<Longrightarrow> statement env w = (Inr (), w\<lparr>w_tick := w_tick w + 1\<rparr>)"
  by (simp add: statement_def may_fail_def observe_def prog_defs calmD)

lemma query_calm:
  "calm env \<Longrightarrow> w_session w = Some s \<Longrightarrow>
   query env f w = (f (s_view s), w\<lparr>w_tick := w_tick w + 1\<rparr>)"
  by (cases w) (simp add: query_def andthen_def statement_calm run_sql_def)

lemma update_calm:
  "calm env \<Longrightarrow> w_session w = Some s \<Longrightarrow>
   update env f w =
     (Inr (), w\<lparr>w_tick := w_tick w + 1, w_session := Some (s\<lparr>s_view := f (s_view s)\<rparr>)\<rparr>)"
  by (simp add: update_def andthen_def statement_calm run_sql_def)

lemma commit_calm:
  "calm env \<Longrightarrow> w_session w = Some s \<Longrightarrow> insert_outbox_rows env (s_new s) (s_view s) = Inr v \<Longrightarrow>
   uow_commit env w =
     (Inr (), w\<lparr>w_tick := w_tick w + 2, w_session := Some \<lparr>s_view = v, s_new = []\<rparr>, w_db := v\<rparr>)"
  by (simp add: uow_commit_def prog_defs require_session_def flush_def statement_calm flush_rows_def
      commit_transaction_def observe_def calmD apply_transaction_def)

text \<open>
  Running a program: its definitions are unfolded from the first effect on, never under the
  continuations still to come.
\<close>

lemma andthen_step: "m = m' \<Longrightarrow> s = s' \<Longrightarrow> andthen m f s = andthen m' f s'"
  by simp

lemma attempt_step: "m = m' \<Longrightarrow> s = s' \<Longrightarrow> attempt m h k s = attempt m' h k s'"
  by simp

lemma with_session_step: "w = w' \<Longrightarrow> with_session env leave body w = with_session env leave body w'"
  by simp

lemma begin_block_step: "w = w' \<Longrightarrow> begin_block env body w = begin_block env body w'"
  by simp

lemmas run_cong = andthen_step attempt_step with_session_step begin_block_step

lemmas run_defs =
  prog_defs observe_def may_fail_def clock_now_def uuid4_def random_random_def perf_counter_def
  statement_def run_sql_def query_def update_def flush_def flush_rows_def apply_transaction_def
  commit_transaction_def abandon_changes_def require_session_def open_session_def uow_commit_def
  uow_rollback_def close_session_def uow_exit_def with_session_def in_uow_def in_session_def
  begin_block_def

lemma in_uow_calm:
  assumes "calm env"
    and "body (w\<lparr>w_session := Some \<lparr>s_view = w_db w, s_new = []\<rparr>, w_tick := w_tick w + 1\<rparr>) = (r, w1)"
    and "w_session w1 \<noteq> None"
  shows "in_uow env body w =
    (r, w1\<lparr>w_session := None, w_tick := w_tick w1 + (if isl r then 2 else 1)\<rparr>)"
proof -
  have "open_session env w =
      w\<lparr>w_session := Some \<lparr>s_view = w_db w, s_new = []\<rparr>, w_tick := w_tick w + 1\<rparr>"
    by (cases w) (simp add: open_session_def calmD [OF assms(1)])
  with assms show ?thesis
    by (auto simp: in_uow_def with_session_def uow_exit_def uow_rollback_def prog_defs require_session_def
        statement_calm abandon_changes_def close_session_def)
qed

end
