(* ===== verification/PaymentRepo.thy ===== *)
theory PaymentRepo
  imports Store
begin

text \<open>
  \<open>src/infrastructure/persistence/mappers/payment.py\<close>, \<open>repositories/payment.py\<close>,
  \<open>repositories/idempotency.py\<close> and \<open>repositories/inbox.py\<close>: payments and processed messages in the database.
  The lemmas show that a payment read from a row and written back, completed or not, changes nothing but
  the status and the processing time.
\<close>

section \<open>Columns\<close>

text \<open>
  \<open>NUMERIC(12, 2)\<close>: rounded half away from zero to cents, fewer than \<open>10^12\<close> of them; read back as a decimal
  of scale two.
\<close>

definition numeric_store :: "decimal \<Rightarrow> exn + int" where
  "numeric_store d =
     (case d of
        Dec s c e \<Rightarrow>
          (let k = 10 ^ nat (- 2 - e);
               cents = (if - 2 \<le> e then int c * 10 ^ nat (e + 2) else (2 * int c + k) div (2 * k))
           in if cents < 10 ^ 12 then Inr (if s then - cents else cents)
              else Inl (DataError ''numeric field overflow''))
      | _ \<Rightarrow> Inl (DataError ''numeric field overflow''))"

definition numeric_read :: "int \<Rightarrow> decimal" where
  "numeric_read cents = Dec (cents < 0) (nat \<bar>cents\<bar>) (- 2)"

text \<open>
  An unchanged attribute (the same object, or an equal one) is not written; a changed one goes through
  \<open>JSONB\<close>.
\<close>

definition jsonb_store :: "env \<Rightarrow> pydict option \<Rightarrow> pydict \<Rightarrow> exn + pydict" where
  "jsonb_store env old new =
     (case old of
        None \<Rightarrow> e_jsonb env new
      | Some x \<Rightarrow> if x = new \<or> dict_eq x new then Inr x else e_jsonb env new)"

section \<open>PaymentMapper\<close>

text \<open>
  \<open>apply\<close>: the columns of the payment, with \<open>id\<close> and, for a row that exists, its \<open>metadata\<close>; \<open>to_model\<close> starts
  from a row with the id only.
\<close>

definition mapper_apply :: "env \<Rightarrow> uuid \<Rightarrow> pydict option \<Rightarrow> payment \<Rightarrow> exn + payment_row" where
  "mapper_apply env i old_extra p =
     bind_exn (numeric_store (m_amount (p_money p))) (\<lambda>cents.
     bind_exn (jsonb_store env old_extra (p_metadata p)) (\<lambda>extra.
       if text_fits (Some 3) (currency_value (m_currency (p_money p))) \<and> text_fits None (p_description p) \<and>
          text_fits (Some 16) (status_value (p_status p)) \<and> text_fits (Some 255) (p_key p) \<and>
          text_fits None (p_webhook_url p)
       then Inr \<lparr>pr_id = i, pr_amount = cents, pr_currency = currency_value (m_currency (p_money p)),
                  pr_description = p_description p, pr_extra = extra,
                  pr_status = status_value (p_status p), pr_key = p_key p,
                  pr_webhook_url = p_webhook_url p, pr_created_at = p_created_at p,
                  pr_processed_at = p_processed_at p\<rparr>
       else Inl (DataError ''value does not fit its column'')))"

definition mapper_to_model :: "env \<Rightarrow> payment \<Rightarrow> exn + payment_row" where
  "mapper_to_model env p = mapper_apply env (p_id p) None p"

definition mapper_to_domain :: "payment_row \<Rightarrow> exn + payment" where
  "mapper_to_domain model =
     bind_exn (payment_id_new (Inl (pr_id model))) (\<lambda>i.
     bind_exn (case currency_of_value (pr_currency model) of
                 None \<Rightarrow> Inl (ValueError (pr_currency model @ '' is not a valid Currency''))
               | Some c \<Rightarrow> Inr c) (\<lambda>currency.
     bind_exn (money_new (ADecimal (numeric_read (pr_amount model))) (Inl currency)) (\<lambda>money.
     bind_exn (case status_of_value (pr_status model) of
                 None \<Rightarrow> Inl (ValueError (pr_status model @ '' is not a valid PaymentStatus''))
               | Some st \<Rightarrow> Inr st) (\<lambda>status.
     bind_exn (idempotency_key_new (PStr (pr_key model))) (\<lambda>key.
       Inr (payment_reconstitute i money (pr_description model) (pr_extra model) status key
              (pr_webhook_url model) (pr_created_at model) (pr_processed_at model)))))))"

section \<open>IdempotencyConstraint\<close>

fun is_idempotency_conflict :: "exn \<Rightarrow> bool" where
  "is_idempotency_conflict (IntegrityError constraint_name text) =
     (let constraint = (case constraint_name of None \<Rightarrow> [] | Some c \<Rightarrow> c)
      in if contains ''idempotency'' (lower constraint) then True
         else contains ''idempotency_key'' (lower text) \<or> contains ''uq_payments_idempotency_key'' (lower text))"
| "is_idempotency_conflict _ = False"

section \<open>SqlPaymentRepository\<close>

definition insert_payment :: "env \<Rightarrow> payment \<Rightarrow> tables \<Rightarrow> (exn + unit) \<times> tables" where
  "insert_payment env p v =
     (case mapper_to_model env p of
        Inl e \<Rightarrow> (Inl e, v)
      | Inr row \<Rightarrow>
          if find_payment v (pr_id row) \<noteq> None then (Inl (unique_violation env ''payments_pkey''), v)
          else if pr_key row \<in> pr_key ` set (t_payments v)
          then (Inl (unique_violation env ''uq_payments_idempotency_key''), v)
          else (Inr (), v\<lparr>t_payments := t_payments v @ [row]\<rparr>))"

definition payments_add :: "env \<Rightarrow> payment \<Rightarrow> unit action" where
  "payments_add env p =
     attempt (andthen (flush env) (\<lambda>_. run_sql (insert_payment env p)))
       (\<lambda>e. if is_idempotency_conflict e then raise DuplicateIdempotencyKey else raise e)
       ret"

definition update_payment :: "env \<Rightarrow> payment_row \<Rightarrow> payment \<Rightarrow> tables \<Rightarrow> (exn + unit) \<times> tables" where
  "update_payment env model p v =
     (case mapper_apply env (pr_id model) (Some (pr_extra model)) p of
        Inl e \<Rightarrow> (Inl e, v)
      | Inr row \<Rightarrow>
          if \<exists>r\<in>set (t_payments v). pr_key r = pr_key row \<and> pr_id r \<noteq> pr_id row
          then (Inl (unique_violation env ''uq_payments_idempotency_key''), v)
          else (Inr (), v\<lparr>t_payments := update_rows (\<lambda>r. pr_id r = pr_id row) (\<lambda>_. row) (t_payments v)\<rparr>))"

definition payments_save :: "env \<Rightarrow> payment \<Rightarrow> unit action" where
  "payments_save env p =
     andthen (query env (\<lambda>v. Inr (find_payment v (p_id p)))) (\<lambda>found.
       case found of
         None \<Rightarrow> raise (RuntimeError (''payment '' @ uuid_str (p_id p) @ '' missing for save''))
       | Some model \<Rightarrow> andthen (flush env) (\<lambda>_. run_sql (update_payment env model p)))"

definition optional_payment :: "payment_row option \<Rightarrow> exn + payment option" where
  "optional_payment found =
     (case found of None \<Rightarrow> Inr None | Some model \<Rightarrow> bind_exn (mapper_to_domain model) (\<lambda>p. Inr (Some p)))"

definition payments_get :: "env \<Rightarrow> uuid \<Rightarrow> payment option action" where
  "payments_get env i = query env (\<lambda>v. optional_payment (find_payment v i))"

text \<open>\<open>scalar_one_or_none\<close> raises when there are two rows.\<close>

definition scalar_one_or_none :: "'r list \<Rightarrow> exn + 'r option" where
  "scalar_one_or_none rs =
     (case rs of [] \<Rightarrow> Inr None | [r] \<Rightarrow> Inr (Some r) | _ \<Rightarrow> Inl MultipleResultsFound)"

definition payments_get_for_update :: "env \<Rightarrow> uuid \<Rightarrow> payment option action" where
  "payments_get_for_update env i =
     query env (\<lambda>v. bind_exn (scalar_one_or_none (filter (\<lambda>r. pr_id r = i) (t_payments v))) optional_payment)"

definition payments_get_by_key :: "env \<Rightarrow> string \<Rightarrow> payment option action" where
  "payments_get_by_key env k =
     query env (\<lambda>v. bind_exn (scalar_one_or_none (filter (\<lambda>r. pr_key r = k) (t_payments v))) optional_payment)"

section \<open>SqlInboxRepository\<close>

definition inbox_has_message :: "env \<Rightarrow> uuid \<Rightarrow> bool action" where
  "inbox_has_message env i = query env (\<lambda>v. Inr (find_inbox v i \<noteq> None))"

text \<open>\<open>INSERT ... ON CONFLICT DO NOTHING\<close>.\<close>

definition insert_inbox :: "uuid \<Rightarrow> time \<Rightarrow> tables \<Rightarrow> tables" where
  "insert_inbox i t v =
     (if find_inbox v i \<noteq> None then v
      else v\<lparr>t_inbox := t_inbox v @ [\<lparr>ib_message_id = i, ib_processed_at = t\<rparr>]\<rparr>)"

definition inbox_add :: "env \<Rightarrow> uuid \<Rightarrow> time \<Rightarrow> unit action" where
  "inbox_add env i t = update env (insert_inbox i t)"

section \<open>Facts about the mapper\<close>

lemma numeric_store_ok:
  assumes "numeric_store (Dec False c (- 2)) = Inr cents"
  shows "cents = int c"
  using assms by (auto simp: numeric_store_def Let_def split: if_splits)

lemma numeric_round_trip:
  assumes "money_ok m" and "numeric_store (m_amount m) = Inr cents"
  shows "numeric_read cents = m_amount m"
  using assms numeric_store_ok by (fastforce simp: money_ok_def numeric_read_def)

lemma mapper_to_domain_Inr:
  assumes "mapper_to_domain row = Inr p"
  obtains m st where
    "p = payment_reconstitute (pr_id row) m (pr_description row) (pr_extra row) st (pr_key row)
       (pr_webhook_url row) (pr_created_at row) (pr_processed_at row)"
    "money_ok m" "m_amount m = numeric_read (pr_amount row)" "0 < pr_amount row"
    "currency_value (m_currency m) = pr_currency row" "status_value st = pr_status row"
    "key_ok (pr_key row)"
proof -
  from assms obtain c m st where
    c: "currency_of_value (pr_currency row) = Some c" and
    m: "money_new (ADecimal (numeric_read (pr_amount row))) (Inl c) = Inr m" and
    st: "status_of_value (pr_status row) = Some st" and
    k: "idempotency_key_new (PStr (pr_key row)) = Inr (pr_key row)" and
    p: "p = payment_reconstitute (pr_id row) m (pr_description row) (pr_extra row) st (pr_key row)
       (pr_webhook_url row) (pr_created_at row) (pr_processed_at row)"
    by (auto simp: mapper_to_domain_def bind_exn_Inr_iff payment_id_new_def
        idempotency_key_new_Inr split: option.splits)
  have amount: "money_amount (numeric_read (pr_amount row)) = Inr (m_amount m)" "m_currency m = c"
    using m by (auto simp: money_new_def bind_exn_Inr_iff currency_parse_def)
  have pos: "0 < pr_amount row"
  proof (rule ccontr)
    assume "\<not> 0 < pr_amount row"
    then show False
      using amount(1) by (auto simp: numeric_read_def money_amount_def split: if_splits)
  qed
  then have "m_amount m = numeric_read (pr_amount row)"
    using amount(1)
    by (auto simp: numeric_read_def money_amount_def quantize_cents_def split: if_splits)
  moreover have "status_value st = pr_status row"
    using st find_Some_iff_set [of "\<lambda>s. status_value s = pr_status row" _ st]
    by (simp only: status_of_value_def)
  moreover have "currency_value (m_currency m) = pr_currency row"
    using c amount(2) currency_of_value_Some by auto
  moreover have "key_ok (pr_key row)" using k by (simp add: idempotency_key_new_Inr)
  ultimately show ?thesis using that p money_new_ok [OF m] pos by blast
qed

lemma mapper_apply_Inr:
  assumes "mapper_apply env i old p = Inr row"
  obtains cents extra where
    "row = \<lparr>pr_id = i, pr_amount = cents, pr_currency = currency_value (m_currency (p_money p)),
       pr_description = p_description p, pr_extra = extra, pr_status = status_value (p_status p),
       pr_key = p_key p, pr_webhook_url = p_webhook_url p, pr_created_at = p_created_at p,
       pr_processed_at = p_processed_at p\<rparr>"
    "numeric_store (m_amount (p_money p)) = Inr cents" "jsonb_store env old (p_metadata p) = Inr extra"
  using assms by (auto simp: mapper_apply_def bind_exn_Inr_iff split: if_splits)

text \<open>A stored payment is read back as it was, but for what \<open>JSONB\<close> made of its metadata.\<close>

lemma mapper_round_trip:
  assumes row: "mapper_to_model env p = Inr row" and ok: "payment_ok p"
  shows "\<exists>extra. e_jsonb env (p_metadata p) = Inr extra \<and>
           mapper_to_domain row = Inr (p\<lparr>p_metadata := extra\<rparr>)"
proof -
  obtain cents extra where r: "row = \<lparr>pr_id = p_id p, pr_amount = cents,
       pr_currency = currency_value (m_currency (p_money p)),
       pr_description = p_description p, pr_extra = extra, pr_status = status_value (p_status p),
       pr_key = p_key p, pr_webhook_url = p_webhook_url p, pr_created_at = p_created_at p,
       pr_processed_at = p_processed_at p\<rparr>"
    and cents: "numeric_store (m_amount (p_money p)) = Inr cents"
    and extra: "jsonb_store env None (p_metadata p) = Inr extra"
    using row unfolding mapper_to_model_def by (rule mapper_apply_Inr)
  have pm: "money_ok (p_money p)" and pk: "key_ok (p_key p)" using ok by (simp_all add: payment_ok_def)
  have "numeric_read cents = m_amount (p_money p)"
    using cents pm numeric_round_trip by blast
  moreover from pk have "idempotency_key_new (PStr (p_key p)) = Inr (p_key p)"
    by (simp add: idempotency_key_new_Inr)
  ultimately show ?thesis
    using extra pm
    by (cases p) (simp add: r mapper_to_domain_def payment_id_new_def money_new_again
        jsonb_store_def payment_reconstitute_def)
qed

text \<open>
  A row completed: the payment read from it has moved to a terminal status. Writing that payment back
  gives the row with the two columns changed.
\<close>

lemma mapper_apply_completed:
  assumes dom: "mapper_to_domain row = Inr p"
    and written: "mapper_apply env (pr_id row) (Some (pr_extra row)) (p\<lparr>p_status := st, p_processed_at := t\<rparr>) = Inr row'"
  shows "row' = row\<lparr>pr_status := status_value st, pr_processed_at := t\<rparr>"
proof -
  obtain m s where p: "p = payment_reconstitute (pr_id row) m (pr_description row) (pr_extra row) s (pr_key row)
       (pr_webhook_url row) (pr_created_at row) (pr_processed_at row)"
    and m: "money_ok m" "m_amount m = numeric_read (pr_amount row)" "0 < pr_amount row"
      "currency_value (m_currency m) = pr_currency row"
    using dom by (rule mapper_to_domain_Inr)
  obtain cents where c: "numeric_store (m_amount m) = Inr cents"
    and r: "row' = \<lparr>pr_id = pr_id row, pr_amount = cents, pr_currency = pr_currency row,
       pr_description = pr_description row, pr_extra = pr_extra row, pr_status = status_value st,
       pr_key = pr_key row, pr_webhook_url = pr_webhook_url row, pr_created_at = pr_created_at row,
       pr_processed_at = t\<rparr>"
    using written m(4)
    by (elim mapper_apply_Inr) (auto simp: p payment_reconstitute_def jsonb_store_def)
  have "cents = pr_amount row"
    using c m numeric_store_ok [of "nat (pr_amount row)" cents] by (simp add: numeric_read_def)
  with r show ?thesis by simp
qed

end
