(* ===== verification/OutboxRepo.thy ===== *)
theory OutboxRepo
  imports Store
begin

text \<open>
  \<open>src/infrastructure/persistence/repositories/outbox_writer.py\<close>, \<open>outbox_claim.py\<close>, \<open>outbox_queue.py\<close> and
  \<open>mappers/outbox.py\<close>: the outbox table as a queue. The locales state what every update of a row keeps;
  the lemmas show what a claim takes and what a purge deletes.
\<close>

section \<open>SqlOutboxWriter\<close>

text \<open>\<open>add\<close> only puts the object into the session; the commit inserts it.\<close>

definition new_outbox_row :: "uuid \<Rightarrow> string \<Rightarrow> pydict \<Rightarrow> time \<Rightarrow> outbox_row" where
  "new_outbox_row i event_type payload created_at =
     \<lparr>ow_id = i, ow_event_type = event_type, ow_payload = payload, ow_created_at = created_at,
      ow_published_at = None, ow_status = outbox_status_value NEW, ow_retry_count = 0,
      ow_claimed_at = None, ow_available_at = None\<rparr>"

definition session_add :: "outbox_row \<Rightarrow> unit action" where
  "session_add r w =
     (case w_session w of
        None \<Rightarrow> (Inl (ForeignError ''AttributeError''), w)
      | Some s \<Rightarrow> (Inr (), w\<lparr>w_session := Some (s\<lparr>s_new := s_new s @ [r]\<rparr>)\<rparr>))"

definition outbox_add :: "env \<Rightarrow> string \<Rightarrow> pydict \<Rightarrow> time \<Rightarrow> unit action" where
  "outbox_add env event_type payload created_at =
     andthen (uuid4 env) (\<lambda>i. session_add (new_outbox_row i event_type payload created_at))"

section \<open>OutboxClaimFilter\<close>

definition claim_due :: "time \<Rightarrow> outbox_row \<Rightarrow> bool" where
  "claim_due now r \<longleftrightarrow> (case ow_available_at r of None \<Rightarrow> True | Some t \<Rightarrow> t \<le> now)"

definition claim_filter :: "time \<Rightarrow> time \<Rightarrow> outbox_row \<Rightarrow> bool" where
  "claim_filter now stale_before r \<longleftrightarrow>
     (ow_status r = outbox_status_value NEW \<and> claim_due now r) \<or>
     (ow_status r = outbox_status_value PROCESSING \<and>
      (case ow_claimed_at r of None \<Rightarrow> False | Some t \<Rightarrow> t \<le> stale_before))"

section \<open>OutboxMapper\<close>

definition to_claimed_record :: "outbox_row \<Rightarrow> time \<Rightarrow> outbox_record" where
  "to_claimed_record row claimed_at =
     \<lparr>r_id = ow_id row, r_event_type = ow_event_type row, r_payload = ow_payload row,
      r_created_at = ow_created_at row, r_status = PROCESSING, r_retry_count = ow_retry_count row,
      r_published_at = ow_published_at row, r_claimed_at = Some claimed_at, r_available_at = None\<rparr>"

section \<open>SqlOutboxQueue\<close>

text \<open>The \<open>values(...)\<close> of the updates.\<close>

definition claimed_row :: "time \<Rightarrow> outbox_row \<Rightarrow> outbox_row" where
  "claimed_row now r =
     r\<lparr>ow_status := outbox_status_value PROCESSING, ow_claimed_at := Some now, ow_available_at := None\<rparr>"

definition processed_row :: "time \<Rightarrow> outbox_row \<Rightarrow> outbox_row" where
  "processed_row published_at r =
     r\<lparr>ow_status := outbox_status_value PROCESSED, ow_published_at := Some published_at,
       ow_claimed_at := None, ow_available_at := None\<rparr>"

definition released_row :: "outbox_status \<Rightarrow> int \<Rightarrow> time option \<Rightarrow> outbox_row \<Rightarrow> outbox_row" where
  "released_row status retry_count available_at r =
     r\<lparr>ow_status := outbox_status_value status, ow_retry_count := retry_count, ow_claimed_at := None,
       ow_available_at := available_at\<rparr>"

definition unclaimed_row :: "outbox_row \<Rightarrow> outbox_row" where
  "unclaimed_row r =
     r\<lparr>ow_status := outbox_status_value NEW, ow_claimed_at := None, ow_available_at := None\<rparr>"

definition update_outbox :: "(outbox_row \<Rightarrow> bool) \<Rightarrow> (outbox_row \<Rightarrow> outbox_row) \<Rightarrow> tables \<Rightarrow> tables" where
  "update_outbox P f v = v\<lparr>t_outbox := update_rows P f (t_outbox v)\<rparr>"

text \<open>
  \<open>claim_batch\<close>: \<open>scan\<close> is the order in which the database meets the rows (the sort is stable in it), and
  the rows another transaction has locked are skipped. A negative \<open>LIMIT\<close> is an error.
\<close>

definition claim_select ::
    "(outbox_row list \<Rightarrow> outbox_row list) \<Rightarrow> (uuid \<Rightarrow> bool) \<Rightarrow> int \<Rightarrow> time \<Rightarrow> time \<Rightarrow> tables \<Rightarrow> outbox_row list"
  where
  "claim_select scan locked limit now stale_before v =
     take (nat limit)
       (sort_key ow_created_at
         (filter (\<lambda>r. claim_filter now stale_before r \<and> \<not> locked (ow_id r)) (scan (t_outbox v))))"

definition claim_batch :: "env \<Rightarrow> int \<Rightarrow> time \<Rightarrow> time \<Rightarrow> outbox_record list action" where
  "claim_batch env limit now stale_before =
     andthen (observe (\<lambda>n. (e_scan env n, e_locked env n))) (\<lambda>(scan, locked).
     andthen (query env (\<lambda>v. if limit < 0 then Inl (DataError ''LIMIT must not be negative'')
                              else Inr (claim_select scan locked limit now stale_before v))) (\<lambda>rows.
       if rows = [] then ret []
       else andthen (update env (update_outbox (\<lambda>r. ow_id r \<in> ow_id ` set rows) (claimed_row now)))
              (\<lambda>_. ret (map (\<lambda>row. to_claimed_record row now) rows))))"

definition mark_processed :: "env \<Rightarrow> uuid \<Rightarrow> time \<Rightarrow> unit action" where
  "mark_processed env record_id published_at =
     update env (update_outbox (\<lambda>r. ow_id r = record_id) (processed_row published_at))"

definition queue_release :: "env \<Rightarrow> uuid \<Rightarrow> outbox_status \<Rightarrow> int \<Rightarrow> time option \<Rightarrow> unit action" where
  "queue_release env record_id status retry_count available_at =
     update env (update_outbox (\<lambda>r. ow_id r = record_id) (released_row status retry_count available_at))"

definition queue_unclaim :: "env \<Rightarrow> uuid list \<Rightarrow> unit action" where
  "queue_unclaim env ids =
     (if ids = [] then ret () else update env (update_outbox (\<lambda>r. ow_id r \<in> set ids) unclaimed_row))"

definition is_pending_row :: "outbox_row \<Rightarrow> bool" where
  "is_pending_row r \<longleftrightarrow> ow_status r \<in> {outbox_status_value NEW, outbox_status_value PROCESSING}"

definition is_failed_row :: "outbox_row \<Rightarrow> bool" where
  "is_failed_row r \<longleftrightarrow> ow_status r = outbox_status_value OUTBOX_FAILED"

definition count_pending :: "env \<Rightarrow> int action" where
  "count_pending env = query env (\<lambda>v. Inr (int (length (filter is_pending_row (t_outbox v)))))"

definition count_failed :: "env \<Rightarrow> int action" where
  "count_failed env = query env (\<lambda>v. Inr (int (length (filter is_failed_row (t_outbox v)))))"

definition purgeable :: "time \<Rightarrow> outbox_row \<Rightarrow> bool" where
  "purgeable cutoff r \<longleftrightarrow>
     ow_status r = outbox_status_value PROCESSED \<and>
     (case ow_published_at r of None \<Rightarrow> False | Some t \<Rightarrow> t < cutoff)"

definition purge_ids :: "(outbox_row list \<Rightarrow> outbox_row list) \<Rightarrow> time \<Rightarrow> int \<Rightarrow> tables \<Rightarrow> uuid list" where
  "purge_ids scan cutoff limit v = take (nat limit) (map ow_id (filter (purgeable cutoff) (scan (t_outbox v))))"

definition delete_outbox :: "uuid list \<Rightarrow> tables \<Rightarrow> tables" where
  "delete_outbox ids v = v\<lparr>t_outbox := filter (\<lambda>r. ow_id r \<notin> set ids) (t_outbox v)\<rparr>"

definition delete_processed_before :: "env \<Rightarrow> time \<Rightarrow> int \<Rightarrow> int action" where
  "delete_processed_before env cutoff limit =
     andthen (observe (e_scan env)) (\<lambda>scan.
     andthen (statement env) (\<lambda>_.
       run_sql (\<lambda>v.
         if limit < 0 then (Inl (DataError ''LIMIT must not be negative''), v)
         else (let v' = delete_outbox (purge_ids scan cutoff limit v) v
               in (Inr (int (length (t_outbox v)) - int (length (t_outbox v'))), v')))))"

section \<open>What an update of a row keeps\<close>

text \<open>The columns that are written once, at the insertion.\<close>

definition envelope :: "outbox_row \<Rightarrow> uuid \<times> string \<times> pydict \<times> time" where
  "envelope r = (ow_id r, ow_event_type r, ow_payload r, ow_created_at r)"

locale outbox_row_update =
  fixes f :: "outbox_row \<Rightarrow> outbox_row"
  assumes keeps_envelope: "envelope (f r) = envelope r"
    and keeps_published: "ow_published_at r \<noteq> None \<Longrightarrow> ow_published_at (f r) \<noteq> None"
begin

lemma keeps_id: "ow_id (f r) = ow_id r"
  using keeps_envelope [of r] by (simp add: envelope_def)

lemma find_after:
  "find_outbox (update_outbox P f v) i = map_option (\<lambda>r. if P r then f r else r) (find_outbox v i)"
  using outbox.lookup_map [of "\<lambda>r. if P r then f r else r" v i]
  by (simp add: update_outbox_def update_rows_def keeps_id)

lemma unique_after: "outbox.unique v \<Longrightarrow> outbox.unique (update_outbox P f v)"
  using outbox.unique_map [of "\<lambda>r. if P r then f r else r" v]
  by (simp add: update_outbox_def update_rows_def keeps_id)

lemma row_persists:
  "find_outbox v i = Some r \<Longrightarrow>
   \<exists>r'. find_outbox (update_outbox P f v) i = Some r' \<and> envelope r' = envelope r \<and>
        (ow_published_at r \<noteq> None \<longrightarrow> ow_published_at r' \<noteq> None)"
  using keeps_published by (simp add: find_after keeps_envelope)

end

text \<open>Most updates leave the publication time alone.\<close>

locale quiet_row_update = outbox_row_update +
  assumes same_published: "ow_published_at (f r) = ow_published_at r"
begin

lemma published_before:
  assumes "r \<in> set (t_outbox (update_outbox P f v))" and "ow_published_at r \<noteq> None"
  shows "\<exists>r0\<in>set (t_outbox v). envelope r0 = envelope r \<and> ow_published_at r0 \<noteq> None"
  using assms keeps_envelope same_published
  by (auto simp: update_outbox_def update_rows_def split: if_splits)

end

interpretation claimed: quiet_row_update "claimed_row now" for now
  by unfold_locales (simp_all add: claimed_row_def envelope_def)

interpretation released: quiet_row_update "released_row st rc av" for st rc av
  by unfold_locales (simp_all add: released_row_def envelope_def)

interpretation unclaimed: quiet_row_update unclaimed_row
  by unfold_locales (simp_all add: unclaimed_row_def envelope_def)

interpretation processed: outbox_row_update "processed_row t" for t
  by unfold_locales (simp_all add: processed_row_def envelope_def)

lemma update_outbox_other [simp]:
  "t_payments (update_outbox P f v) = t_payments v" "t_inbox (update_outbox P f v) = t_inbox v"
  "t_charges (update_outbox P f v) = t_charges v"
  "find_payment (update_outbox P f v) i = find_payment v i"
  "find_inbox (update_outbox P f v) i = find_inbox v i"
  "find_charge (update_outbox P f v) i = find_charge v i"
  by (simp_all add: update_outbox_def)

lemma delete_outbox_other [simp]:
  "t_payments (delete_outbox ids v) = t_payments v" "t_inbox (delete_outbox ids v) = t_inbox v"
  "t_charges (delete_outbox ids v) = t_charges v"
  "find_payment (delete_outbox ids v) i = find_payment v i"
  "find_inbox (delete_outbox ids v) i = find_inbox v i"
  "find_charge (delete_outbox ids v) i = find_charge v i"
  by (simp_all add: delete_outbox_def)

section \<open>What a claim takes, and what a purge deletes\<close>

lemma claim_select_sound:
  assumes scan: "set (scan (t_outbox v)) \<subseteq> set (t_outbox v)"
    and "r \<in> set (claim_select scan locked limit now stale v)"
  shows "r \<in> set (t_outbox v)" "claim_filter now stale r" "\<not> locked (ow_id r)"
  using assms by (auto simp: claim_select_def dest!: in_set_takeD)

lemma claim_select_length: "length (claim_select scan locked limit now stale v) \<le> nat limit"
  by (simp add: claim_select_def)

lemma claim_select_sorted: "sorted (map ow_created_at (claim_select scan locked limit now stale v))"
  by (simp add: claim_select_def take_map [symmetric])

lemma claim_select_complete:
  assumes scan: "set (t_outbox v) \<subseteq> set (scan (t_outbox v))"
    and room: "length (claim_select scan locked limit now stale v) < nat limit"
    and r: "r \<in> set (t_outbox v)" "claim_filter now stale r" "\<not> locked (ow_id r)"
  shows "r \<in> set (claim_select scan locked limit now stale v)"
proof -
  let ?all = "sort_key ow_created_at
      (filter (\<lambda>r. claim_filter now stale r \<and> \<not> locked (ow_id r)) (scan (t_outbox v)))"
  have "length ?all \<le> nat limit" using room by (auto simp: claim_select_def)
  then have "claim_select scan locked limit now stale v = ?all" by (simp add: claim_select_def)
  moreover have "r \<in> set ?all" using scan r by auto
  ultimately show ?thesis by simp
qed

lemma claimed_not_claimable:
  "stale < now \<Longrightarrow> \<not> claim_filter now stale (claimed_row now r)"
  by (simp add: claim_filter_def claimed_row_def)

lemma processed_not_claimable: "\<not> claim_filter now stale (processed_row t r)"
  by (simp add: claim_filter_def processed_row_def)

lemma failed_not_claimable: "\<not> claim_filter now stale (released_row OUTBOX_FAILED rc av r)"
  by (simp add: claim_filter_def released_row_def)

lemma purge_ids_sound:
  assumes scan: "set (scan (t_outbox v)) \<subseteq> set (t_outbox v)" and "outbox.unique v"
    and "i \<in> set (purge_ids scan cutoff limit v)"
  shows "\<exists>r. find_outbox v i = Some r \<and> purgeable cutoff r"
proof -
  obtain r where "r \<in> set (t_outbox v)" "purgeable cutoff r" "ow_id r = i"
    using assms(3) scan by (auto simp: purge_ids_def dest!: in_set_takeD) blast
  then show ?thesis using outbox.lookup_in [OF assms(2)] by blast
qed

lemma find_after_delete:
  "outbox.unique v \<Longrightarrow>
   find_outbox (delete_outbox ids v) i = (if i \<in> set ids then None else find_outbox v i)"
  using outbox.lookup_filter [of v "\<lambda>r. ow_id r \<notin> set ids" i] outbox.lookup_key [of v i]
  by (auto simp: delete_outbox_def split: option.splits)

lemma unique_after_delete: "outbox.unique v \<Longrightarrow> outbox.unique (delete_outbox ids v)"
  using outbox.unique_filter by (simp add: delete_outbox_def)

end
