(* ===== verification/Messaging.thy ===== *)
theory Messaging
  imports Store
begin

text \<open>
  \<open>src/infrastructure/messaging/topology.py\<close> and \<open>publisher.py\<close>: the exchange, the queues and how messages
  travel between them, and the publisher that every part of the service sends through. The lemmas
  show where a published, an expired and a rejected message goes.
\<close>

section \<open>Topology\<close>

record exchange_def =
  x_name :: string
  x_type :: string
  x_durable :: bool

record queue_def =
  q_name :: string
  q_durable :: bool
  q_routing_key :: string
  q_arguments :: pydict

definition PAYMENTS_EXCHANGE_NAME :: string where "PAYMENTS_EXCHANGE_NAME = ''payments''"
definition NEW_QUEUE_NAME :: string where "NEW_QUEUE_NAME = NEW_ROUTING_KEY"
definition RETRY_QUEUE_NAME :: string where "RETRY_QUEUE_NAME = RETRY_ROUTING_KEY"
definition DLQ_NAME :: string where "DLQ_NAME = DLQ_ROUTING_KEY"

definition PAYMENTS_EXCHANGE :: exchange_def where
  "PAYMENTS_EXCHANGE = \<lparr>x_name = PAYMENTS_EXCHANGE_NAME, x_type = ''direct'', x_durable = True\<rparr>"

definition NEW_QUEUE :: queue_def where
  "NEW_QUEUE =
     \<lparr>q_name = NEW_QUEUE_NAME, q_durable = True, q_routing_key = NEW_ROUTING_KEY,
      q_arguments = [(''x-dead-letter-exchange'', PStr PAYMENTS_EXCHANGE_NAME),
                     (''x-dead-letter-routing-key'', PStr DLQ_ROUTING_KEY)]\<rparr>"

definition RETRY_QUEUE :: queue_def where
  "RETRY_QUEUE =
     \<lparr>q_name = RETRY_QUEUE_NAME, q_durable = True, q_routing_key = RETRY_ROUTING_KEY,
      q_arguments = [(''x-dead-letter-exchange'', PStr PAYMENTS_EXCHANGE_NAME),
                     (''x-dead-letter-routing-key'', PStr NEW_ROUTING_KEY)]\<rparr>"

definition DLQ_QUEUE :: queue_def where
  "DLQ_QUEUE =
     \<lparr>q_name = DLQ_NAME, q_durable = True, q_routing_key = DLQ_ROUTING_KEY, q_arguments = []\<rparr>"

definition topology_queues :: "queue_def list" where
  "topology_queues = [NEW_QUEUE, RETRY_QUEUE, DLQ_QUEUE]"

text \<open>What a RabbitMQ broker knows: exchanges, queues, and bindings (exchange, key, queue).\<close>

record broker =
  bk_exchanges :: "exchange_def list"
  bk_queues :: "queue_def list"
  bk_bindings :: "(string \<times> string \<times> string) list"

text \<open>
  A declaration of what exists already changes nothing; of another thing of that name it is refused, and the
  channel is closed.
\<close>

definition precondition_failed :: exn where
  "precondition_failed = ForeignError ''ChannelPreconditionFailed''"

definition declare_exchange :: "exchange_def \<Rightarrow> broker \<Rightarrow> exn + broker" where
  "declare_exchange x b =
     (if list_ex (\<lambda>y. x_name y = x_name x \<and> y \<noteq> x) (bk_exchanges b) then Inl precondition_failed
      else Inr (b\<lparr>bk_exchanges := List.insert x (bk_exchanges b)\<rparr>))"

definition declare_queue :: "queue_def \<Rightarrow> broker \<Rightarrow> exn + broker" where
  "declare_queue q b =
     (if list_ex (\<lambda>r. q_name r = q_name q \<and> r \<noteq> q) (bk_queues b) then Inl precondition_failed
      else Inr (b\<lparr>bk_queues := List.insert q (bk_queues b)\<rparr>))"

definition bind_queue :: "string \<Rightarrow> string \<Rightarrow> string \<Rightarrow> broker \<Rightarrow> broker" where
  "bind_queue x routing_key q b = b\<lparr>bk_bindings := List.insert (x, routing_key, q) (bk_bindings b)\<rparr>"

text \<open>\<open>PaymentsTopology.declare\<close>: an empty routing key falls back to the queue's name.\<close>

fun declare_queues :: "queue_def list \<Rightarrow> broker \<Rightarrow> exn + broker" where
  "declare_queues [] b = Inr b"
| "declare_queues (q # qs) b =
     bind_exn (declare_queue q b) (\<lambda>b'.
       declare_queues qs (bind_queue (x_name PAYMENTS_EXCHANGE)
         (if q_routing_key q = [] then q_name q else q_routing_key q) (q_name q) b'))"

definition declare_topology :: "broker \<Rightarrow> exn + broker" where
  "declare_topology b = bind_exn (declare_exchange PAYMENTS_EXCHANGE b) (declare_queues topology_queues)"

text \<open>
  A direct exchange hands a message to the queues bound with its routing key. A message that expires in a
  queue, or that a consumer rejects without requeueing, is published to the exchange and with the key that
  the queue's arguments name; without them it is dropped.
\<close>

definition route :: "broker \<Rightarrow> string \<Rightarrow> string \<Rightarrow> string list" where
  "route b x routing_key = map (\<lambda>(x, k, q). q) (filter (\<lambda>(x', k, q). x' = x \<and> k = routing_key) (bk_bindings b))"

definition dead_letter :: "broker \<Rightarrow> queue_def \<Rightarrow> string list" where
  "dead_letter b q =
     (case (dict_get (q_arguments q) ''x-dead-letter-exchange'',
            dict_get (q_arguments q) ''x-dead-letter-routing-key'') of
        (PStr x, PStr k) \<Rightarrow> route b x k
      | _ \<Rightarrow> [])"

lemmas routing_keys = NEW_ROUTING_KEY_def RETRY_ROUTING_KEY_def DLQ_ROUTING_KEY_def

lemmas queue_names = NEW_QUEUE_NAME_def RETRY_QUEUE_NAME_def DLQ_NAME_def

text \<open>What a declaration that succeeds has checked, and what it leaves.\<close>

definition own_binding :: "queue_def \<Rightarrow> string \<times> string \<times> string" where
  "own_binding q =
     (x_name PAYMENTS_EXCHANGE, if q_routing_key q = [] then q_name q else q_routing_key q, q_name q)"

definition clash :: "queue_def \<Rightarrow> broker \<Rightarrow> bool" where
  "clash q b \<longleftrightarrow> (\<exists>r\<in>set (bk_queues b). q_name r = q_name q \<and> r \<noteq> q)"

lemma declare_queues_Inr:
  "declare_queues qs b = Inr b' \<Longrightarrow>
   bk_exchanges b' = bk_exchanges b \<and> bk_queues b' = fold List.insert qs (bk_queues b) \<and>
   bk_bindings b' = fold List.insert (map own_binding qs) (bk_bindings b) \<and> (\<forall>q\<in>set qs. \<not> clash q b)"
proof (induction qs arbitrary: b)
  case (Cons q qs)
  let ?b = "bind_queue (x_name PAYMENTS_EXCHANGE) (if q_routing_key q = [] then q_name q else q_routing_key q) (q_name q)
    (b\<lparr>bk_queues := List.insert q (bk_queues b)\<rparr>)"
  from Cons.prems have first: "\<not> clash q b" and later: "declare_queues qs ?b = Inr b'"
    by (auto simp: bind_exn_Inr_iff declare_queue_def clash_def list_ex_iff split: if_splits)
  from Cons.IH [OF later] first show ?case
    by (auto simp: bind_queue_def own_binding_def clash_def)
qed simp

lemma declared:
  assumes "declare_topology b = Inr b'"
  shows "bk_exchanges b' = List.insert PAYMENTS_EXCHANGE (bk_exchanges b)"
    and "bk_queues b' = fold List.insert topology_queues (bk_queues b)"
    and "bk_bindings b' = fold List.insert (map own_binding topology_queues) (bk_bindings b)"
    and "\<forall>y\<in>set (bk_exchanges b). x_name y = x_name PAYMENTS_EXCHANGE \<longrightarrow> y = PAYMENTS_EXCHANGE"
    and "\<forall>q\<in>set topology_queues. \<not> clash q b"
  using assms declare_queues_Inr [of topology_queues "b\<lparr>bk_exchanges := List.insert PAYMENTS_EXCHANGE (bk_exchanges b)\<rparr>" b']
  by (auto simp: declare_topology_def declare_exchange_def bind_exn_Inr_iff clash_def list_ex_iff split: if_splits)

lemma own_bindings:
  "map own_binding topology_queues =
     map (\<lambda>k. (''payments'', k, k)) [''payments.new'', ''payments.new.retry'', ''payments.new.dlq'']"
  by (simp add: topology_queues_def NEW_QUEUE_def RETRY_QUEUE_def DLQ_QUEUE_def own_binding_def queue_names
      PAYMENTS_EXCHANGE_def PAYMENTS_EXCHANGE_NAME_def routing_keys)

text \<open>Nobody else has bound a queue to the service's exchange with one of its keys.\<close>

definition keys_unshared :: "broker \<Rightarrow> bool" where
  "keys_unshared b \<longleftrightarrow>
     (\<forall>(x, k, q)\<in>set (bk_bindings b). x = ''payments'' \<longrightarrow>
        k \<in> {''payments.new'', ''payments.new.retry'', ''payments.new.dlq''} \<longrightarrow> q = k)"

lemma set_route: "set (route b x k) = {q. (x, k, q) \<in> set (bk_bindings b)}"
  by (force simp: route_def)

lemma set_inserted: "set (fold List.insert xs ys) = set xs \<union> set ys"
  by (induction xs arbitrary: ys) auto

lemma own_route:
  assumes "keys_unshared b" and "declare_topology b = Inr b'"
    and "k \<in> {''payments.new'', ''payments.new.retry'', ''payments.new.dlq''}"
  shows "set (route b' ''payments'' k) = {k}"
  using assms(1,3)
  by (auto simp: set_route declared(3) [OF assms(2)] set_inserted own_bindings keys_unshared_def)

lemma foreign_route:
  assumes "declare_topology b = Inr b'"
    and "x \<noteq> ''payments'' \<or> k \<notin> {''payments.new'', ''payments.new.retry'', ''payments.new.dlq''}"
  shows "route b' x k = route b x k"
  using assms(2) by (auto simp: route_def declared(3) [OF assms(1)] own_bindings List.insert_def)

lemma declared_again:
  assumes "declare_topology b = Inr b'"
  shows "declare_topology b' = Inr b'"
proof -
  note d = declared [OF assms]
  have names: "q = r" if "q \<in> set topology_queues" "r \<in> set topology_queues" "q_name q = q_name r" for q r
    using that by (auto simp: topology_queues_def NEW_QUEUE_def RETRY_QUEUE_def DLQ_QUEUE_def queue_names routing_keys)
  have queue: "declare_queue q b' = Inr b'" if q: "q \<in> set topology_queues" for q
  proof -
    have "\<not> list_ex (\<lambda>r. q_name r = q_name q \<and> r \<noteq> q) (bk_queues b')"
      using q names d(5) by (auto simp: d(2) list_ex_iff set_inserted clash_def)
    moreover have "q \<in> set (bk_queues b')" using q by (simp add: d(2) set_inserted)
    ultimately show ?thesis by (simp add: declare_queue_def List.insert_def)
  qed
  have bound: "bind_queue (x_name PAYMENTS_EXCHANGE) (if q_routing_key q = [] then q_name q else q_routing_key q) (q_name q) b' = b'"
    if q: "q \<in> set topology_queues" for q
  proof -
    have "own_binding q \<in> set (bk_bindings b')" using q by (simp add: d(3) set_inserted)
    then show ?thesis by (simp add: bind_queue_def own_binding_def List.insert_def)
  qed
  have "declare_queues qs b' = Inr b'" if "set qs \<subseteq> set topology_queues" for qs
    using that by (induction qs) (simp_all add: queue bound)
  moreover have "declare_exchange PAYMENTS_EXCHANGE b' = Inr b'"
    using d(4) by (auto simp: declare_exchange_def d(1) list_ex_iff List.insert_def)
  ultimately show ?thesis by (simp add: declare_topology_def)
qed

section \<open>FastStreamPublisher\<close>

definition publisher_message ::
    "string \<Rightarrow> string \<Rightarrow> string \<Rightarrow> pydict option \<Rightarrow> int option \<Rightarrow> message" where
  "publisher_message exchange routing_key body headers expiration =
     \<lparr>m_exchange = exchange, m_routing_key = routing_key, m_body = body, m_headers = headers,
      m_expiration = expiration, m_persist = True, m_content_type = ''application/json''\<rparr>"

definition append_sent :: "message \<Rightarrow> world \<Rightarrow> world" where
  "append_sent m w = w\<lparr>w_sent := w_sent w @ [m]\<rparr>"

text \<open>
  \<open>publish\<close>: with publisher confirms a publication that returns has reached the broker; one that raises
  may have reached it too.
\<close>

definition publisher_publish ::
    "env \<Rightarrow> string \<Rightarrow> string \<Rightarrow> pydict option \<Rightarrow> int option \<Rightarrow> unit action" where
  "publisher_publish env routing_key body headers expiration =
     (let m = publisher_message (x_name PAYMENTS_EXCHANGE) routing_key body headers expiration
      in andthen (observe (e_publish env)) (\<lambda>outcome.
           case outcome of
             None \<Rightarrow> modifies (append_sent m)
           | Some (reached, e) \<Rightarrow>
               andthen (if reached then modifies (append_sent m) else ret ()) (\<lambda>_. raise e)))"

text \<open>A message about the outbox row \<open>i\<close> is with the broker.\<close>

definition delivered :: "message list \<Rightarrow> uuid \<Rightarrow> bool" where
  "delivered out i \<longleftrightarrow>
     (\<exists>m\<in>set out. m_routing_key m = NEW_ROUTING_KEY \<and>
        (case m_headers m of None \<Rightarrow> False | Some h \<Rightarrow> dict_get h OUTBOX_ID_HEADER = PStr (uuid_str i)))"

lemma delivered_mono: "delivered out i \<Longrightarrow> set out \<subseteq> set out' \<Longrightarrow> delivered out' i"
  by (auto simp: delivered_def)

lemma publish_Inr:
  "publisher_publish env k b h x w = (Inr u, w') \<Longrightarrow>
   w' = append_sent (publisher_message (x_name PAYMENTS_EXCHANGE) k b h x) (w\<lparr>w_tick := w_tick w + 1\<rparr>)"
  by (auto simp: publisher_publish_def prog_defs observe_def Let_def split: option.splits if_splits)

lemma publish_world:
  "publisher_publish env k b h x w = (r, w') \<Longrightarrow>
   w' = w\<lparr>w_tick := w_tick w + 1\<rparr> \<or>
   w' = append_sent (publisher_message (x_name PAYMENTS_EXCHANGE) k b h x) (w\<lparr>w_tick := w_tick w + 1\<rparr>)"
  by (auto simp: publisher_publish_def prog_defs observe_def Let_def split: option.splits if_splits)

section \<open>Properties\<close>

definition empty_broker :: broker where
  "empty_broker = \<lparr>bk_exchanges = [], bk_queues = [], bk_bindings = []\<rparr>"

text \<open>C11: On any broker where the topology could be declared and nobody else has bound a queue with the service's
  keys, no message of the service is dropped or duplicated: what is published with one of the three keys reaches
  exactly the queue of this name; a message that expires in the retry queue comes back to the new queue, one
  rejected from the new queue goes to the dead-letter queue, and only the dead-letter queue keeps its messages for
  good. What others have bound is untouched, and declaring again, as every process does at its start, changes
  nothing.\<close>

theorem topology_routes:
  assumes "declare_topology b = Inr b'" and "keys_unshared b"
  shows "set (route b' ''payments'' ''payments.new'') = {''payments.new''} \<and>
    set (route b' ''payments'' ''payments.new.retry'') = {''payments.new.retry''} \<and>
    set (route b' ''payments'' ''payments.new.dlq'') = {''payments.new.dlq''} \<and>
    set (dead_letter b' RETRY_QUEUE) = {''payments.new''} \<and>
    set (dead_letter b' NEW_QUEUE) = {''payments.new.dlq''} \<and>
    dead_letter b' DLQ_QUEUE = [] \<and>
    {RETRY_QUEUE, NEW_QUEUE, DLQ_QUEUE} \<subseteq> set (bk_queues b') \<and>
    (\<forall>x k. x \<noteq> ''payments'' \<or> k \<notin> {''payments.new'', ''payments.new.retry'', ''payments.new.dlq''} \<longrightarrow>
       route b' x k = route b x k) \<and>
    declare_topology b' = Inr b'"
proof -
  have "{RETRY_QUEUE, NEW_QUEUE, DLQ_QUEUE} \<subseteq> set (bk_queues b')"
    by (simp add: declared(2) [OF assms(1)] set_inserted topology_queues_def)
  moreover have "dead_letter b' RETRY_QUEUE = route b' ''payments'' ''payments.new''"
    "dead_letter b' NEW_QUEUE = route b' ''payments'' ''payments.new.dlq''" "dead_letter b' DLQ_QUEUE = []"
    by (simp_all add: dead_letter_def RETRY_QUEUE_def NEW_QUEUE_def DLQ_QUEUE_def dict_get_def routing_keys
        PAYMENTS_EXCHANGE_NAME_def)
  ultimately show ?thesis
    using own_route [OF assms(2,1)] foreign_route [OF assms(1)] declared_again [OF assms(1)] by simp
qed

text \<open>A broker with a queue of another service.\<close>

theorem topology_routes_witness:
  "\<exists>b'. declare_topology (empty_broker\<lparr>bk_bindings := [(''payments'', ''audit'', ''audit'')]\<rparr>) = Inr b' \<and>
     set (route b' ''payments'' ''payments.new'') = {''payments.new''} \<and> route b' ''payments'' ''audit'' = [''audit'']"
proof -
  let ?b = "empty_broker\<lparr>bk_bindings := [(''payments'', ''audit'', ''audit'')]\<rparr>"
  have "keys_unshared ?b" by (simp add: keys_unshared_def)
  moreover have "\<not> isl (declare_topology ?b)" by code_simp
  then obtain b' where "declare_topology ?b = Inr b'" by (cases "declare_topology ?b") auto
  moreover have "route ?b ''payments'' ''audit'' = [''audit'']" by code_simp
  ultimately show ?thesis using topology_routes [of ?b b'] by auto
qed

end
