(* ===== verification/Guarantee.thy ===== *)
theory Guarantee
  imports PaymentRepo OutboxRepo Messaging
begin

text \<open>
  What every process of the service relies on and guarantees about the shared database and broker: an
  invariant of the tables (\<open>tables_inv\<close>) and a relation between an earlier and a later state (\<open>persists\<close>).
  Each repository operation, the unit of work and the publisher keep both; the use cases are built from
  these facts with the rules of the logic in the prelude.
\<close>

section \<open>The invariant\<close>

definition row_terminal :: "payment_row \<Rightarrow> bool" where
  "row_terminal r \<longleftrightarrow> pr_status r = status_value SUCCEEDED \<or> pr_status r = status_value FAILED"

text \<open>The columns of a payment that are never written again.\<close>

definition frozen :: "payment_row \<Rightarrow> payment_row" where
  "frozen r = r\<lparr>pr_status := [], pr_processed_at := None\<rparr>"

definition payment_row_ok :: "payment_row \<Rightarrow> bool" where
  "payment_row_ok r \<longleftrightarrow> (case mapper_to_domain r of Inl e \<Rightarrow> False | Inr p \<Rightarrow> payment_ok p)"

text \<open>A terminal payment carries the outcome of its one recorded charge.\<close>

definition outcome_status :: "bool \<Rightarrow> payment_status" where
  "outcome_status ok = (if ok then SUCCEEDED else FAILED)"

definition settled_as_charged :: "tables \<Rightarrow> payment_row \<Rightarrow> bool" where
  "settled_as_charged d r \<longleftrightarrow>
     (row_terminal r \<longrightarrow>
       (case find_charge d (pr_id r) of None \<Rightarrow> False
        | Some c \<Rightarrow> pr_status r = status_value (outcome_status (ch_succeeded c))))"

text \<open>A row that says it has been published has been.\<close>

definition published_is_sent :: "message list \<Rightarrow> outbox_row \<Rightarrow> bool" where
  "published_is_sent out r \<longleftrightarrow> (ow_published_at r \<noteq> None \<longrightarrow> delivered out (ow_id r))"

definition tables_inv :: "tables \<Rightarrow> message list \<Rightarrow> bool" where
  "tables_inv d out \<longleftrightarrow>
     (payments.unique d \<and> distinct (map pr_key (t_payments d)) \<and> outbox.unique d \<and> inbox.unique d \<and>
      charges.unique d) \<and>
     list_all payment_row_ok (t_payments d) \<and>
     list_all (settled_as_charged d) (t_payments d) \<and>
     list_all (published_is_sent out) (t_outbox d)"

section \<open>The relation\<close>

definition payment_persists :: "payment_row \<Rightarrow> payment_row \<Rightarrow> bool" where
  "payment_persists r r' \<longleftrightarrow> frozen r' = frozen r \<and> (row_terminal r \<longrightarrow> r' = r)"

definition outbox_persists :: "outbox_row \<Rightarrow> outbox_row \<Rightarrow> bool" where
  "outbox_persists r r' \<longleftrightarrow>
     envelope r' = envelope r \<and> (ow_published_at r \<noteq> None \<longrightarrow> ow_published_at r' \<noteq> None)"

text \<open>
  Payments stay, and a terminal one never changes; charges and processed messages stay as they are; an
  outbox row stays until its event is with the broker; the broker's messages are only added to.
\<close>

definition payments_persist :: "tables \<Rightarrow> tables \<Rightarrow> bool" where
  "payments_persist d d' \<longleftrightarrow>
     (\<forall>i r. find_payment d i = Some r \<longrightarrow> (\<exists>r'. find_payment d' i = Some r' \<and> payment_persists r r'))"

definition outbox_rows_persist :: "tables \<Rightarrow> tables \<Rightarrow> message list \<Rightarrow> bool" where
  "outbox_rows_persist d d' out' \<longleftrightarrow>
     (\<forall>i r. find_outbox d i = Some r \<longrightarrow>
        (\<exists>r'. find_outbox d' i = Some r' \<and> outbox_persists r r') \<or> delivered out' i)"

definition charges_persist :: "tables \<Rightarrow> tables \<Rightarrow> bool" where
  "charges_persist d d' \<longleftrightarrow> (\<forall>i c. find_charge d i = Some c \<longrightarrow> find_charge d' i = Some c)"

definition inbox_persists :: "tables \<Rightarrow> tables \<Rightarrow> bool" where
  "inbox_persists d d' \<longleftrightarrow> (\<forall>i m. find_inbox d i = Some m \<longrightarrow> find_inbox d' i = Some m)"

definition persists :: "tables \<times> message list \<Rightarrow> tables \<times> message list \<Rightarrow> bool" where
  "persists S S' \<longleftrightarrow>
     set (snd S) \<subseteq> set (snd S') \<and> payments_persist (fst S) (fst S') \<and>
     outbox_rows_persist (fst S) (fst S') (snd S') \<and> charges_persist (fst S) (fst S') \<and>
     inbox_persists (fst S) (fst S')"

lemmas persist_defs =
  payments_persist_def outbox_rows_persist_def charges_persist_def inbox_persists_def

lemma payment_persists_refl [simp]: "payment_persists r r"
  by (simp add: payment_persists_def)

lemma payment_persists_trans:
  "payment_persists r s \<Longrightarrow> payment_persists s t \<Longrightarrow> payment_persists r t"
  by (auto simp: payment_persists_def)

lemma outbox_persists_refl [simp]: "outbox_persists r r"
  by (simp add: outbox_persists_def)

lemma outbox_persists_trans:
  "outbox_persists r s \<Longrightarrow> outbox_persists s t \<Longrightarrow> outbox_persists r t"
  by (auto simp: outbox_persists_def)

lemma persists_refl [simp]: "persists S S"
  by (auto simp: persists_def persist_defs)

lemma persists_trans:
  assumes "persists S T" and "persists T U"
  shows "persists S U"
proof -
  have "outbox_rows_persist (fst S) (fst U) (snd U)"
    unfolding outbox_rows_persist_def
  proof (intro allI impI)
    fix i r
    assume "find_outbox (fst S) i = Some r"
    then consider r' where "find_outbox (fst T) i = Some r'" "outbox_persists r r'" | "delivered (snd T) i"
      using assms(1) unfolding persists_def outbox_rows_persist_def by blast
    then show "(\<exists>r'. find_outbox (fst U) i = Some r' \<and> outbox_persists r r') \<or> delivered (snd U) i"
    proof cases
      case (1 r')
      then show ?thesis
        using assms(2) outbox_persists_trans [OF 1(2)]
        unfolding persists_def outbox_rows_persist_def by blast
    next
      case 2
      then show ?thesis using assms(2) delivered_mono by (auto simp: persists_def)
    qed
  qed
  moreover have "payments_persist (fst S) (fst U)"
    using assms payment_persists_trans unfolding persists_def payments_persist_def by meson
  moreover have "charges_persist (fst S) (fst U)" "inbox_persists (fst S) (fst U)"
    using assms by (auto simp: persists_def charges_persist_def inbox_persists_def)
  ultimately show ?thesis using assms by (auto simp: persists_def)
qed

lemma persists_mono_sent:
  "persists (d, out) (d', out) \<Longrightarrow> set out \<subseteq> set out' \<Longrightarrow> persists (d, out') (d', out')"
  using delivered_mono unfolding persists_def outbox_rows_persist_def fst_conv snd_conv by blast

lemma tables_inv_mono_sent: "tables_inv d out \<Longrightarrow> set out \<subseteq> set out' \<Longrightarrow> tables_inv d out'"
  using delivered_mono by (auto simp: tables_inv_def list_all_iff published_is_sent_def)

text \<open>What the other processes are relied on to do, and that the database scans the rows there are.\<close>

definition rely :: "env \<Rightarrow> bool" where
  "rely env \<longleftrightarrow>
     (\<forall>n d out. tables_inv d out \<longrightarrow>
        (case e_others env n (d, out) of (d', out') \<Rightarrow>
           tables_inv d' out' \<and> persists (d, out) (d', out'))) \<and>
     (\<forall>n rows. set (e_scan env n rows) = set rows)"

section \<open>Good worlds\<close>

definition shared :: "world \<Rightarrow> tables \<times> message list" where
  "shared w = (w_db w, w_sent w)"

definition session_good :: "world \<Rightarrow> uow_session \<Rightarrow> bool" where
  "session_good w s \<longleftrightarrow>
     tables_inv (s_view s) (w_sent w) \<and> persists (w_db w, w_sent w) (s_view s, w_sent w) \<and>
     list_all (\<lambda>r. ow_published_at r = None) (s_new s)"

definition good :: "world \<Rightarrow> bool" where
  "good w \<longleftrightarrow>
     tables_inv (w_db w) (w_sent w) \<and>
     (case w_session w of None \<Rightarrow> True | Some s \<Rightarrow> session_good w s)"

definition step :: "world \<Rightarrow> world \<Rightarrow> bool" where
  "step w w' \<longleftrightarrow> persists (shared w) (shared w')"

abbreviation holds :: "(world \<Rightarrow> bool) \<Rightarrow> 'a action \<Rightarrow> ('a \<Rightarrow> world \<Rightarrow> bool) \<Rightarrow> bool" where
  "holds \<equiv> hoare good step"

abbreviation safe :: "'a action \<Rightarrow> bool" where
  "safe m \<equiv> holds (\<lambda>_. True) m (\<lambda>_ _. True)"

interpretation logic: hoare_logic good step
  by unfold_locales (auto simp: step_def intro: persists_trans)

lemma safe_any: "safe m \<Longrightarrow> holds P m (\<lambda>_ _. True)"
  by (erule hoare_weaken) simp_all

lemma safe_ret [simp]: "safe (ret x)"
  by (rule hoare_weaken [OF logic.hoare_ret [of "\<lambda>_ _. True"]]) simp_all

lemma safe_raise [simp]: "holds P (raise e) Q"
  by (rule logic.hoare_raise)

lemma safe_lift_exn [simp]: "safe (lift_exn r)"
  by (rule hoare_weaken [OF logic.hoare_lift_exn [of _ "\<lambda>_ _. True"]]) simp_all

lemma safe_andthen: "safe m \<Longrightarrow> (\<And>x. safe (f x)) \<Longrightarrow> safe (andthen m f)"
  by (rule logic.hoare_andthen)

text \<open>Nothing shared changes when only the tick, the metrics or the local logs of the world do.\<close>

lemma good_cong:
  "w_db w' = w_db w \<Longrightarrow> w_sent w' = w_sent w \<Longrightarrow> w_session w' = w_session w \<Longrightarrow> good w' = good w"
  by (simp add: good_def session_good_def split: option.split)

lemma step_cong: "w_db w' = w_db w \<Longrightarrow> w_sent w' = w_sent w \<Longrightarrow> step w w'"
  by (simp add: step_def shared_def)

lemma good_local [simp]:
  "good (w\<lparr>w_tick := n\<rparr>) = good w" "good (w\<lparr>w_metrics := ms\<rparr>) = good w"
  "good (w\<lparr>w_posts := ps\<rparr>) = good w" "good (w\<lparr>w_settled := ss\<rparr>) = good w"
  by (rule good_cong; simp)+

lemma step_local [simp]:
  "step w (w\<lparr>w_tick := n\<rparr>)" "step w (w\<lparr>w_metrics := ms\<rparr>)" "step w (w\<lparr>w_posts := ps\<rparr>)"
  "step w (w\<lparr>w_settled := ss\<rparr>)" "step w (w\<lparr>w_session := se\<rparr>)" "step w w"
  by (rule step_cong; simp)+

lemma step_payment:
  "step w w' \<Longrightarrow> find_payment (w_db w) i = Some r \<Longrightarrow>
   \<exists>r'. find_payment (w_db w') i = Some r' \<and> payment_persists r r'"
  unfolding step_def shared_def persists_def payments_persist_def fst_conv snd_conv by blast

lemma holds_modifies_local:
  assumes "\<And>w. w_db (f w) = w_db w" "\<And>w. w_sent (f w) = w_sent w" "\<And>w. w_session (f w) = w_session w"
  shows "safe (modifies f)"
proof (rule hoareI)
  fix w r w'
  assume w: "good w" and "modifies f w = (r, w')"
  then have "w' = f w" by (simp add: modifies_def)
  then show "good w' \<and> step w w' \<and> (\<forall>x. r = Inr x \<longrightarrow> True)"
    using w good_cong [of "f w" w] step_cong [of "f w" w] assms by simp
qed

lemma safe_observe [simp]: "safe (observe f)"
  by (rule hoareI) (auto simp: observe_def)

lemma safe_observations [simp]:
  "safe (clock_now env)" "safe (uuid4 env)" "safe (random_random env)" "safe (perf_counter env)"
  by (simp_all add: clock_now_def uuid4_def random_random_def perf_counter_def)

lemma safe_may_fail [simp]: "safe (may_fail f)"
  unfolding may_fail_def
  by (rule safe_andthen) (auto split: option.split)

lemma safe_statement [simp]: "safe (statement env)"
  by (simp add: statement_def)

section \<open>Sessions and units of work\<close>

text \<open>A change of the tables that is allowed to a transaction, for what the broker has.\<close>

definition allowed :: "message list \<Rightarrow> tables \<Rightarrow> tables \<Rightarrow> bool" where
  "allowed out v v' \<longleftrightarrow> tables_inv v' out \<and> persists (v, out) (v', out)"

lemma allowed_refl: "tables_inv v out \<Longrightarrow> allowed out v v"
  by (simp add: allowed_def)

lemma good_view: "good w \<Longrightarrow> w_session w = Some s \<Longrightarrow> session_good w s"
  by (simp add: good_def)

lemma good_set_view:
  assumes "good w" and s: "w_session w = Some s" and "allowed (w_sent w) (s_view s) v"
    and "list_all (\<lambda>r. ow_published_at r = None) new"
  shows "good (w\<lparr>w_session := Some (s\<lparr>s_view := v, s_new := new\<rparr>)\<rparr>)"
  using assms good_view [OF assms(1) s] persists_trans
  by (auto simp: good_def session_good_def allowed_def)

lemma holds_run_sql:
  assumes f: "\<And>w s r v'. good w \<Longrightarrow> P w \<Longrightarrow> w_session w = Some s \<Longrightarrow> f (s_view s) = (r, v') \<Longrightarrow>
      allowed (w_sent w) (s_view s) v' \<and> (\<forall>x. r = Inr x \<longrightarrow> Q x (w\<lparr>w_session := Some (s\<lparr>s_view := v'\<rparr>)\<rparr>))"
  shows "holds P (run_sql f) Q"
proof (rule hoareI)
  fix w r w'
  assume w: "good w" "P w" and run: "run_sql f w = (r, w')"
  show "good w' \<and> step w w' \<and> (\<forall>x. r = Inr x \<longrightarrow> Q x w')"
  proof (cases "w_session w")
    case None
    with run w show ?thesis by (auto simp: run_sql_def)
  next
    case (Some s)
    obtain r1 v' where eq: "f (s_view s) = (r1, v')" by fastforce
    with run Some have r: "r = r1" "w' = w\<lparr>w_session := Some (s\<lparr>s_view := v'\<rparr>)\<rparr>"
      by (auto simp: run_sql_def)
    note ok = f [OF w Some eq]
    have "list_all (\<lambda>r. ow_published_at r = None) (s_new s)"
      using good_view [OF w(1) Some] by (simp add: session_good_def)
    with good_set_view [OF w(1) Some conjunct1 [OF ok]]
    have "good (w\<lparr>w_session := Some (s\<lparr>s_view := v', s_new := s_new s\<rparr>)\<rparr>)" by blast
    with ok r show ?thesis by simp
  qed
qed

lemma safe_run_sql:
  assumes "\<And>v r v' out. tables_inv v out \<Longrightarrow> f v = (r, v') \<Longrightarrow> allowed out v v'"
  shows "safe (run_sql f)"
  by (rule holds_run_sql) (use assms good_view in \<open>fastforce simp: session_good_def\<close>)

lemma safe_query [simp]: "safe (query env f)"
  unfolding query_def
  by (intro safe_andthen safe_statement safe_run_sql) (auto simp: allowed_refl)

lemma safe_update:
  assumes "\<And>v out. tables_inv v out \<Longrightarrow> allowed out v (f v)"
  shows "safe (update env f)"
  unfolding update_def
  by (intro safe_andthen safe_statement safe_run_sql) (use assms in auto)

text \<open>A query returns what the transaction sees.\<close>

definition sees :: "world \<Rightarrow> tables \<Rightarrow> bool" where
  "sees w v \<longleftrightarrow> (\<exists>s. w_session w = Some s \<and> s_view s = v)"

lemma holds_query:
  assumes "\<And>w v x. P w \<Longrightarrow> good w \<Longrightarrow> sees w v \<Longrightarrow> tables_inv v (w_sent w) \<Longrightarrow>
      persists (w_db w, w_sent w) (v, w_sent w) \<Longrightarrow> f v = Inr x \<Longrightarrow> Q x w"
    and tick: "\<And>w n. P w \<Longrightarrow> P (w\<lparr>w_tick := n\<rparr>)"
  shows "holds P (query env f) Q"
  unfolding query_def
proof (rule logic.hoare_andthen)
  show "holds P (statement env) (\<lambda>_. P)"
  proof (rule hoareI)
    fix w r w'
    assume "good w" "P w" and run: "statement env w = (r, w')"
    then have "w' = w\<lparr>w_tick := w_tick w + 1\<rparr>"
      by (auto simp: statement_def may_fail_def observe_def prog_defs split: option.splits)
    with \<open>good w\<close> \<open>P w\<close> tick show "good w' \<and> step w w' \<and> (\<forall>x. r = Inr x \<longrightarrow> P w')"
      by simp
  qed
  show "holds P (run_sql (\<lambda>v. (f v, v))) Q"
  proof (rule holds_run_sql)
    fix w s r v'
    assume w: "good w" "P w" "w_session w = Some s" and "(f (s_view s), s_view s) = (r, v')"
    then have eq: "v' = s_view s" "r = f (s_view s)" by auto
    have same: "w\<lparr>w_session := Some (s\<lparr>s_view := s_view s\<rparr>)\<rparr> = w" using w(3) by (cases w) simp
    have "session_good w s" using w good_view by blast
    then have inv: "tables_inv (s_view s) (w_sent w)" "persists (w_db w, w_sent w) (s_view s, w_sent w)"
      by (simp_all add: session_good_def)
    moreover have "sees w (s_view s)" using w(3) by (simp add: sees_def)
    ultimately show "allowed (w_sent w) (s_view s) v' \<and>
        (\<forall>x. r = Inr x \<longrightarrow> Q x (w\<lparr>w_session := Some (s\<lparr>s_view := v'\<rparr>)\<rparr>))"
      using assms(1) [OF w(2,1)] unfolding eq same by (blast intro: allowed_refl)
  qed
qed

lemma safe_require_session [simp]: "safe require_session"
  by (rule hoareI) (auto simp: require_session_def split: if_splits)

lemma good_close: "good w \<Longrightarrow> good (close_session w)"
  by (simp add: good_def close_session_def)

lemma good_abandon: "good w \<Longrightarrow> good (abandon_changes w)"
  by (auto simp: good_def abandon_changes_def session_good_def split: option.splits)

lemma step_abandon: "step w (abandon_changes w)"
  by (simp add: abandon_changes_def)

lemma exit_world:
  assumes "uow_exit env failed w = (r, w')"
  shows "w_db w' = w_db w" "w_sent w' = w_sent w" "good w \<Longrightarrow> good w'"
  using assms
  by (auto simp: uow_exit_def uow_rollback_def require_session_def statement_def may_fail_def
      observe_def prog_defs abandon_changes_def close_session_def good_def session_good_def
      split: option.splits if_splits)

definition fresh_session :: "world \<Rightarrow> bool" where
  "fresh_session w \<longleftrightarrow> w_session w = Some \<lparr>s_view = w_db w, s_new = []\<rparr>"

lemma open_session_good:
  assumes "rely env" and w: "good w"
  shows "good (open_session env w)" "step w (open_session env w)" "fresh_session (open_session env w)"
proof -
  obtain d out where eq: "e_others env (w_tick w) (w_db w, w_sent w) = (d, out)" by fastforce
  have "tables_inv (w_db w) (w_sent w)" using w by (simp add: good_def)
  then have "tables_inv d out" "persists (w_db w, w_sent w) (d, out)"
    using assms(1) eq by (auto simp: rely_def split: prod.splits)
  then show "good (open_session env w)" "step w (open_session env w)" "fresh_session (open_session env w)"
    by (simp_all add: open_session_def eq good_def session_good_def step_def shared_def fresh_session_def)
qed

lemma holds_with_session:
  assumes env: "rely env"
    and leave: "\<And>failed w r w'. leave failed w = (r, w') \<Longrightarrow> good w \<Longrightarrow>
      good w' \<and> w_db w' = w_db w \<and> w_sent w' = w_sent w"
    and body: "holds (\<lambda>w. P w \<and> fresh_session w) body Q"
    and stable: "\<And>w w'. P w \<Longrightarrow> good w' \<Longrightarrow> step w w' \<Longrightarrow> P w'"
    and local: "\<And>x w w'. Q x w \<Longrightarrow> w_db w' = w_db w \<Longrightarrow> w_sent w' = w_sent w \<Longrightarrow> Q x w'"
  shows "holds P (with_session env leave body) Q"
proof (rule hoareI)
  fix w r w'
  assume w: "good w" "P w" and run: "with_session env leave body w = (r, w')"
  note opened = open_session_good [OF env w(1)]
  obtain r1 w1 where eq: "body (open_session env w) = (r1, w1)" by fastforce
  have "P (open_session env w) \<and> fresh_session (open_session env w)"
    using stable w(2) opened by blast
  note ran = hoareD [OF body opened(1) this eq]
  obtain r2 w2 where eq2: "leave (isl r1) w1 = (r2, w2)" by fastforce
  note left = leave [OF eq2 ran(1)]
  have w': "w' = close_session w2" "r = r1 \<or> isl r"
    using run eq eq2 by (auto simp: with_session_def split: sum.splits)
  have same: "w_db w' = w_db w1" "w_sent w' = w_sent w1" using left by (simp_all add: w' close_session_def)
  have "good w'" using left good_close w' by blast
  moreover have "step w w'"
    using opened(2) ran(2) same by (auto simp: step_def shared_def intro: persists_trans)
  moreover have "Q x w'" if "r = Inr x" for x
    using that w'(2) ran(3) local [OF _ same] by auto
  ultimately show "good w' \<and> step w w' \<and> (\<forall>x. r = Inr x \<longrightarrow> Q x w')" by blast
qed

lemma statement_world: "statement env w = (r, w') \<Longrightarrow> w' = w\<lparr>w_tick := w_tick w + 1\<rparr>"
  by (auto simp: statement_def may_fail_def observe_def prog_defs split: option.splits)

lemma holds_in_uow:
  assumes "rely env" and "holds (\<lambda>w. P w \<and> fresh_session w) body Q"
    and "\<And>w w'. P w \<Longrightarrow> good w' \<Longrightarrow> step w w' \<Longrightarrow> P w'"
    and "\<And>x w w'. Q x w \<Longrightarrow> w_db w' = w_db w \<Longrightarrow> w_sent w' = w_sent w \<Longrightarrow> Q x w'"
  shows "holds P (in_uow env body) Q"
  unfolding in_uow_def
  by (rule holds_with_session [OF assms(1) _ assms(2)])
    (use assms(3,4) exit_world in \<open>blast+\<close>)

lemma holds_in_session:
  assumes "rely env" and "holds (\<lambda>w. P w \<and> fresh_session w) body Q"
    and "\<And>w w'. P w \<Longrightarrow> good w' \<Longrightarrow> step w w' \<Longrightarrow> P w'"
    and "\<And>x w w'. Q x w \<Longrightarrow> w_db w' = w_db w \<Longrightarrow> w_sent w' = w_sent w \<Longrightarrow> Q x w'"
  shows "holds P (in_session env body) Q"
  unfolding in_session_def
  by (rule holds_with_session [OF assms(1) _ assms(2)])
    (use assms(3,4) in \<open>auto dest!: statement_world\<close>)

lemma safe_in_uow: "rely env \<Longrightarrow> safe body \<Longrightarrow> safe (in_uow env body)"
  by (rule holds_in_uow) (auto intro: hoare_weaken)

section \<open>What the repositories may change\<close>

lemma settled_other [simp]:
  "settled_as_charged (v\<lparr>t_outbox := xs\<rparr>) = settled_as_charged v"
  "settled_as_charged (v\<lparr>t_inbox := ys\<rparr>) = settled_as_charged v"
  "settled_as_charged (v\<lparr>t_payments := ps\<rparr>) = settled_as_charged v"
  by (simp_all add: settled_as_charged_def fun_eq_iff)

lemma unique_other [simp]:
  "payments.unique (v\<lparr>t_outbox := xs\<rparr>) = payments.unique v"
  "payments.unique (v\<lparr>t_inbox := ys\<rparr>) = payments.unique v"
  "payments.unique (v\<lparr>t_charges := zs\<rparr>) = payments.unique v"
  "outbox.unique (v\<lparr>t_payments := ps\<rparr>) = outbox.unique v"
  "outbox.unique (v\<lparr>t_inbox := ys\<rparr>) = outbox.unique v"
  "outbox.unique (v\<lparr>t_charges := zs\<rparr>) = outbox.unique v"
  "inbox.unique (v\<lparr>t_payments := ps\<rparr>) = inbox.unique v"
  "inbox.unique (v\<lparr>t_outbox := xs\<rparr>) = inbox.unique v"
  "inbox.unique (v\<lparr>t_charges := zs\<rparr>) = inbox.unique v"
  "charges.unique (v\<lparr>t_payments := ps\<rparr>) = charges.unique v"
  "charges.unique (v\<lparr>t_outbox := xs\<rparr>) = charges.unique v"
  "charges.unique (v\<lparr>t_inbox := ys\<rparr>) = charges.unique v"
  by (simp_all add: payments.unique_def outbox.unique_def inbox.unique_def charges.unique_def)

lemma allowed_outbox:
  assumes "tables_inv v out" and "outbox.unique (v\<lparr>t_outbox := xs\<rparr>)"
    and "list_all (published_is_sent out) xs" and "outbox_rows_persist v (v\<lparr>t_outbox := xs\<rparr>) out"
  shows "allowed out v (v\<lparr>t_outbox := xs\<rparr>)"
  using assms
  by (auto simp: allowed_def tables_inv_def persists_def persist_defs)

lemma allowed_insert_outbox:
  assumes inv: "tables_inv v out" and ins: "insert_outbox_row env r v = Inr v'"
    and unpublished: "ow_published_at r = None"
  shows "allowed out v v'"
proof -
  obtain payload where new: "find_outbox v (ow_id r) = None"
    and v': "v' = v\<lparr>t_outbox := t_outbox v @ [r\<lparr>ow_payload := payload\<rparr>]\<rparr>"
    using ins by (auto simp: insert_outbox_row_def bind_exn_Inr_iff split: if_splits)
  show ?thesis unfolding v'
  proof (rule allowed_outbox [OF inv])
    show "outbox.unique (v\<lparr>t_outbox := t_outbox v @ [r\<lparr>ow_payload := payload\<rparr>]\<rparr>)"
      using inv new by (intro outbox.unique_append) (simp_all add: tables_inv_def)
    show "list_all (published_is_sent out) (t_outbox v @ [r\<lparr>ow_payload := payload\<rparr>])"
      using inv unpublished by (simp add: tables_inv_def published_is_sent_def)
    show "outbox_rows_persist v (v\<lparr>t_outbox := t_outbox v @ [r\<lparr>ow_payload := payload\<rparr>]\<rparr>) out"
      using outbox.lookup_append [of v "r\<lparr>ow_payload := payload\<rparr>"]
      by (auto simp: outbox_rows_persist_def)
  qed
qed

lemma allowed_trans: "allowed out u v \<Longrightarrow> allowed out v w \<Longrightarrow> allowed out u w"
  by (auto simp: allowed_def intro: persists_trans)

lemma allowed_insert_rows:
  "tables_inv v out \<Longrightarrow> insert_outbox_rows env rs v = Inr v' \<Longrightarrow>
   list_all (\<lambda>r. ow_published_at r = None) rs \<Longrightarrow> allowed out v v'"
proof (induction rs arbitrary: v)
  case Nil
  then show ?case by (simp add: allowed_refl)
next
  case (Cons r rs)
  then obtain u where u: "insert_outbox_row env r v = Inr u" "insert_outbox_rows env rs u = Inr v'"
    by (auto simp: bind_exn_Inr_iff)
  have "allowed out v u"
    by (rule allowed_insert_outbox [OF Cons.prems(1) u(1)]) (use Cons.prems(3) in simp)
  moreover from this have "allowed out u v'"
    by (intro Cons.IH [OF _ u(2)]) (use Cons.prems(3) in \<open>simp_all add: allowed_def\<close>)
  ultimately show ?case by (rule allowed_trans)
qed

lemma safe_flush [simp]: "safe (flush env)"
  unfolding flush_def
proof (intro safe_andthen safe_statement, rule hoareI)
  fix w r w' x
  assume w: "good w" and run: "flush_rows env w = (r, w')"
  show "good w' \<and> step w w' \<and> (\<forall>x. r = Inr x \<longrightarrow> True)"
  proof (cases "w_session w")
    case None
    with run w show ?thesis by (simp add: flush_rows_def)
  next
    case (Some s)
    show ?thesis
    proof (cases "insert_outbox_rows env (s_new s) (s_view s)")
      case (Inl e)
      with run w Some show ?thesis by (simp add: flush_rows_def)
    next
      case (Inr v)
      have "session_good w s" using w Some good_view by blast
      then have "allowed (w_sent w) (s_view s) v"
        using allowed_insert_rows [OF _ Inr] by (simp add: session_good_def)
      then have "good (w\<lparr>w_session := Some (s\<lparr>s_view := v, s_new := []\<rparr>)\<rparr>)"
        using w Some by (intro good_set_view) simp_all
      moreover have "s\<lparr>s_view := v, s_new := []\<rparr> = \<lparr>s_view = v, s_new = []\<rparr>" by simp
      ultimately show ?thesis using run Some Inr by (auto simp: flush_rows_def)
    qed
  qed
qed

lemma good_apply: "good w \<Longrightarrow> good (apply_transaction w) \<and> step w (apply_transaction w)"
  by (auto simp: good_def apply_transaction_def session_good_def step_def shared_def split: option.splits)

lemma safe_commit_transaction [simp]: "safe (commit_transaction env)"
proof -
  have "safe (modifies apply_transaction)"
    by (rule hoareI) (auto simp: modifies_def good_apply)
  then show ?thesis
    unfolding commit_transaction_def
    by (intro safe_andthen safe_observe) (auto intro!: safe_andthen split: option.split)
qed

lemma holds_commit_transaction:
  "holds (\<lambda>w. \<exists>v. sees w v \<and> R v) (commit_transaction env) (\<lambda>_ w. R (w_db w))"
proof (rule hoareI)
  fix w r w'
  assume w: "good w" "\<exists>v. sees w v \<and> R v" and run: "commit_transaction env w = (r, w')"
  have "R (w_db w')" if "r = Inr ()"
    using w(2) run that
    by (auto simp: commit_transaction_def observe_def prog_defs sees_def apply_transaction_def
        split: option.splits if_splits)
  moreover have "good w' \<and> step w w'"
    using hoareD [OF safe_commit_transaction w(1) TrueI run] by blast
  ultimately show "good w' \<and> step w w' \<and> (\<forall>x. r = Inr x \<longrightarrow> R (w_db w'))" by simp
qed

lemma holds_begin_block:
  assumes "holds P body (\<lambda>x w. \<exists>v. sees w v \<and> R x v)"
  shows "holds P (begin_block env body) (\<lambda>x w. R x (w_db w))"
proof (rule hoareI)
  fix w r w'
  assume w: "good w" "P w" and run: "begin_block env body w = (r, w')"
  obtain r1 w1 where eq: "body w = (r1, w1)" by fastforce
  note ran = hoareD [OF assms w eq]
  show "good w' \<and> step w w' \<and> (\<forall>x. r = Inr x \<longrightarrow> R x (w_db w'))"
  proof (cases r1)
    case (Inl e)
    let ?undo = "andthen (andthen (statement env) (\<lambda>_. modifies abandon_changes)) (\<lambda>_. raise e)"
    have final: "?undo w1 = (r, w')" using run eq Inl by (simp add: begin_block_def)
    have "safe (modifies abandon_changes)"
      by (rule hoareI) (auto simp: modifies_def good_abandon step_abandon)
    then have "holds (\<lambda>_. True) ?undo (\<lambda>x w. R x (w_db w))"
      by (intro logic.hoare_bind safe_andthen) simp_all
    from hoareD [OF this ran(1) TrueI final] show ?thesis
      using logic.step_trans [OF ran(2)] by blast
  next
    case (Inr x)
    then have final: "andthen (commit_transaction env) (\<lambda>_. ret x) w1 = (r, w')"
      using run eq by (simp add: begin_block_def)
    have "holds (\<lambda>w. \<exists>v. sees w v \<and> R x v) (andthen (commit_transaction env) (\<lambda>_. ret x))
        (\<lambda>y w. R y (w_db w))"
      by (rule logic.hoare_andthen [OF holds_commit_transaction])
        (rule hoare_weaken [OF logic.hoare_ret], simp_all)
    from hoareD [OF this ran(1) ran(3) [OF Inr] final] show ?thesis
      using logic.step_trans [OF ran(2)] by blast
  qed
qed

lemma safe_commit [simp]: "safe (uow_commit env)"
  by (simp add: uow_commit_def safe_andthen)

lemma persists_more_sent: "set out \<subseteq> set out' \<Longrightarrow> persists (d, out) (d, out')"
  by (auto simp: persists_def persist_defs)

lemma safe_publish:
  assumes w: "w_session w = None" "good w" and run: "publisher_publish env k b h x w = (r, w')"
  shows "good w'" "step w w'" "w_session w' = None"
proof -
  let ?m = "publisher_message (x_name PAYMENTS_EXCHANGE) k b h x"
  have more: "set (w_sent w) \<subseteq> set (w_sent w @ [?m])" by auto
  then have "good (w\<lparr>w_sent := w_sent w @ [?m]\<rparr>)"
    using w tables_inv_mono_sent [OF _ more] by (simp add: good_def)
  moreover have "step w (w\<lparr>w_sent := w_sent w @ [?m]\<rparr>)"
    using persists_more_sent [OF more] by (simp add: step_def shared_def)
  ultimately show "good w'" "step w w'" "w_session w' = None"
    using publish_world [OF run] w
    by (auto simp: append_sent_def step_def shared_def good_def)
qed

section \<open>Payments\<close>

lemma find_payment_persists: "payments_persist v (v\<lparr>t_outbox := xs\<rparr>)"
  by (simp add: payments_persist_def)

lemma allowed_payments:
  assumes "tables_inv v out" and "payments.unique (v\<lparr>t_payments := ps\<rparr>)" and "distinct (map pr_key ps)"
    and "list_all payment_row_ok ps" and "list_all (settled_as_charged v) ps"
    and "payments_persist v (v\<lparr>t_payments := ps\<rparr>)"
  shows "allowed out v (v\<lparr>t_payments := ps\<rparr>)"
  using assms by (auto simp: allowed_def tables_inv_def persists_def persist_defs)

lemma allowed_insert_payment:
  assumes inv: "tables_inv v out" and p: "payment_ok p" "\<not> is_terminal p"
    and ins: "insert_payment env p v = (r, v')"
  shows "allowed out v v'"
proof (cases "\<exists>row. mapper_to_model env p = Inr row \<and> find_payment v (pr_id row) = None \<and>
     pr_key row \<notin> pr_key ` set (t_payments v)")
  case False
  then have "v' = v" using ins by (auto simp: insert_payment_def split: sum.splits if_splits)
  with inv show ?thesis by (simp add: allowed_refl)
next
  case True
  then obtain row where row: "mapper_to_model env p = Inr row" "find_payment v (pr_id row) = None"
    "pr_key row \<notin> pr_key ` set (t_payments v)" by blast
  then have v': "v' = v\<lparr>t_payments := t_payments v @ [row]\<rparr>"
    using ins by (auto simp: insert_payment_def)
  obtain extra where dom: "mapper_to_domain row = Inr (p\<lparr>p_metadata := extra\<rparr>)"
    using mapper_round_trip [OF row(1) p(1)] by blast
  have "pr_status row = status_value (p_status p)"
    using row(1) unfolding mapper_to_model_def by (elim mapper_apply_Inr) simp
  then have pending: "\<not> row_terminal row"
    using p(2) by (cases "p_status p") (simp_all add: row_terminal_def is_terminal_def)
  show ?thesis unfolding v'
  proof (rule allowed_payments [OF inv])
    show "payments.unique (v\<lparr>t_payments := t_payments v @ [row]\<rparr>)"
      using inv row(2) by (intro payments.unique_append) (simp_all add: tables_inv_def)
    show "distinct (map pr_key (t_payments v @ [row]))"
      using inv row(3) by (simp add: tables_inv_def)
    show "list_all payment_row_ok (t_payments v @ [row])"
      using inv dom p(1) by (simp add: tables_inv_def payment_row_ok_def payment_ok_def)
    show "list_all (settled_as_charged v) (t_payments v @ [row])"
      using inv pending by (simp add: tables_inv_def settled_as_charged_def)
    show "payments_persist v (v\<lparr>t_payments := t_payments v @ [row]\<rparr>)"
      using payments.lookup_append [of v row] by (simp add: payments_persist_def)
  qed
qed

text \<open>The completion of a pending payment by the outcome of its charge.\<close>

definition completed :: "bool \<Rightarrow> time \<Rightarrow> payment_row \<Rightarrow> payment_row" where
  "completed ok t row = row\<lparr>pr_status := status_value (outcome_status ok), pr_processed_at := Some t\<rparr>"

lemma completed_row_ok:
  assumes "payment_row_ok row"
  shows "payment_row_ok (completed ok t row)"
proof -
  obtain p where dom: "mapper_to_domain row = Inr p" and p: "payment_ok p"
    using assms by (auto simp: payment_row_ok_def split: sum.splits)
  have "mapper_to_domain (completed ok t row) =
      Inr (p\<lparr>p_status := outcome_status ok, p_processed_at := Some t\<rparr>)"
    using dom
    by (auto simp: mapper_to_domain_def completed_def bind_exn_Inr_iff payment_reconstitute_def
        split: option.splits)
  moreover have "payment_ok (p\<lparr>p_status := outcome_status ok, p_processed_at := Some t\<rparr>)"
    using p by (simp add: payment_ok_def outcome_status_def)
  ultimately show ?thesis by (simp add: payment_row_ok_def)
qed

lemma allowed_complete:
  assumes inv: "tables_inv v out" and row: "find_payment v i = Some row" "\<not> row_terminal row"
    and c: "find_charge v i = Some c" "ch_succeeded c = ok"
    and upd: "update_rows (\<lambda>r. pr_id r = i) (\<lambda>_. completed ok t row) (t_payments v) = ps"
  shows "allowed out v (v\<lparr>t_payments := ps\<rparr>)"
proof -
  have key: "pr_id row = i" and mem: "row \<in> set (t_payments v)" using payments.lookup_key [OF row(1)] by auto
  have only: "r = row" if "r \<in> set (t_payments v)" "pr_id r = i" for r
    using payments.lookup_in [OF _ that(1)] inv that(2) row(1) by (simp add: tables_inv_def)
  let ?f = "\<lambda>r. if pr_id r = i then completed ok t r else r"
  have ps: "ps = map ?f (t_payments v)"
    using only upd by (auto simp: update_rows_def)
  have id: "pr_id (?f r) = pr_id r" for r by (simp add: completed_def)
  show ?thesis
  proof (rule allowed_payments [OF inv])
    show "payments.unique (v\<lparr>t_payments := ps\<rparr>)"
      using inv payments.unique_map [of ?f v, OF id] by (simp add: ps tables_inv_def)
    have "map pr_key ps = map pr_key (t_payments v)" by (simp add: ps completed_def)
    then show "distinct (map pr_key ps)" using inv by (simp add: tables_inv_def)
    show "list_all payment_row_ok ps"
      using inv completed_row_ok by (auto simp: ps tables_inv_def list_all_iff)
    show "list_all (settled_as_charged v) ps"
      using inv c key
      by (auto simp: ps tables_inv_def list_all_iff settled_as_charged_def completed_def)
    show "payments_persist v (v\<lparr>t_payments := ps\<rparr>)"
      unfolding payments_persist_def
    proof (intro allI impI)
      fix j r
      assume j: "find_payment v j = Some r"
      then have "pr_id r = j" using payments.lookup_key by blast
      then have "payment_persists r (?f r)"
        using j row by (auto simp: payment_persists_def frozen_def completed_def)
      moreover have "find_payment (v\<lparr>t_payments := ps\<rparr>) j = Some (?f r)"
        using payments.lookup_map [of ?f v, OF id] j by (simp add: ps)
      ultimately show "\<exists>r'. find_payment (v\<lparr>t_payments := ps\<rparr>) j = Some r' \<and> payment_persists r r'"
        by blast
    qed
  qed
qed

section \<open>The other tables\<close>

lemma allowed_insert_inbox: "tables_inv v out \<Longrightarrow> allowed out v (insert_inbox i t v)"
  using inbox.unique_append [of v "\<lparr>ib_message_id = i, ib_processed_at = t\<rparr>"]
    inbox.lookup_append [of v "\<lparr>ib_message_id = i, ib_processed_at = t\<rparr>"]
  by (auto simp: insert_inbox_def allowed_def tables_inv_def persists_def persist_defs)

lemma outbox_update_persists:
  assumes "outbox_row_update f"
  shows "outbox_rows_persist v (update_outbox P f v) out"
  using outbox_row_update.row_persists [OF assms] unfolding outbox_rows_persist_def outbox_persists_def
  by blast

lemma allowed_outbox_update:
  assumes f: "outbox_row_update f" and inv: "tables_inv v out"
    and sent: "\<And>r. r \<in> set (t_outbox v) \<Longrightarrow> P r \<Longrightarrow> published_is_sent out (f r)"
  shows "allowed out v (update_outbox P f v)"
  unfolding update_outbox_def
proof (rule allowed_outbox [OF inv])
  show "outbox.unique (v\<lparr>t_outbox := update_rows P f (t_outbox v)\<rparr>)"
    using outbox_row_update.unique_after [OF f] inv by (simp add: update_outbox_def tables_inv_def)
  show "list_all (published_is_sent out) (update_rows P f (t_outbox v))"
    using inv sent by (auto simp: tables_inv_def list_all_iff update_rows_def)
  show "outbox_rows_persist v (v\<lparr>t_outbox := update_rows P f (t_outbox v)\<rparr>) out"
    using outbox_update_persists [OF f] by (simp add: update_outbox_def)
qed

lemma allowed_quiet_update:
  assumes f: "quiet_row_update f" and inv: "tables_inv v out"
  shows "allowed out v (update_outbox P f v)"
proof (rule allowed_outbox_update [OF _ inv])
  show "outbox_row_update f" using f by (simp add: quiet_row_update_def)
  then have "ow_id (f r) = ow_id r" for r by (rule outbox_row_update.keeps_id)
  moreover have "ow_published_at (f r) = ow_published_at r" for r
    using f by (rule quiet_row_update.same_published)
  ultimately show "published_is_sent out (f r)" if "r \<in> set (t_outbox v)" for r
    using inv that by (auto simp: tables_inv_def list_all_iff published_is_sent_def)
qed

lemma allowed_processed:
  assumes inv: "tables_inv v out" and sent: "delivered out i"
  shows "allowed out v (update_outbox (\<lambda>r. ow_id r = i) (processed_row t) v)"
  by (rule allowed_outbox_update [OF processed.outbox_row_update_axioms inv])
    (simp add: published_is_sent_def processed.keeps_id sent)

lemma allowed_delete:
  assumes inv: "tables_inv v out" and ids: "\<And>i. i \<in> set ids \<Longrightarrow> delivered out i"
  shows "allowed out v (delete_outbox ids v)"
proof -
  have u: "outbox.unique v" using inv by (simp add: tables_inv_def)
  show ?thesis unfolding delete_outbox_def
  proof (rule allowed_outbox [OF inv])
    show "outbox.unique (v\<lparr>t_outbox := filter (\<lambda>r. ow_id r \<notin> set ids) (t_outbox v)\<rparr>)"
      using u by (rule outbox.unique_filter)
    show "list_all (published_is_sent out) (filter (\<lambda>r. ow_id r \<notin> set ids) (t_outbox v))"
      using inv by (auto simp: tables_inv_def list_all_iff)
    show "outbox_rows_persist v (v\<lparr>t_outbox := filter (\<lambda>r. ow_id r \<notin> set ids) (t_outbox v)\<rparr>) out"
      using find_after_delete [OF u, of ids] ids by (auto simp: outbox_rows_persist_def delete_outbox_def)
  qed
qed

lemma purge_ids_delivered:
  assumes inv: "tables_inv v out" and scan: "set (scan (t_outbox v)) = set (t_outbox v)"
    and i: "i \<in> set (purge_ids scan cutoff limit v)"
  shows "delivered out i"
proof -
  obtain r where "find_outbox v i = Some r" "purgeable cutoff r"
    using purge_ids_sound [OF _ _ i] inv scan by (auto simp: tables_inv_def)
  then show ?thesis
    using inv outbox.lookup_key [of v i r]
    by (auto simp: tables_inv_def list_all_iff published_is_sent_def purgeable_def split: option.splits)
qed

section \<open>The repositories keep the guarantee\<close>

lemma safe_payments_add:
  assumes "payment_ok p" and "\<not> is_terminal p"
  shows "safe (payments_add env p)"
proof -
  have "safe (run_sql (insert_payment env p))"
    by (rule safe_run_sql) (rule allowed_insert_payment [OF _ assms])
  then have "safe (andthen (flush env) (\<lambda>_. run_sql (insert_payment env p)))"
    by (intro safe_andthen) simp_all
  then show ?thesis
    unfolding payments_add_def by (rule logic.hoare_attempt) simp_all
qed

lemma safe_repositories [simp]:
  "safe (payments_get env i)" "safe (payments_get_for_update env i)" "safe (payments_get_by_key env k)"
  "safe (inbox_has_message env i)" "safe (count_pending env)" "safe (count_failed env)"
  by (simp_all add: payments_get_def payments_get_for_update_def payments_get_by_key_def
      inbox_has_message_def count_pending_def count_failed_def)

lemma safe_inbox_add [simp]: "safe (inbox_add env i t)"
  unfolding inbox_add_def by (rule safe_update) (rule allowed_insert_inbox)

lemma safe_outbox_add [simp]: "safe (outbox_add env ty payload t)"
  unfolding outbox_add_def
proof (intro safe_andthen safe_observations, rule hoareI)
  fix i w r w'
  assume w: "good w" and run: "session_add (new_outbox_row i ty payload t) w = (r, w')"
  show "good w' \<and> step w w' \<and> (\<forall>x. r = Inr x \<longrightarrow> True)"
  proof (cases "w_session w")
    case None
    with run w show ?thesis by (simp add: session_add_def)
  next
    case (Some s)
    have "session_good w s" using w Some by (rule good_view)
    then have "good (w\<lparr>w_session := Some (s\<lparr>s_new := s_new s @ [new_outbox_row i ty payload t]\<rparr>)\<rparr>)"
      using w by (simp add: good_def session_good_def new_outbox_row_def)
    with run w Some show ?thesis by (auto simp: session_add_def)
  qed
qed

lemma safe_queue_updates [simp]:
  "safe (queue_release env i st rc av)" "safe (queue_unclaim env ids)"
proof -
  show "safe (queue_release env i st rc av)"
    unfolding queue_release_def
    by (rule safe_update) (rule allowed_quiet_update [OF released.quiet_row_update_axioms])
  have "safe (update env (update_outbox (\<lambda>r. ow_id r \<in> set ids) unclaimed_row))"
    by (rule safe_update) (rule allowed_quiet_update [OF unclaimed.quiet_row_update_axioms])
  then show "safe (queue_unclaim env ids)" by (simp add: queue_unclaim_def)
qed

lemma safe_claim_batch [simp]: "safe (claim_batch env limit now stale)"
proof -
  have "safe (update env (update_outbox P (claimed_row now)))" for P
    by (rule safe_update) (rule allowed_quiet_update [OF claimed.quiet_row_update_axioms])
  then show ?thesis
    unfolding claim_batch_def
    by (intro safe_andthen safe_observe) (auto intro!: safe_andthen split: prod.split)
qed

lemma safe_delete_processed:
  assumes env: "rely env"
  shows "safe (delete_processed_before env cutoff limit)"
proof -
  have run: "safe (run_sql (\<lambda>v. if limit < 0 then (Inl (DataError ''LIMIT must not be negative''), v)
         else (let v' = delete_outbox (purge_ids (e_scan env n) cutoff limit v) v
               in (Inr (int (length (t_outbox v)) - int (length (t_outbox v'))), v'))))" for n
  proof (rule safe_run_sql)
    fix v out v' and r :: "exn + int"
    assume inv: "tables_inv v out" and "(if limit < 0 then (Inl (DataError ''LIMIT must not be negative''), v)
         else (let v' = delete_outbox (purge_ids (e_scan env n) cutoff limit v) v
               in (Inr (int (length (t_outbox v)) - int (length (t_outbox v'))), v'))) = (r, v')"
    then have "v' = v \<or> v' = delete_outbox (purge_ids (e_scan env n) cutoff limit v) v"
      by (auto simp: Let_def split: if_splits)
    moreover have "set (e_scan env n (t_outbox v)) = set (t_outbox v)" using env by (simp add: rely_def)
    ultimately show "allowed out v v'"
      using inv allowed_refl allowed_delete purge_ids_delivered by blast
  qed
  show ?thesis
    unfolding delete_processed_before_def
  proof (rule logic.hoare_andthen)
    show "holds (\<lambda>_. True) (observe (e_scan env)) (\<lambda>scan _. \<exists>n. scan = e_scan env n)"
      by (rule hoareI) (auto simp: observe_def)
  qed (rule hoare_pure, auto intro!: safe_andthen run)
qed

section \<open>What the transaction sees, through a commit\<close>

definition seen :: "(tables \<Rightarrow> bool) \<Rightarrow> world \<Rightarrow> bool" where
  "seen R w \<longleftrightarrow> (\<exists>v. sees w v \<and> R v)"

lemma fresh_seen: "fresh_session w \<Longrightarrow> R (w_db w) \<Longrightarrow> seen R w"
  by (simp add: fresh_session_def seen_def sees_def)

lemma holds_keep:
  assumes "safe m" and "\<And>w r w'. m w = (r, w') \<Longrightarrow> P w \<Longrightarrow> P w'"
  shows "holds P m (\<lambda>_. P)"
  using assms unfolding hoare_def by blast

lemma holds_statement_seen: "holds (seen R) (statement env) (\<lambda>_. seen R)"
  by (rule holds_keep) (auto simp: seen_def sees_def dest!: statement_world)

text \<open>A flush writes to the outbox only.\<close>

lemma insert_rows_other:
  "insert_outbox_rows env rs v = Inr v' \<Longrightarrow> \<exists>xs. v' = v\<lparr>t_outbox := xs\<rparr>"
proof (induction rs arbitrary: v)
  case Nil
  then have "v' = v\<lparr>t_outbox := t_outbox v\<rparr>" by simp
  then show ?case by blast
next
  case (Cons r rs)
  then obtain u xs where u: "insert_outbox_rows env rs u = Inr v'" "u = v\<lparr>t_outbox := xs\<rparr>"
    by (auto simp: bind_exn_Inr_iff insert_outbox_row_def split: if_splits)
  from Cons.IH [OF u(1)] show ?case by (auto simp: u(2))
qed

lemma holds_flush_seen:
  assumes "\<And>v xs. R v \<Longrightarrow> R (v\<lparr>t_outbox := xs\<rparr>)"
  shows "holds (seen R) (flush env) (\<lambda>_. seen R)"
proof (rule holds_keep [OF safe_flush])
  fix w r w'
  assume run: "flush env w = (r, w')" and R: "seen R w"
  then obtain s where s: "w_session w = Some s" "R (s_view s)" by (auto simp: seen_def sees_def)
  obtain q w1 where st: "statement env w = (q, w1)" by fastforce
  then have w1: "w1 = w\<lparr>w_tick := w_tick w + 1\<rparr>" by (rule statement_world)
  show "seen R w'"
  proof (cases "w_session w' = w_session w")
    case True
    then show ?thesis using s by (simp add: seen_def sees_def)
  next
    case False
    then obtain v where "insert_outbox_rows env (s_new s) (s_view s) = Inr v"
      and "w_session w' = Some \<lparr>s_view = v, s_new = []\<rparr>"
      using run st s(1)
      by (auto simp: flush_def andthen_def w1 flush_rows_def split: sum.splits)
    then show ?thesis using assms [OF s(2)] insert_rows_other by (fastforce simp: seen_def sees_def)
  qed
qed

lemma holds_uow_commit:
  assumes "\<And>v xs. R v \<Longrightarrow> R (v\<lparr>t_outbox := xs\<rparr>)"
  shows "holds (seen R) (uow_commit env) (\<lambda>_ w. R (w_db w))"
  unfolding uow_commit_def
proof (rule logic.hoare_andthen)
  show "holds (seen R) require_session (\<lambda>_. seen R)"
    by (rule holds_keep) (auto simp: require_session_def split: if_splits)
  show "holds (seen R) (andthen (flush env) (\<lambda>_. commit_transaction env)) (\<lambda>_ w. R (w_db w))"
  proof (rule logic.hoare_andthen)
    show "holds (seen R) (flush env) (\<lambda>_. seen R)" using assms by (rule holds_flush_seen)
    show "holds (seen R) (commit_transaction env) (\<lambda>_ w. R (w_db w))"
      unfolding seen_def [abs_def] by (rule holds_commit_transaction)
  qed
qed

text \<open>A commit without pending objects makes exactly what the transaction sees the database.\<close>

lemma holds_outbox_add_seen: "holds (seen R) (outbox_add env ty payload t) (\<lambda>_. seen R)"
  by (rule holds_keep [OF safe_outbox_add])
    (auto simp: outbox_add_def uuid4_def observe_def prog_defs session_add_def seen_def sees_def
      split: option.splits)

section \<open>A quiet environment\<close>

text \<open>Concrete oracles, for examples: nothing fails, nobody interferes, time stands still.\<close>

definition quiet_rt :: pyrt where
  "quiet_rt = \<lparr>utf8_replace = (\<lambda>s. s), obj_str = (\<lambda>_. ''object''), float_repr = (\<lambda>_. ''0.0'')\<rparr>"

definition quiet_env :: env where
  "quiet_env =
     \<lparr>e_now = (\<lambda>_. 0), e_uuid = (\<lambda>n. word_of_nat n), e_random = (\<lambda>_. 0), e_perf = (\<lambda>_. 0),
      e_sql = (\<lambda>_. None), e_commit = (\<lambda>_. None), e_publish = (\<lambda>_. None), e_post = (\<lambda>_. Responded 200),
      e_sleep = (\<lambda>_. None), e_ack = (\<lambda>_. None), e_others = (\<lambda>_ S. S), e_scan = (\<lambda>_ rows. rows),
      e_locked = (\<lambda>_ _. False), e_jsonb = Inr,
      e_driver_text = (\<lambda>c. ''duplicate key value violates unique constraint '' @ c), e_rt = quiet_rt\<rparr>"

definition empty_tables :: tables where
  "empty_tables = \<lparr>t_payments = [], t_outbox = [], t_inbox = [], t_charges = []\<rparr>"

definition empty_world :: world where
  "empty_world =
     \<lparr>w_db = empty_tables, w_session = None, w_sent = [], w_posts = [], w_metrics = metrics_initial,
      w_settled = [], w_tick = 0\<rparr>"

lemma quiet_rely: "rely quiet_env"
  by (simp add: rely_def quiet_env_def)

lemma quiet_calm: "calm quiet_env"
  by (simp add: calm_def quiet_env_def)

lemma empty_good: "good empty_world"
  by (simp add: good_def empty_world_def tables_inv_def empty_tables_def payments.unique_def
      outbox.unique_def inbox.unique_def charges.unique_def)

end
