(* ===== verification/Outside.thy ===== *)
theory Outside
  imports Guarantee
begin

text \<open>
  Programs that run outside any unit of work and open their own: the handlers, the relay and the
  requests. \<open>idle\<close> strengthens the invariant of \<open>Guarantee\<close> by \<open>no session is open\<close>, which is what a
  publication needs, and which every program of this kind gives back, also when it raises.
\<close>

definition idle :: "world \<Rightarrow> bool" where
  "idle w \<longleftrightarrow> good w \<and> w_session w = None"

abbreviation outside :: "(world \<Rightarrow> bool) \<Rightarrow> 'a action \<Rightarrow> ('a \<Rightarrow> world \<Rightarrow> bool) \<Rightarrow> bool" where
  "outside \<equiv> hoare idle step"

abbreviation sound :: "'a action \<Rightarrow> bool" where
  "sound m \<equiv> outside (\<lambda>_. True) m (\<lambda>_ _. True)"

interpretation service: hoare_logic idle step
  by unfold_locales (auto simp: step_def intro: persists_trans)

text \<open>A program keeps the session closed.\<close>

definition closes :: "'a action \<Rightarrow> bool" where
  "closes m \<longleftrightarrow> (\<forall>w r w'. m w = (r, w') \<longrightarrow> w_session w = None \<longrightarrow> w_session w' = None)"

lemma outside_holds: "holds P m Q \<Longrightarrow> closes m \<Longrightarrow> outside P m Q"
  unfolding hoare_def closes_def idle_def by blast

lemma closes_with_session [simp]: "closes (with_session env leave body)"
  by (auto simp: closes_def with_session_def close_session_def split: prod.splits sum.splits)

lemma closes_in_uow [simp]: "closes (in_uow env body)"
  by (simp add: in_uow_def)

lemma closes_in_session [simp]: "closes (in_session env body)"
  by (simp add: in_session_def)

lemma closes_basic [simp]:
  "closes (ret x)" "closes (raise e)" "closes (lift_exn y)" "closes (observe f)" "closes (may_fail g)"
  "closes (clock_now env)" "closes (uuid4 env)" "closes (random_random env)" "closes (perf_counter env)"
  by (auto simp: closes_def prog_defs observe_def may_fail_def clock_now_def uuid4_def random_random_def
      perf_counter_def split: option.splits)

lemma closes_andthen: "closes m \<Longrightarrow> (\<And>x. closes (f x)) \<Longrightarrow> closes (andthen m f)"
  unfolding closes_def andthen_def by (fastforce split: prod.splits sum.splits)

lemma sound_holds: "safe m \<Longrightarrow> closes m \<Longrightarrow> sound m"
  by (rule outside_holds)

lemma sound_basic [simp]:
  "sound (ret x)" "sound (raise e)" "sound (lift_exn y)" "sound (observe f)" "sound (may_fail g)"
  "sound (clock_now env)" "sound (uuid4 env)" "sound (random_random env)" "sound (perf_counter env)"
  by (simp_all add: sound_holds)

lemma sound_in_uow: "rely env \<Longrightarrow> safe body \<Longrightarrow> sound (in_uow env body)"
  by (simp add: sound_holds safe_in_uow)

lemma sound_andthen: "sound m \<Longrightarrow> (\<And>x. sound (f x)) \<Longrightarrow> sound (andthen m f)"
  by (rule service.hoare_bind)

lemma sound_attempt: "sound m \<Longrightarrow> (\<And>e. sound (h e)) \<Longrightarrow> (\<And>x. sound (k x)) \<Longrightarrow> sound (attempt m h k)"
  by (rule service.hoare_attempt)

lemma sound_modifies:
  assumes "\<And>w. w_db (f w) = w_db w" "\<And>w. w_sent (f w) = w_sent w" "\<And>w. w_session (f w) = w_session w"
  shows "sound (modifies f)"
  by (rule sound_holds [OF holds_modifies_local [OF assms]]) (simp_all add: closes_def modifies_def assms)

text \<open>What a publication that returns has done, for the outbox row that the headers name.\<close>

lemma outside_publish:
  "outside (\<lambda>_. True) (publisher_publish env k b h x)
     (\<lambda>_ w. \<forall>hs i. k = NEW_ROUTING_KEY \<and> h = Some hs \<and> dict_get hs OUTBOX_ID_HEADER = PStr (uuid_str i) \<longrightarrow>
        delivered (w_sent w) i)"
proof (rule hoareI)
  fix w r w'
  assume w: "idle w" and run: "publisher_publish env k b h x w = (r, w')"
  then have "idle w' \<and> step w w'" using safe_publish [OF _ _ run] by (simp add: idle_def)
  moreover have "delivered (w_sent w') i"
    if "r = Inr u" "k = NEW_ROUTING_KEY" "h = Some hs" "dict_get hs OUTBOX_ID_HEADER = PStr (uuid_str i)" for u hs i
    using publish_Inr [OF run [unfolded that(1)]] that(2-4)
    by (auto simp: append_sent_def delivered_def publisher_message_def)
  ultimately show "idle w' \<and> step w w' \<and> (\<forall>y. r = Inr y \<longrightarrow> (\<forall>hs i. k = NEW_ROUTING_KEY \<and> h = Some hs \<and>
      dict_get hs OUTBOX_ID_HEADER = PStr (uuid_str i) \<longrightarrow> delivered (w_sent w') i))"
    by blast
qed

lemma sound_publish: "sound (publisher_publish env k b h x)"
  using outside_publish by (rule service.hoare_weak)

lemma delivered_step: "step w w' \<Longrightarrow> delivered (w_sent w) i \<Longrightarrow> delivered (w_sent w') i"
  by (auto simp: step_def shared_def persists_def intro: delivered_mono)

end
