(* ===== verification/Retry.thy ===== *)
theory Retry
  imports PyValue
begin

text \<open>
  \<open>src/application/retry/backoff.py\<close>, \<open>src/application/retry/policy.py\<close> and
  \<open>src/presentation/backoff.py\<close>: the exponential delay, the policy that sends a failed message to the
  retry queue or the dead-letter queue, and the back-off of the relay loop. The locale states what a
  schedule of delays promises; it is interpreted on the two schedules the service builds.
\<close>

section \<open>ExponentialDelay\<close>

record exp_delay =
  d_initial :: rat
  d_cap :: rat
  d_jitter :: bool

text \<open>
  \<open>delay_for\<close>: \<open>u\<close> is what \<open>random.random()\<close> returns. The product of the float \<open>initial\<close> and the
  integer \<open>2 ** (attempts - 1)\<close> converts the integer to a float first, which raises from \<open>2 ** 1024\<close> on,
  before \<open>min\<close> is applied. (A product that overflows to infinity is above every finite cap.)
\<close>

definition delay_for :: "exp_delay \<Rightarrow> rat \<Rightarrow> int \<Rightarrow> exn + rat" where
  "delay_for s u attempts =
     (if attempts < 1 then Inr 0
      else if 1024 \<le> attempts - 1 then Inl (OverflowError ''int too large to convert to float'')
      else (let delay = min (d_initial s * 2 ^ nat (attempts - 1)) (d_cap s)
            in if \<not> d_jitter s then Inr delay else Inr (delay * (1 / 2 + u * (1 / 2)))))"

definition schedule_ok :: "exp_delay \<Rightarrow> bool" where
  "schedule_ok s \<longleftrightarrow> 0 \<le> d_initial s \<and> 0 \<le> d_cap s"

lemma delay_for_bounds:
  assumes ok: "schedule_ok s" and u: "0 \<le> u" "u < 1" and n: "n \<le> 1024"
  shows "\<exists>d. delay_for s u n = Inr d \<and> 0 \<le> d \<and> d \<le> d_cap s"
proof -
  let ?d = "min (d_initial s * 2 ^ nat (n - 1)) (d_cap s)"
  have base: "0 \<le> ?d" "?d \<le> d_cap s" using ok by (simp_all add: schedule_ok_def)
  have "?d * (1 / 2 + u * (1 / 2)) \<le> ?d * 1" using base(1) u by (intro mult_left_mono) simp_all
  moreover have "0 \<le> ?d * (1 / 2 + u * (1 / 2))" using base(1) u by simp
  ultimately show ?thesis
    using base n ok by (auto simp: delay_for_def Let_def schedule_ok_def)
qed

lemma delay_for_jitter_floor:
  assumes "schedule_ok s" and "0 \<le> u" "u < 1" and "1 \<le> n" "n \<le> 1024" and "delay_for s u n = Inr d"
  shows "min (d_initial s * 2 ^ nat (n - 1)) (d_cap s) / 2 \<le> d"
proof -
  let ?d = "min (d_initial s * 2 ^ nat (n - 1)) (d_cap s)"
  have "0 \<le> ?d" using assms(1) by (simp add: schedule_ok_def)
  then have "?d * (1 / 2) \<le> ?d * (1 / 2 + u * (1 / 2))"
    using assms(2) by (intro mult_left_mono) simp_all
  then show ?thesis
    using assms(4-6) \<open>0 \<le> ?d\<close> by (auto simp: delay_for_def Let_def split: if_splits)
qed

lemma delay_for_overflow: "1025 \<le> n \<Longrightarrow> \<exists>m. delay_for s u n = Inl (OverflowError m)"
  by (simp add: delay_for_def)

section \<open>ExponentialBackoff\<close>

text \<open>A stateful schedule: \<open>src/presentation/backoff.py\<close>.\<close>

record backoff =
  b_schedule :: exp_delay
  b_failures :: int

definition backoff_new :: "rat \<Rightarrow> rat \<Rightarrow> bool \<Rightarrow> backoff" where
  "backoff_new initial cap use_jitter =
     \<lparr>b_schedule = \<lparr>d_initial = initial, d_cap = cap, d_jitter = use_jitter\<rparr>, b_failures = 0\<rparr>"

definition ERROR_BACKOFF_MIN :: rat where "ERROR_BACKOFF_MIN = 1"
definition ERROR_BACKOFF_MAX :: rat where "ERROR_BACKOFF_MAX = 30"

definition backoff_for_interval :: "rat \<Rightarrow> bool \<Rightarrow> backoff" where
  "backoff_for_interval interval use_jitter =
     backoff_new (max interval ERROR_BACKOFF_MIN) ERROR_BACKOFF_MAX use_jitter"

definition backoff_reset :: "backoff \<Rightarrow> backoff" where
  "backoff_reset b = b\<lparr>b_failures := 0\<rparr>"

definition next_delay :: "rat \<Rightarrow> (backoff, rat) prog" where
  "next_delay u b =
     (let b' = b\<lparr>b_failures := b_failures b + 1\<rparr>
      in (delay_for (b_schedule b') u (b_failures b'), b'))"

text \<open>The outcomes of \<open>n\<close> failures in a row, with no success in between.\<close>

fun failures_in_row :: "rat \<Rightarrow> nat \<Rightarrow> backoff \<Rightarrow> backoff" where
  "failures_in_row u 0 b = b"
| "failures_in_row u (Suc n) b = failures_in_row u n (snd (next_delay u b))"

lemma next_delay_state [simp]: "snd (next_delay u b) = b\<lparr>b_failures := b_failures b + 1\<rparr>"
  by (simp add: next_delay_def Let_def)

lemma failures_in_row_eq: "failures_in_row u n b = b\<lparr>b_failures := b_failures b + int n\<rparr>"
  by (induction n arbitrary: b) (auto simp: algebra_simps)

section \<open>RetryPolicy\<close>

datatype dispatch_action = RETRY | DLQ

definition MAX_ATTEMPTS :: int where "MAX_ATTEMPTS = 3"

record retry_policy =
  rp_max_attempts :: int
  rp_delay :: exp_delay

text \<open>The default: \<open>MAX_ATTEMPTS\<close>, \<open>RETRY_INITIAL_SECONDS\<close>, \<open>RETRY_CAP_SECONDS\<close>, no jitter.\<close>

definition default_policy :: retry_policy where
  "default_policy =
     \<lparr>rp_max_attempts = MAX_ATTEMPTS, rp_delay = \<lparr>d_initial = 1, d_cap = 4, d_jitter = False\<rparr>\<rparr>"

definition is_retryable :: "exn \<Rightarrow> bool" where
  "is_retryable error =
     (if (\<exists>m. error = TransientDependencyError m) then True
      else if is_application_error error \<or> is_domain_error error then False
      else True)"

lemma is_retryable_code [code]:
  "is_retryable error =
     (case error of TransientDependencyError m \<Rightarrow> True
      | _ \<Rightarrow> \<not> (is_application_error error \<or> is_domain_error error))"
  by (cases error) (simp_all add: is_retryable_def)

definition decide_action :: "retry_policy \<Rightarrow> int \<Rightarrow> exn \<Rightarrow> dispatch_action" where
  "decide_action p retry_count error =
     (if \<not> is_retryable error then DLQ
      else if rp_max_attempts p \<le> retry_count + 1 then DLQ
      else RETRY)"

definition compute_delay_seconds :: "retry_policy \<Rightarrow> rat \<Rightarrow> int \<Rightarrow> exn + int" where
  "compute_delay_seconds p u retry_count =
     bind_exn (delay_for (rp_delay p) u (max retry_count 0 + 1))
       (\<lambda>delay. Inr (max 1 (truncate_rat delay)))"

lemma decide_action_default:
  "decide_action default_policy rc e = RETRY \<longleftrightarrow> is_retryable e \<and> rc \<le> 1"
  by (auto simp: decide_action_def default_policy_def MAX_ATTEMPTS_def)

lemma compute_delay_default:
  "compute_delay_seconds default_policy u rc =
     (if rc \<le> 0 then Inr 1 else if rc = 1 then Inr 2
      else if rc \<le> 1023 then Inr 4 else Inl (OverflowError ''int too large to convert to float''))"
proof -
  consider "rc \<le> 0" | "rc = 1" | "2 \<le> rc" "rc \<le> 1023" | "1024 \<le> rc" by linarith
  then show ?thesis
  proof cases
    case 3
    then have "(2::rat) ^ 2 \<le> 2 ^ nat rc" by (intro power_increasing) auto
    then have "min (2 ^ nat rc) 4 = (4::rat)" by simp
    with 3 show ?thesis
      by (simp add: compute_delay_seconds_def default_policy_def delay_for_def Let_def
          truncate_rat_def)
  qed (simp_all add: compute_delay_seconds_def default_policy_def delay_for_def truncate_rat_def Let_def)
qed

text \<open>What the router asks for once it has decided to retry.\<close>

lemma retry_delay_default:
  assumes "decide_action default_policy rc e = RETRY"
  shows "compute_delay_seconds default_policy u rc = Inr (if rc \<le> 0 then 1 else 2)"
  using assms by (simp add: decide_action_default compute_delay_default)

section \<open>The contract of a schedule\<close>

text \<open>
  \<open>limit\<close> is the largest number of attempts for which a delay is promised; it stays below the cap.
\<close>

locale bounded_schedule =
  fixes sched :: "rat \<Rightarrow> int \<Rightarrow> exn + rat" and cap :: rat and limit :: int
  assumes delay_within:
    "0 \<le> u \<Longrightarrow> u < 1 \<Longrightarrow> n \<le> limit \<Longrightarrow> \<exists>d. sched u n = Inr d \<and> 0 \<le> d \<and> d \<le> cap"
    and no_attempt: "n < 1 \<Longrightarrow> sched u n = Inr 0"
begin

lemma delay_returns:
  assumes "0 \<le> u" "u < 1" "n \<le> limit"
  obtains d where "sched u n = Inr d" "0 \<le> d" "d \<le> cap"
  using delay_within [OF assms] by blast

text \<open>The moment a delayed item becomes due lies between the failure and the failure plus the cap.\<close>

lemma delay_never_raises: "0 \<le> u \<Longrightarrow> u < 1 \<Longrightarrow> n \<le> limit \<Longrightarrow> sched u n \<noteq> Inl e"
  using delay_within by fastforce

end

text \<open>The delays of the message retries, of the relay loop, and of the outbox with its defaults.\<close>

definition relay_schedule :: exp_delay where
  "relay_schedule = b_schedule (backoff_for_interval (1 / 2) True)"

definition outbox_schedule :: exp_delay where
  "outbox_schedule = \<lparr>d_initial = 1, d_cap = 60, d_jitter = True\<rparr>"

interpretation retry_delay: bounded_schedule "delay_for (rp_delay default_policy)" 4 1024
proof (unfold_locales, goal_cases)
  case (1 u n)
  then show ?case
    using delay_for_bounds [of "rp_delay default_policy" u n]
    by (simp add: schedule_ok_def default_policy_def)
qed (simp add: delay_for_def)

interpretation relay_delay: bounded_schedule "delay_for relay_schedule" 30 1024
proof (unfold_locales, goal_cases)
  case (1 u n)
  then show ?case
    using delay_for_bounds [of relay_schedule u n]
    by (simp add: schedule_ok_def relay_schedule_def backoff_for_interval_def backoff_new_def
        ERROR_BACKOFF_MIN_def ERROR_BACKOFF_MAX_def)
qed (simp add: delay_for_def)

interpretation outbox_delay: bounded_schedule "delay_for outbox_schedule" 60 1024
proof (unfold_locales, goal_cases)
  case (1 u n)
  then show ?case
    using delay_for_bounds [of outbox_schedule u n] by (simp add: schedule_ok_def outbox_schedule_def)
qed (simp add: delay_for_def)

end
