(* ===== verification/IpAddress.thy ===== *)
theory IpAddress
  imports PyText
begin

text \<open>
  \<open>ipaddress.ip_address\<close> and \<open>is_global\<close> as CPython 3.12 has them, for \<open>_is_blocked_ip\<close> of
  \<open>src/domain/webhook.py\<close>. An address is its integer. The last lemmas parse a printed dotted quad.
\<close>

section \<open>IPv4\<close>

definition parse_octet :: "string \<Rightarrow> nat option" where
  "parse_octet s =
     (if s = [] then None
      else if \<not> list_all (\<lambda>c. 48 \<le> code c \<and> code c \<le> 57) s then None
      else if 3 < length s then None
      else if s \<noteq> ''0'' \<and> hd s = CHR ''0'' then None
      else (case read_digits 10 0 False s of
              None \<Rightarrow> None
            | Some n \<Rightarrow> if 255 < n then None else Some n))"

definition quad :: "nat \<Rightarrow> nat \<Rightarrow> nat \<Rightarrow> nat \<Rightarrow> int" where
  "quad a b c d = ((int a * 256 + int b) * 256 + int c) * 256 + int d"

definition ip4_of_string :: "string \<Rightarrow> int option" where
  "ip4_of_string s =
     (case map parse_octet (split_at (CHR ''.'') s) of
        [Some a, Some b, Some c, Some d] \<Rightarrow> Some (quad a b c d)
      | _ \<Rightarrow> None)"

text \<open>\<open>address in network\<close>: the first \<open>len\<close> of \<open>width\<close> bits agree.\<close>

definition in_network :: "nat \<Rightarrow> int \<Rightarrow> int \<times> nat \<Rightarrow> bool" where
  "in_network width ip net = (ip div 2 ^ (width - snd net) = fst net div 2 ^ (width - snd net))"

definition private_networks4 :: "(int \<times> nat) list" where
  "private_networks4 =
     [(quad 0 0 0 0, 8), (quad 10 0 0 0, 8), (quad 127 0 0 0, 8), (quad 169 254 0 0, 16),
      (quad 172 16 0 0, 12), (quad 192 0 0 0, 24), (quad 192 0 0 170, 31), (quad 192 0 2 0, 24),
      (quad 192 168 0 0, 16), (quad 198 18 0 0, 15), (quad 198 51 100 0, 24), (quad 203 0 113 0, 24),
      (quad 240 0 0 0, 4), (quad 255 255 255 255, 32)]"

definition private_exceptions4 :: "(int \<times> nat) list" where
  "private_exceptions4 = [(quad 192 0 0 9, 32), (quad 192 0 0 10, 32)]"

definition is_private4 :: "int \<Rightarrow> bool" where
  "is_private4 ip \<longleftrightarrow>
     list_ex (in_network 32 ip) private_networks4 \<and>
     \<not> list_ex (in_network 32 ip) private_exceptions4"

definition is_global4 :: "int \<Rightarrow> bool" where
  "is_global4 ip \<longleftrightarrow> \<not> in_network 32 ip (quad 100 64 0 0, 10) \<and> \<not> is_private4 ip"

section \<open>IPv6\<close>

definition parse_hextet :: "string \<Rightarrow> nat option" where
  "parse_hextet s =
     (if \<not> list_all (\<lambda>c. digit_value 16 c \<noteq> None) s then None
      else if 4 < length s then None
      else read_digits 16 0 False s)"

fun show_hex :: "nat \<Rightarrow> string" where
  "show_hex n = (if n < 16 then [digit_char n] else show_hex (n div 16) @ [digit_char (n mod 16)])"

declare show_hex.simps [simp del]

fun hextets :: "int \<Rightarrow> string list \<Rightarrow> int option" where
  "hextets acc [] = Some acc"
| "hextets acc (s # ss) =
     (case parse_hextet s of None \<Rightarrow> None | Some n \<Rightarrow> hextets (acc * 65536 + int n) ss)"

text \<open>The parts between the colons, a dotted-quad tail replaced by two hexadecimal parts.\<close>

definition ip6_parts :: "string \<Rightarrow> string list option" where
  "ip6_parts s =
     (let parts = split_at (CHR '':'') s in
      if s = [] \<or> length parts < 3 then None
      else if CHR ''.'' \<in> set (last parts)
      then (case ip4_of_string (last parts) of
              None \<Rightarrow> None
            | Some v \<Rightarrow> Some (butlast parts @ [show_hex (nat (v div 65536)), show_hex (nat (v mod 65536))]))
      else Some parts)"

definition ip6_of_parts :: "string list \<Rightarrow> int option" where
  "ip6_of_parts parts =
     (let n = length parts;
          gaps = filter (\<lambda>i. parts ! i = []) [1..<n - 1];
          leading = (hd parts = []); trailing = (last parts = [])
      in if 9 < n then None
         else (case gaps of
            [] \<Rightarrow> if n \<noteq> 8 \<or> leading \<or> trailing then None else hextets 0 parts
          | [skip] \<Rightarrow>
              (let hi = (if leading then skip - 1 else skip);
                   lo = (if trailing then n - skip - 2 else n - skip - 1)
               in if leading \<and> hi \<noteq> 0 then None
                  else if trailing \<and> lo \<noteq> 0 then None
                  else if 8 < hi + lo + 1 then None
                  else (case hextets 0 (take hi parts) of
                          None \<Rightarrow> None
                        | Some h \<Rightarrow> hextets (h * 65536 ^ (8 - (hi + lo))) (drop (n - lo) parts)))
          | _ \<Rightarrow> None))"

definition ip6_of_string :: "string \<Rightarrow> int option" where
  "ip6_of_string s = (case ip6_parts s of None \<Rightarrow> None | Some parts \<Rightarrow> ip6_of_parts parts)"

definition private_networks6 :: "(int \<times> nat) list" where
  "private_networks6 =
     [(1, 128), (0, 128), (0xffff * 2 ^ 32, 96), (0x0064ff9b0001 * 2 ^ 80, 48), (0x0100 * 2 ^ 112, 64),
      (0x2001 * 2 ^ 112, 23), (0x20010db8 * 2 ^ 96, 32), (0x2002 * 2 ^ 112, 16), (0xfc00 * 2 ^ 112, 7),
      (0xfe80 * 2 ^ 112, 10)]"

definition private_exceptions6 :: "(int \<times> nat) list" where
  "private_exceptions6 =
     [(0x20010001 * 2 ^ 96 + 1, 128), (0x20010001 * 2 ^ 96 + 2, 128), (0x20010003 * 2 ^ 96, 32),
      (0x200100040112 * 2 ^ 80, 48), (0x20010020 * 2 ^ 96, 28), (0x20010030 * 2 ^ 96, 28)]"

text \<open>An IPv4-mapped address is judged by the IPv4 address it carries.\<close>

definition is_global6 :: "int \<Rightarrow> bool" where
  "is_global6 ip \<longleftrightarrow>
     (if ip div 2 ^ 32 = 0xffff then is_global4 (ip mod 2 ^ 32)
      else \<not> (list_ex (in_network 128 ip) private_networks6 \<and>
              \<not> list_ex (in_network 128 ip) private_exceptions6))"

section \<open>Any address\<close>

datatype ip = IP4 int | IP6 int

text \<open>
  \<open>ip_address(host)\<close>: IPv4 first, then IPv6, whose scope after a percent sign must be there and hold
  no other percent sign. \<open>None\<close> is the \<open>ValueError\<close>.
\<close>

definition ip_address :: "string \<Rightarrow> ip option" where
  "ip_address host =
     (if CHR ''/'' \<in> set host then None
      else (case ip4_of_string host of
         Some v \<Rightarrow> Some (IP4 v)
       | None \<Rightarrow>
           (let (addr, sep, scope) = partition_at (CHR ''%'') host
            in if sep \<and> (scope = [] \<or> CHR ''%'' \<in> set scope) then None
               else map_option IP6 (ip6_of_string addr))))"

fun ip_is_global :: "ip \<Rightarrow> bool" where
  "ip_is_global (IP4 v) = is_global4 v"
| "ip_is_global (IP6 v) = is_global6 v"

section \<open>Printed dotted quads\<close>

definition show_quad :: "nat \<Rightarrow> nat \<Rightarrow> nat \<Rightarrow> nat \<Rightarrow> string" where
  "show_quad a b c d = show_nat a @ ''.'' @ show_nat b @ ''.'' @ show_nat c @ ''.'' @ show_nat d"

lemma octet_round_trip:
  assumes "n < 256"
  shows "parse_octet (show_nat n) = Some n"
proof -
  have "length (show_nat n) \<le> 3" using assms length_show_nat [of n 3] by simp
  moreover have "list_all (\<lambda>c. 48 \<le> code c \<and> code c \<le> 57) (show_nat n)"
    using set_show_nat [of n] by (fastforce simp: list_all_iff)
  moreover have "show_nat n = ''0'' \<or> hd (show_nat n) \<noteq> CHR ''0''"
    using hd_show_nat [of n] by (cases "n = 0") (simp_all add: show_nat_0)
  ultimately show ?thesis
    using assms by (auto simp: parse_octet_def read_digits_show_nat)
qed

lemma split_at_append:
  "c \<notin> set xs \<Longrightarrow> split_at c (xs @ c # ys) = xs # split_at c ys"
  by (induction xs) auto

lemma split_at_none: "c \<notin> set xs \<Longrightarrow> split_at c xs = [xs]"
  by (induction xs) auto

lemma not_in_show_nat: "c \<notin> set ''0123456789'' \<Longrightarrow> c \<notin> set (show_nat n)"
  using set_show_nat by blast

lemma ip4_of_show_quad:
  assumes "a < 256" "b < 256" "c < 256" "d < 256"
  shows "ip4_of_string (show_quad a b c d) = Some (quad a b c d)"
proof -
  have dot: "CHR ''.'' \<notin> set (show_nat n)" for n by (rule not_in_show_nat) simp
  have "split_at (CHR ''.'') (show_quad a b c d) = [show_nat a, show_nat b, show_nat c, show_nat d]"
    by (simp add: show_quad_def split_at_append split_at_none dot)
  then show ?thesis
    using assms by (simp add: ip4_of_string_def octet_round_trip)
qed

lemma set_show_quad: "set (show_quad a b c d) \<subseteq> set ''.0123456789''"
  using set_show_nat by (fastforce simp: show_quad_def)

end
