(* ===== verification/WebhookUrl.thy ===== *)
theory WebhookUrl
  imports IpAddress
begin

text \<open>
  \<open>src/domain/webhook.py\<close>: which URLs a webhook may target, with the part of \<open>urllib.parse.urlparse\<close>
  it uses (CPython 3.12). The lemmas take a URL apart, with any scheme, credentials and port, and decide
  the URLs of a printed IPv4 address and of a blocked name.
\<close>

section \<open>urllib.parse\<close>

definition is_ascii_alpha :: "char \<Rightarrow> bool" where
  "is_ascii_alpha c \<longleftrightarrow> 65 \<le> code c \<and> code c \<le> 90 \<or> 97 \<le> code c \<and> code c \<le> 122"

definition is_scheme_char :: "char \<Rightarrow> bool" where
  "is_scheme_char c \<longleftrightarrow>
     is_ascii_alpha c \<or> 48 \<le> code c \<and> code c \<le> 57 \<or> c \<in> {CHR ''+'', CHR ''-'', CHR ''.''}"

text \<open>\<open>_check_bracketed_host\<close>: a version literal, or an IPv6 address.\<close>

definition bracketed_host_ok :: "string \<Rightarrow> bool" where
  "bracketed_host_ok h =
     (if prefix ''v'' h
      then (let ds = takeWhile (\<lambda>c. digit_value 16 c \<noteq> None) (tl h);
                rest = dropWhile (\<lambda>c. digit_value 16 c \<noteq> None) (tl h)
            in ds \<noteq> [] \<and> prefix ''.'' rest \<and> 1 < length rest)
      else (case ip_address h of Some (IP6 _) \<Rightarrow> True | _ \<Rightarrow> False))"

text \<open>Scheme and network location of \<open>urlparse(url)\<close>.\<close>

definition url_clean :: "string \<Rightarrow> string" where
  "url_clean url = filter (\<lambda>c. code c \<notin> {9, 10, 13}) (lstrip_by (\<lambda>c. code c \<le> 32) url)"

definition url_scheme :: "string \<Rightarrow> string \<times> string" where
  "url_scheme u =
     (let (pre, sep, post) = partition_at (CHR '':'') u
      in if sep \<and> pre \<noteq> [] \<and> is_ascii_alpha (hd pre) \<and> list_all is_scheme_char pre
         then (lower pre, post) else ([], u))"

definition url_netloc :: "string \<Rightarrow> string" where
  "url_netloc rest =
     (if prefix ''//'' rest
      then takeWhile (\<lambda>c. c \<notin> {CHR ''/'', CHR ''?'', CHR ''#''}) (drop 2 rest) else [])"

definition urlparse :: "string \<Rightarrow> exn + string \<times> string" where
  "urlparse url =
     (let (scheme, rest) = url_scheme (url_clean url);
          netloc = url_netloc rest;
          opening = CHR ''['' \<in> set netloc; closing = CHR '']'' \<in> set netloc
      in if opening \<noteq> closing then Inl (ValueError ''Invalid IPv6 URL'')
         else if opening \<and>
           \<not> bracketed_host_ok (fst (partition_at (CHR '']'') (snd (snd (partition_at (CHR ''['') netloc)))))
         then Inl (ValueError ''not an IPv6 address'')
         else Inr (scheme, netloc))"

text \<open>\<open>username\<close>, \<open>password\<close> and \<open>hostname\<close> of the result; the empty text stands for \<open>None\<close> too, since
  the code only asks whether they are true.\<close>

definition url_userinfo :: "string \<Rightarrow> string \<times> string" where
  "url_userinfo netloc =
     (let (info, have, _) = rpartition_at (CHR ''@'') netloc;
          (user, _, pw) = partition_at (CHR '':'') info
      in if have then (user, pw) else ([], []))"

definition url_hostname :: "string \<Rightarrow> string" where
  "url_hostname netloc =
     (let (_, _, info) = rpartition_at (CHR ''@'') netloc;
          (_, br, bracketed) = partition_at (CHR ''['') info;
          host = (if br then fst (partition_at (CHR '']'') bracketed)
                  else fst (partition_at (CHR '':'') info));
          (name, percent, zone) = partition_at (CHR ''%'') host
      in lower name @ (if percent then CHR ''%'' # zone else []))"

section \<open>The guard\<close>

definition allowed_schemes :: "string list" where
  "allowed_schemes = [''http'', ''https'']"

definition blocked_hosts :: "string list" where
  "blocked_hosts = [''localhost'', ''localhost.localdomain'', ''metadata.google.internal'']"

definition is_blocked_host :: "string \<Rightarrow> bool" where
  "is_blocked_host host \<longleftrightarrow>
     (if host \<in> set blocked_hosts then True
      else list_ex (ends_with host) [''.localhost'', ''.local'', ''.internal''])"

definition is_blocked_ip :: "string \<Rightarrow> bool" where
  "is_blocked_ip host \<longleftrightarrow> (case ip_address host of None \<Rightarrow> False | Some ip \<Rightarrow> \<not> ip_is_global ip)"

text \<open>\<open>WebhookUrl.__post_init__\<close>: the accepted URL is kept as it was written.\<close>

definition normal_host :: "string \<Rightarrow> string" where
  "normal_host host = rstrip_by (\<lambda>c. c = CHR ''.'') (lower host)"

definition webhook_url_new :: "string \<Rightarrow> exn + string" where
  "webhook_url_new value =
     bind_exn (urlparse value) (\<lambda>(scheme, netloc).
       if scheme \<notin> set allowed_schemes
       then Inl (InvalidWebhookUrlError ''webhook url must be http or https'')
       else if fst (url_userinfo netloc) \<noteq> [] \<or> snd (url_userinfo netloc) \<noteq> []
       then Inl (InvalidWebhookUrlError ''webhook url must not include credentials'')
       else if url_hostname netloc = []
       then Inl (InvalidWebhookUrlError ''webhook url host is required'')
       else (let host = normal_host (url_hostname netloc)
             in if is_blocked_host host \<or> is_blocked_ip host
                then Inl (InvalidWebhookUrlError ''webhook url must not target a private host'')
                else Inr value))"

section \<open>URLs with a plain host\<close>

lemma webhook_url_new_value: "webhook_url_new v = Inr w \<Longrightarrow> w = v"
  by (auto simp: webhook_url_new_def bind_exn_Inr_iff Let_def split: if_splits)

text \<open>
  A URL put together: a scheme, perhaps a user with or without a password, a host, perhaps a port, and what
  follows. No part has a delimiter, a bracket, a blank or a control character.
\<close>

definition plain_scheme :: "string \<Rightarrow> bool" where
  "plain_scheme s \<longleftrightarrow> s \<noteq> [] \<and> is_ascii_alpha (hd s) \<and> list_all is_scheme_char s"

definition no_delimiter :: "string \<Rightarrow> bool" where
  "no_delimiter h \<longleftrightarrow> list_all (\<lambda>c. 33 \<le> code c \<and> c \<notin> set ''/?#@[]'') h"

definition plain_host :: "string \<Rightarrow> bool" where
  "plain_host h \<longleftrightarrow> h \<noteq> [] \<and> no_delimiter h \<and> CHR '':'' \<notin> set h \<and> CHR ''%'' \<notin> set h"

fun userinfo_text :: "(string \<times> string option) option \<Rightarrow> string" where
  "userinfo_text None = []"
| "userinfo_text (Some (user, None)) = user @ ''@''"
| "userinfo_text (Some (user, Some password)) = user @ '':'' @ password @ ''@''"

fun plain_userinfo :: "(string \<times> string option) option \<Rightarrow> bool" where
  "plain_userinfo None = True"
| "plain_userinfo (Some (user, pw)) =
     (no_delimiter user \<and> CHR '':'' \<notin> set user \<and> (case pw of None \<Rightarrow> True | Some p \<Rightarrow> no_delimiter p))"

fun has_credentials :: "(string \<times> string option) option \<Rightarrow> bool" where
  "has_credentials None = False"
| "has_credentials (Some (user, pw)) = (user \<noteq> [] \<or> (case pw of None \<Rightarrow> False | Some p \<Rightarrow> p \<noteq> []))"

definition port_text :: "string option \<Rightarrow> string" where
  "port_text port = (case port of None \<Rightarrow> [] | Some p \<Rightarrow> '':'' @ p)"

definition plain_port :: "string option \<Rightarrow> bool" where
  "plain_port port \<longleftrightarrow> (case port of None \<Rightarrow> True | Some p \<Rightarrow> no_delimiter p)"

definition url_tail :: "string \<Rightarrow> bool" where
  "url_tail t \<longleftrightarrow> t = [] \<or> hd t \<in> {CHR ''/'', CHR ''?'', CHR ''#''}"

lemma partition_at_none: "c \<notin> set s \<Longrightarrow> partition_at c s = (s, False, [])"
  by (induction s) (auto simp: partition_at_def)

lemma partition_at_first: "c \<notin> set s \<Longrightarrow> partition_at c (s @ c # t) = (s, True, t)"
proof -
  assume "c \<notin> set s"
  then have "takeWhile (\<lambda>x. x \<noteq> c) (s @ c # t) = s" "dropWhile (\<lambda>x. x \<noteq> c) (s @ c # t) = c # t"
    by (induction s) auto
  then show ?thesis by (simp add: partition_at_def)
qed

lemma rpartition_at_none: "c \<notin> set s \<Longrightarrow> rpartition_at c s = ([], False, s)"
  by (simp add: rpartition_at_def)

lemma rpartition_at_last:
  assumes "c \<notin> set t"
  shows "rpartition_at c (s @ c # t) = (s, True, t)"
proof -
  have "c \<notin> set (rev t)" using assms by simp
  from partition_at_first [OF this, of "rev s"]
  have "takeWhile (\<lambda>x. x \<noteq> c) (rev t @ c # rev s) = rev t" "drop 1 (dropWhile (\<lambda>x. x \<noteq> c) (rev t @ c # rev s)) = rev s"
    by (simp_all add: partition_at_def)
  then show ?thesis by (simp add: rpartition_at_def)
qed

lemma lower_char_idem: "lower_char (lower_char c) = lower_char c"
proof -
  have "code c < 256" by simp
  then show ?thesis by (auto simp: lower_char_def)
qed

lemma lower_idem: "lower (lower h) = lower h"
  by (simp add: lower_def lower_char_idem)

lemma no_delimiter_append [simp]: "no_delimiter (a @ b) \<longleftrightarrow> no_delimiter a \<and> no_delimiter b"
  by (auto simp: no_delimiter_def)

lemma no_delimiterD:
  assumes "no_delimiter h" and "c \<in> set h"
  shows "33 \<le> code c" "c \<notin> {CHR ''/'', CHR ''?'', CHR ''#'', CHR ''@'', CHR ''['', CHR '']''}"
  using assms by (auto simp: no_delimiter_def list_all_iff)

lemma no_delimiter_port: "plain_port port \<Longrightarrow> no_delimiter (port_text port)"
  by (auto simp: plain_port_def port_text_def no_delimiter_def split: option.splits)

text \<open>The network location: what the guard reads of it.\<close>

lemma userinfo_of:
  assumes ui: "plain_userinfo ui" and h: "plain_host h" and port: "plain_port port"
  shows "fst (url_userinfo (userinfo_text ui @ h @ port_text port)) \<noteq> [] \<or>
      snd (url_userinfo (userinfo_text ui @ h @ port_text port)) \<noteq> [] \<longleftrightarrow> has_credentials ui"
    and "url_hostname (userinfo_text ui @ h @ port_text port) = lower h"
proof -
  have rest: "CHR ''@'' \<notin> set (h @ port_text port)" "CHR ''['' \<notin> set (h @ port_text port)"
    using h no_delimiter_port [OF port] no_delimiterD(2) [of "h @ port_text port"] by (auto simp: plain_host_def)
  have host: "fst (partition_at (CHR '':'') (h @ port_text port)) = h"
    using h partition_at_none [of "CHR '':''" h] partition_at_first [of "CHR '':''" h]
    by (cases port) (simp_all add: port_text_def plain_host_def)
  have name: "partition_at (CHR ''%'') h = (h, False, [])"
    using h by (simp add: partition_at_none plain_host_def)
  obtain info have_info where split: "rpartition_at (CHR ''@'') (userinfo_text ui @ h @ port_text port) =
      (info, have_info, h @ port_text port)"
    and info: "(if have_info then case partition_at (CHR '':'') info of (user, _, pw) \<Rightarrow> user \<noteq> [] \<or> pw \<noteq> [] else False) =
      has_credentials ui"
  proof (cases ui)
    case None
    then have "rpartition_at (CHR ''@'') (userinfo_text ui @ h @ port_text port) = ([], False, h @ port_text port)"
      using rpartition_at_none [OF rest(1)] by simp
    from that [OF this] show ?thesis by (simp add: None)
  next
    case (Some u)
    obtain user pw where u: "u = (user, pw)" by (cases u)
    have user: "CHR '':'' \<notin> set user" using ui by (simp add: Some u)
    show ?thesis
    proof (cases pw)
      case None
      then have "rpartition_at (CHR ''@'') (userinfo_text ui @ h @ port_text port) = (user, True, h @ port_text port)"
        using rpartition_at_last [OF rest(1), of user] by (simp add: Some u)
      from that [OF this] show ?thesis using partition_at_none [OF user] by (simp add: Some u None)
    next
      case (Some p)
      then have "rpartition_at (CHR ''@'') (userinfo_text ui @ h @ port_text port) =
          (user @ CHR '':'' # p, True, h @ port_text port)"
        using rpartition_at_last [OF rest(1), of "user @ CHR '':'' # p"] by (simp add: \<open>ui = Some u\<close> u)
      from that [OF this] show ?thesis using partition_at_first [OF user, of p] by (simp add: \<open>ui = Some u\<close> u Some)
    qed
  qed
  show "fst (url_userinfo (userinfo_text ui @ h @ port_text port)) \<noteq> [] \<or>
      snd (url_userinfo (userinfo_text ui @ h @ port_text port)) \<noteq> [] \<longleftrightarrow> has_credentials ui"
    using info by (auto simp: url_userinfo_def split split: prod.split if_splits)
  show "url_hostname (userinfo_text ui @ h @ port_text port) = lower h"
    using host by (simp add: url_hostname_def split partition_at_none [OF rest(2)] name)
qed

lemma scheme_char_code: "is_scheme_char c \<Longrightarrow> 33 \<le> code c" "is_scheme_char c \<Longrightarrow> c \<noteq> CHR '':''"
  by (auto simp: is_scheme_char_def is_ascii_alpha_def)

lemma urlparse_parts:
  assumes s: "plain_scheme s" and n: "no_delimiter netloc'" "set netloc \<subseteq> insert (CHR ''@'') (set netloc')" and t: "url_tail t"
  shows "urlparse (s @ ''://'' @ netloc @ t) = Inr (lower s, netloc)"
proof -
  define t' where "t' = filter (\<lambda>c. code c \<notin> {9, 10, 13}) t"
  have scheme: "\<forall>c\<in>set s. 33 \<le> code c" "CHR '':'' \<notin> set s"
    using s scheme_char_code by (auto simp: plain_scheme_def list_all_iff)
  have net: "33 \<le> code c" "c \<notin> {CHR ''/'', CHR ''?'', CHR ''#'', CHR ''['', CHR '']''}" if "c \<in> set netloc" for c
    using that n no_delimiterD [OF n(1), of c] by auto
  have keep: "filter (\<lambda>c. code c \<notin> {9, 10, 13}) s = s" "filter (\<lambda>c. code c \<notin> {9, 10, 13}) netloc = netloc"
    using scheme(1) net(1) by (fastforce intro!: filter_True)+
  have "lstrip_by (\<lambda>c. code c \<le> 32) (s @ ''://'' @ netloc @ t) = s @ ''://'' @ netloc @ t"
    using s scheme(1) by (cases s) (auto simp: lstrip_by_def plain_scheme_def)
  then have "url_clean (s @ ''://'' @ netloc @ t) = s @ ''://'' @ netloc @ t'"
    using keep by (simp add: url_clean_def t'_def)
  moreover have "url_scheme (s @ ''://'' @ netloc @ t') = (lower s, ''//'' @ netloc @ t')"
    using s partition_at_first [OF scheme(2), of "''//'' @ netloc @ t'"] by (simp add: url_scheme_def plain_scheme_def)
  moreover have "url_netloc (''//'' @ netloc @ t') = netloc"
  proof -
    have "url_tail t'" using t by (cases t) (auto simp: url_tail_def t'_def)
    then have "takeWhile (\<lambda>c. c \<notin> {CHR ''/'', CHR ''?'', CHR ''#''}) t' = []" by (cases t') (auto simp: url_tail_def)
    moreover have "takeWhile (\<lambda>c. c \<notin> {CHR ''/'', CHR ''?'', CHR ''#''}) (netloc @ t') =
        netloc @ takeWhile (\<lambda>c. c \<notin> {CHR ''/'', CHR ''?'', CHR ''#''}) t'"
      using net(2) by (intro takeWhile_append2) blast
    ultimately show ?thesis by (simp only: url_netloc_def) simp
  qed
  moreover have "CHR ''['' \<notin> set netloc" "CHR '']'' \<notin> set netloc" using net(2) by blast+
  ultimately show ?thesis by (simp only: urlparse_def Let_def) simp
qed

lemma webhook_url_parts:
  assumes s: "plain_scheme s" and ui: "plain_userinfo ui" and h: "plain_host h" and port: "plain_port port"
    and t: "url_tail t"
  shows "webhook_url_new (s @ ''://'' @ userinfo_text ui @ h @ port_text port @ t) =
    (if lower s \<notin> {''http'', ''https''} then Inl (InvalidWebhookUrlError ''webhook url must be http or https'')
     else if has_credentials ui then Inl (InvalidWebhookUrlError ''webhook url must not include credentials'')
     else if is_blocked_host (normal_host h) \<or> is_blocked_ip (normal_host h)
     then Inl (InvalidWebhookUrlError ''webhook url must not target a private host'')
     else Inr (s @ ''://'' @ userinfo_text ui @ h @ port_text port @ t))"
proof -
  let ?netloc = "userinfo_text ui @ h @ port_text port"
  let ?plain = "(case ui of None \<Rightarrow> [] | Some (user, pw) \<Rightarrow> user @ (case pw of None \<Rightarrow> [] | Some p \<Rightarrow> '':'' @ p)) @ h @ port_text port"
  have colon: "no_delimiter (CHR '':'' # x) \<longleftrightarrow> no_delimiter x" for x by (simp add: no_delimiter_def)
  have "no_delimiter ?plain"
    using ui h no_delimiter_port [OF port] by (cases ui rule: userinfo_text.cases) (auto simp: plain_host_def colon)
  moreover have "set ?netloc \<subseteq> insert (CHR ''@'') (set ?plain)"
    by (cases ui rule: userinfo_text.cases) auto
  ultimately have "urlparse (s @ ''://'' @ ?netloc @ t) = Inr (lower s, ?netloc)"
    by (rule urlparse_parts [OF s _ _ t])
  then have parsed: "urlparse (s @ ''://'' @ userinfo_text ui @ h @ port_text port @ t) = Inr (lower s, ?netloc)"
    by simp
  have "h \<noteq> []" using h by (simp add: plain_host_def)
  then have "lower h \<noteq> []" by (simp add: lower_def)
  moreover have "normal_host (lower h) = normal_host h" by (simp add: normal_host_def lower_idem)
  ultimately show ?thesis
    using userinfo_of [OF ui h port] parsed
    by (simp add: webhook_url_new_def allowed_schemes_def Let_def split_beta del: append_Cons)
qed

lemma plain_host_quad: "plain_host (show_quad a b c d)"
proof -
  have "33 \<le> code x \<and> x \<notin> set ''/?#@[]''" "x \<notin> {CHR '':'', CHR ''%''}" if "x \<in> set ''.0123456789''" for x
    using that by auto
  moreover have "show_quad a b c d \<noteq> []" by (simp add: show_quad_def)
  ultimately show ?thesis
    using set_show_quad [of a b c d] by (fastforce simp: plain_host_def no_delimiter_def list_all_iff)
qed

lemma lower_quad: "lower (show_quad a b c d) = show_quad a b c d"
proof -
  have "lower_char x = x" if "x \<in> set (show_quad a b c d)" for x
    using set_show_quad [of a b c d] that by (fastforce simp: lower_char_def)
  then show ?thesis by (simp add: lower_def map_idI)
qed

lemma last_show_nat: "last (show_nat d) \<noteq> CHR ''.''"
proof -
  have "last (show_nat d) \<in> set (show_nat d)" by simp
  then show ?thesis using set_show_nat [of d] by fastforce
qed

lemma rstrip_by_last: "s \<noteq> [] \<Longrightarrow> \<not> P (last s) \<Longrightarrow> rstrip_by P s = s"
  by (cases s rule: rev_cases) (simp_all add: rstrip_by_def)

lemma normal_host_quad: "normal_host (show_quad a b c d) = show_quad a b c d"
proof -
  have "last (show_quad a b c d) = last (show_nat d)" and "show_quad a b c d \<noteq> []"
    by (simp_all add: show_quad_def)
  then show ?thesis
    using last_show_nat [of d] by (simp add: normal_host_def lower_quad rstrip_by_last)
qed

lemma is_blocked_host_quad: "\<not> is_blocked_host (show_quad a b c d)"
proof
  assume "is_blocked_host (show_quad a b c d)"
  then have "CHR ''l'' \<in> set (show_quad a b c d)"
    by (auto simp: is_blocked_host_def blocked_hosts_def ends_with_def dest!: set_mono_suffix split: if_splits)
  then show False using set_show_quad [of a b c d] by auto
qed

lemma is_blocked_ip_quad:
  assumes "a < 256" "b < 256" "c < 256" "d < 256"
  shows "is_blocked_ip (show_quad a b c d) \<longleftrightarrow> \<not> is_global4 (quad a b c d)"
proof -
  have "CHR ''/'' \<notin> set (show_quad a b c d)" using set_show_quad [of a b c d] by auto
  then show ?thesis using assms by (simp add: is_blocked_ip_def ip_address_def ip4_of_show_quad)
qed

section \<open>Properties\<close>

text \<open>C14: A URL whose host is a dotted IPv4 address, with any scheme, user, password and port, and whatever
  follows: it is refused unless the scheme is http or https in any case of letters, refused with a user or
  a password, and otherwise accepted exactly when the address is globally routable; loopback, private,
  link-local and reserved addresses are all refused.\<close>

theorem webhook_ipv4_guard:
  assumes "a < 256" "b < 256" "c < 256" "d < 256" and "plain_scheme s" and "plain_userinfo ui" and "plain_port port"
    and "url_tail t"
  shows "webhook_url_new (s @ ''://'' @ userinfo_text ui @ show_quad a b c d @ port_text port @ t) =
    (if lower s \<notin> {''http'', ''https''} then Inl (InvalidWebhookUrlError ''webhook url must be http or https'')
     else if has_credentials ui then Inl (InvalidWebhookUrlError ''webhook url must not include credentials'')
     else if is_global4 (quad a b c d) then Inr (s @ ''://'' @ userinfo_text ui @ show_quad a b c d @ port_text port @ t)
     else Inl (InvalidWebhookUrlError ''webhook url must not target a private host''))"
  using assms(1-4)
  by (simp only: webhook_url_parts [OF assms(5,6) plain_host_quad assms(7,8)] normal_host_quad is_blocked_host_quad
      is_blocked_ip_quad) simp

theorem webhook_ipv4_guard_witness:
  "webhook_url_new (''HTTPS'' @ ''://'' @ show_quad 127 0 0 1 @ '':8443'' @ ''/hook'') =
     Inl (InvalidWebhookUrlError ''webhook url must not target a private host'') \<and>
   webhook_url_new (''https'' @ ''://'' @ ''u:p@'' @ show_quad 8 8 8 8 @ ''/'') =
     Inl (InvalidWebhookUrlError ''webhook url must not include credentials'')"
proof -
  have "\<not> is_global4 (quad 127 0 0 1)"
    by (simp add: is_global4_def is_private4_def private_networks4_def private_exceptions4_def
        in_network_def quad_def)
  moreover have "url_tail ''/hook''" "url_tail ''/''" "plain_scheme ''HTTPS''" "plain_scheme ''https''"
    "plain_port (Some ''8443'')" "plain_port None" "plain_userinfo (Some (''u'', Some ''p''))" "lower ''HTTPS'' = ''https''"
    "lower ''https'' = ''https''" by code_simp+
  ultimately show ?thesis
    using webhook_ipv4_guard [of 127 0 0 1 "''HTTPS''" None "Some ''8443''" "''/hook''"]
      webhook_ipv4_guard [of 8 8 8 8 "''https''" "Some (''u'', Some ''p'')" None "''/''"]
    by (simp add: port_text_def)
qed

text \<open>A blocked host name is refused however it is written: in any case, with any number of
  trailing dots, with any port and any path.\<close>

lemma webhook_blocked_names:
  assumes "plain_scheme s" "plain_userinfo ui" "plain_host h" "plain_port port" "url_tail t"
    and "is_blocked_host (normal_host h)"
  shows "isl (webhook_url_new (s @ ''://'' @ userinfo_text ui @ h @ port_text port @ t))"
  using webhook_url_parts [OF assms(1-5)] assms(6) by simp

lemma webhook_blocked_names_witness:
  "isl (webhook_url_new (''http'' @ ''://'' @ ''MetaData.Google.Internal..'' @ ''?x''))"
proof -
  have "plain_scheme ''http''" "plain_userinfo None" "plain_host ''MetaData.Google.Internal..''" "plain_port None"
    "url_tail ''?x''" "is_blocked_host (normal_host ''MetaData.Google.Internal..'')" by code_simp+
  from webhook_blocked_names [OF this] show ?thesis by (simp add: port_text_def)
qed

end
