(* ===== verification/CreatePayment.thy ===== *)
theory CreatePayment
  imports Guarantee WebhookUrl
begin

text \<open>
  \<open>src/application/payments/dto.py\<close>, \<open>use_cases/create_payment.py\<close> and \<open>use_cases/get_payment.py\<close>. The
  lemmas show that a creation writes the payment and its event together or not at all, and that an
  idempotency key belongs to one payment for good.
\<close>

section \<open>Data transfer objects\<close>

record create_input =
  ci_amount :: amount_arg
  ci_currency :: string
  ci_description :: string
  ci_metadata :: pydict
  ci_webhook_url :: string
  ci_key :: string

record payment_output =
  po_payment_id :: uuid
  po_amount :: decimal
  po_currency :: string
  po_description :: string
  po_metadata :: pydict
  po_status :: string
  po_key :: string
  po_webhook_url :: string
  po_created_at :: time
  po_processed_at :: "time option"

definition from_payment :: "payment \<Rightarrow> payment_output" where
  "from_payment p =
     \<lparr>po_payment_id = p_id p, po_amount = m_amount (p_money p),
      po_currency = currency_value (m_currency (p_money p)), po_description = p_description p,
      po_metadata = p_metadata p, po_status = status_value (p_status p), po_key = p_key p,
      po_webhook_url = p_webhook_url p, po_created_at = p_created_at p,
      po_processed_at = p_processed_at p\<rparr>"

section \<open>CreatePayment\<close>

definition has_matching_create_input :: "payment \<Rightarrow> create_input \<Rightarrow> money \<Rightarrow> bool" where
  "has_matching_create_input p command money \<longleftrightarrow>
     money_eq (p_money p) money \<and> p_description p = ci_description command \<and>
     dict_eq (p_metadata p) (ci_metadata command) \<and> p_webhook_url p = ci_webhook_url command"

definition replay_existing :: "env \<Rightarrow> create_input \<Rightarrow> money \<Rightarrow> string \<Rightarrow> payment_output action" where
  "replay_existing env command money key =
     andthen (in_uow env (payments_get_by_key env key)) (\<lambda>existing.
       case existing of
         None \<Rightarrow> raise (IdempotencyConflict None)
       | Some p \<Rightarrow>
           if \<not> has_matching_create_input p command money then raise (IdempotencyConflict (Some (p_id p)))
           else ret (from_payment p))"

text \<open>The unit of work of \<open>execute\<close>: the payment, its event, and one commit.\<close>

definition store_new_payment :: "env \<Rightarrow> payment \<Rightarrow> time \<Rightarrow> unit action" where
  "store_new_payment env p now =
     andthen (payments_add env p) (\<lambda>_.
     andthen (outbox_add env PAYMENT_CREATED (payment_created_payload (p_id p)) now) (\<lambda>_.
     uow_commit env))"

definition create_payment :: "env \<Rightarrow> create_input \<Rightarrow> payment_output action" where
  "create_payment env command =
     andthen (lift_exn (money_new (ci_amount command) (Inr (ci_currency command)))) (\<lambda>money.
     andthen (lift_exn (idempotency_key_new (PStr (ci_key command)))) (\<lambda>key.
     andthen (lift_exn (webhook_url_new (ci_webhook_url command))) (\<lambda>webhook_url.
     andthen (clock_now env) (\<lambda>now.
     andthen (uuid4 env) (\<lambda>u.
     andthen (lift_exn (payment_id_new (Inl u))) (\<lambda>i.
       let p = payment_create i money (ci_description command) (ci_metadata command) key webhook_url now
       in attempt (in_uow env (store_new_payment env p now))
            (\<lambda>e. if e = DuplicateIdempotencyKey then replay_existing env command money key else raise e)
            (\<lambda>_. ret (from_payment p))))))))"

section \<open>GetPayment\<close>

definition get_payment :: "env \<Rightarrow> uuid \<Rightarrow> payment_output action" where
  "get_payment env i =
     in_uow env
       (andthen (lift_exn (payment_id_new (Inl i))) (\<lambda>pid.
        andthen (payments_get env pid) (\<lambda>found.
          case found of None \<Rightarrow> raise (PaymentNotFound i) | Some p \<Rightarrow> ret (from_payment p))))"

section \<open>What is on record after a creation\<close>

text \<open>The row a payment output was made from, as far as its columns never change.\<close>

definition output_of_row :: "payment_output \<Rightarrow> payment_row \<Rightarrow> bool" where
  "output_of_row out row \<longleftrightarrow>
     po_payment_id out = pr_id row \<and> po_amount out = numeric_read (pr_amount row) \<and>
     po_currency out = pr_currency row \<and> po_description out = pr_description row \<and>
     po_key out = pr_key row \<and> po_webhook_url out = pr_webhook_url row \<and>
     po_created_at out = pr_created_at row"

definition on_record :: "tables \<Rightarrow> payment_output \<Rightarrow> bool" where
  "on_record d out \<longleftrightarrow> (\<exists>row. find_payment d (po_payment_id out) = Some row \<and> output_of_row out row)"

lemma output_of_frozen: "output_of_row out row \<Longrightarrow> frozen row' = frozen row \<Longrightarrow> output_of_row out row'"
  by (cases row; cases row') (simp add: output_of_row_def frozen_def)

lemma output_of_domain: "mapper_to_domain row = Inr p \<Longrightarrow> output_of_row (from_payment p) row"
  by (elim mapper_to_domain_Inr)
    (simp add: output_of_row_def from_payment_def payment_reconstitute_def)

lemma output_of_model:
  assumes "mapper_to_model env p = Inr row" and "payment_ok p"
  shows "output_of_row (from_payment p) row"
proof -
  obtain extra where "mapper_to_domain row = Inr (p\<lparr>p_metadata := extra\<rparr>)"
    using mapper_round_trip [OF assms] by blast
  then have "output_of_row (from_payment (p\<lparr>p_metadata := extra\<rparr>)) row" by (rule output_of_domain)
  then show ?thesis by (simp add: output_of_row_def from_payment_def)
qed

lemma on_record_step: "step w w' \<Longrightarrow> on_record (w_db w) out \<Longrightarrow> on_record (w_db w') out"
proof -
  assume st: "step w w'" and rec: "on_record (w_db w) out"
  then obtain row where row: "find_payment (w_db w) (po_payment_id out) = Some row" "output_of_row out row"
    by (auto simp: on_record_def)
  then obtain row' where "find_payment (w_db w') (po_payment_id out) = Some row'" "frozen row' = frozen row"
    using step_payment [OF st row(1)] by (auto simp: payment_persists_def)
  with row(2) show ?thesis unfolding on_record_def using output_of_frozen by blast
qed

text \<open>In a database with unique keys, the key tells the payment.\<close>

lemma on_record_unique:
  assumes inv: "tables_inv d out" and a: "on_record d x" and b: "on_record d y" and "po_key x = po_key y"
  shows "po_payment_id x = po_payment_id y \<and> po_amount x = po_amount y \<and> po_currency x = po_currency y \<and>
    po_description x = po_description y \<and> po_webhook_url x = po_webhook_url y \<and>
    po_created_at x = po_created_at y"
proof -
  obtain r s where r: "r \<in> set (t_payments d)" "output_of_row x r"
    and s: "s \<in> set (t_payments d)" "output_of_row y s"
    using a b payments.lookup_key unfolding on_record_def by blast
  have "pr_key r = pr_key s" using r(2) s(2) assms(4) by (simp add: output_of_row_def)
  then have "r = s" using inv r(1) s(1) by (auto simp: tables_inv_def distinct_map dest: inj_onD)
  with r(2) s(2) show ?thesis by (simp add: output_of_row_def)
qed

lemma payment_create_ok:
  "money_ok m \<Longrightarrow> key_ok k \<Longrightarrow> payment_ok (payment_create i m desc meta k url now) \<and>
   \<not> is_terminal (payment_create i m desc meta k url now)"
  by (simp add: payment_ok_def payment_create_def is_terminal_def)

lemma holds_payments_add:
  assumes p: "payment_ok p" "\<not> is_terminal p"
  shows "holds (\<lambda>_. True) (payments_add env p) (\<lambda>_. seen (\<lambda>v. on_record v (from_payment p)))"
proof -
  have "holds (\<lambda>_. True) (run_sql (insert_payment env p)) (\<lambda>_. seen (\<lambda>v. on_record v (from_payment p)))"
  proof (rule holds_run_sql)
    fix w s r v'
    assume w: "good w" "w_session w = Some s" and ins: "insert_payment env p (s_view s) = (r, v')"
    have "tables_inv (s_view s) (w_sent w)" using good_view [OF w] by (simp add: session_good_def)
    then have "allowed (w_sent w) (s_view s) v'" using p ins by (rule allowed_insert_payment)
    moreover have "on_record v' (from_payment p)" if succ: "r = Inr ()"
    proof -
      obtain row where row: "mapper_to_model env p = Inr row" "find_payment (s_view s) (pr_id row) = None"
        "v' = (s_view s)\<lparr>t_payments := t_payments (s_view s) @ [row]\<rparr>"
        using ins succ by (auto simp: insert_payment_def split: sum.splits if_splits)
      have out: "output_of_row (from_payment p) row" using output_of_model [OF row(1) p(1)] .
      then have "po_payment_id (from_payment p) = pr_id row" by (simp add: output_of_row_def)
      with out row(2) show ?thesis
        using payments.lookup_append [of "s_view s" row "pr_id row"] by (simp add: row(3) on_record_def)
    qed
    ultimately show "allowed (w_sent w) (s_view s) v' \<and>
      (\<forall>x. r = Inr x \<longrightarrow> seen (\<lambda>v. on_record v (from_payment p)) (w\<lparr>w_session := Some (s\<lparr>s_view := v'\<rparr>)\<rparr>))"
      by (auto simp: seen_def sees_def)
  qed
  then have "holds (\<lambda>_. True) (andthen (flush env) (\<lambda>_. run_sql (insert_payment env p)))
      (\<lambda>_. seen (\<lambda>v. on_record v (from_payment p)))"
    by (intro logic.hoare_bind) simp_all
  then show ?thesis
    unfolding payments_add_def
  proof (rule logic.hoare_attempt)
    fix x :: unit
    show "holds (seen (\<lambda>v. on_record v (from_payment p))) (ret x) (\<lambda>_. seen (\<lambda>v. on_record v (from_payment p)))"
      by (rule logic.hoare_ret)
  qed simp_all
qed

lemma on_record_outbox: "on_record v out \<Longrightarrow> on_record (v\<lparr>t_outbox := xs\<rparr>) out"
  by (simp add: on_record_def)

lemma holds_store_new_payment:
  assumes p: "payment_ok p" "\<not> is_terminal p"
  shows "holds (\<lambda>_. True) (store_new_payment env p now) (\<lambda>_ w. on_record (w_db w) (from_payment p))"
  unfolding store_new_payment_def
  by (rule logic.hoare_andthen [OF holds_payments_add [OF p]],
      rule logic.hoare_andthen [OF holds_outbox_add_seen],
      rule holds_uow_commit, rule on_record_outbox)

lemma scalar_one_filter:
  "scalar_one_or_none (filter P xs) = Inr (Some r) \<Longrightarrow> r \<in> set xs \<and> P r"
  by (auto simp: scalar_one_or_none_def split: list.splits dest!: filter_eq_ConsD)

lemma holds_get_by_key:
  assumes "rely env"
  shows "holds (\<lambda>_. True) (in_uow env (payments_get_by_key env k))
    (\<lambda>found w. \<forall>p. found = Some p \<longrightarrow> on_record (w_db w) (from_payment p) \<and> p_key p = k)"
proof (rule holds_in_uow [OF assms])
  show "holds (\<lambda>w. True \<and> fresh_session w) (payments_get_by_key env k)
     (\<lambda>found w. \<forall>p. found = Some p \<longrightarrow> on_record (w_db w) (from_payment p) \<and> p_key p = k)"
    unfolding payments_get_by_key_def
  proof (rule holds_query)
    fix w v x
    assume "True \<and> fresh_session w" and "sees w v" and inv: "tables_inv v (w_sent w)"
      and q: "bind_exn (scalar_one_or_none (filter (\<lambda>r. pr_key r = k) (t_payments v))) optional_payment = Inr x"
    then have v: "v = w_db w" by (simp add: fresh_session_def sees_def)
    show "\<forall>p. x = Some p \<longrightarrow> on_record (w_db w) (from_payment p) \<and> p_key p = k"
    proof (intro allI impI)
      fix p
      assume "x = Some p"
      then obtain r where r: "scalar_one_or_none (filter (\<lambda>r. pr_key r = k) (t_payments v)) = Inr (Some r)"
        and dom: "mapper_to_domain r = Inr p"
        using q by (auto simp: bind_exn_Inr_iff optional_payment_def split: option.splits)
      have mem: "r \<in> set (t_payments v)" "pr_key r = k" using scalar_one_filter [OF r] by auto
      have "find_payment v (pr_id r) = Some r"
        using payments.lookup_in [OF _ mem(1)] inv by (simp add: tables_inv_def)
      moreover have out: "output_of_row (from_payment p) r" using dom by (rule output_of_domain)
      moreover have "po_payment_id (from_payment p) = pr_id r" "p_key p = k"
        using out mem(2) by (simp_all add: output_of_row_def from_payment_def)
      ultimately show "on_record (w_db w) (from_payment p) \<and> p_key p = k"
        unfolding on_record_def v by auto
    qed
  qed (simp add: fresh_session_def)
qed simp_all

lemma holds_replay:
  assumes "rely env"
  shows "holds (\<lambda>_. True) (replay_existing env command money key)
    (\<lambda>out w. on_record (w_db w) out \<and> po_key out = key)"
  unfolding replay_existing_def
proof (rule logic.hoare_andthen [OF holds_get_by_key [OF assms]])
  fix found
  show "holds (\<lambda>w. \<forall>p. found = Some p \<longrightarrow> on_record (w_db w) (from_payment p) \<and> p_key p = key)
     (case found of None \<Rightarrow> raise (IdempotencyConflict None)
      | Some p \<Rightarrow> if \<not> has_matching_create_input p command money then raise (IdempotencyConflict (Some (p_id p)))
                  else ret (from_payment p))
     (\<lambda>out w. on_record (w_db w) out \<and> po_key out = key)"
    by (cases found) (auto simp: hoare_def ret_def raise_def from_payment_def)
qed

lemma holds_create_payment:
  assumes env: "rely env"
  shows "holds (\<lambda>_. True) (create_payment env command)
    (\<lambda>out w. on_record (w_db w) out \<and> po_key out = ci_key command)"
proof -
  let ?Q = "\<lambda>out w. on_record (w_db w) out \<and> po_key out = ci_key command"
  have run: "holds (\<lambda>_. True) (attempt (in_uow env (store_new_payment env p now))
      (\<lambda>e. if e = DuplicateIdempotencyKey then replay_existing env command money key else raise e)
      (\<lambda>_. ret (from_payment p))) ?Q"
    if "payment_ok p" "\<not> is_terminal p" "p_key p = ci_key command" "key = ci_key command" for p now money key
  proof (rule logic.hoare_attempt)
    have "holds (\<lambda>w. True \<and> fresh_session w) (store_new_payment env p now)
        (\<lambda>_ w. on_record (w_db w) (from_payment p))"
      by (rule hoare_weaken [OF holds_store_new_payment [OF that(1,2)]]) simp_all
    from holds_in_uow [OF env this]
    show "holds (\<lambda>_. True) (in_uow env (store_new_payment env p now)) (\<lambda>_ w. on_record (w_db w) (from_payment p))"
      by simp
    show "holds (\<lambda>_. True) (if e = DuplicateIdempotencyKey then replay_existing env command money key else raise e) ?Q"
      for e using holds_replay [OF env] that(4) by simp
    show "holds (\<lambda>w. on_record (w_db w) (from_payment p)) (ret (from_payment p)) ?Q"
      using that(3) by (simp add: hoare_def ret_def from_payment_def)
  qed
  have lift: "holds (\<lambda>_. True) (lift_exn r) (\<lambda>x _. r = Inr x)" for r :: "exn + 'z"
    by (simp add: hoare_def lift_exn_def)
  show ?thesis
    unfolding create_payment_def Let_def
  proof (rule logic.hoare_andthen [OF lift], rule hoare_pure, rule logic.hoare_andthen [OF lift],
      rule hoare_pure, intro logic.hoare_bind safe_lift_exn safe_observations)
    fix money key url now u i
    assume "money_new (ci_amount command) (Inr (ci_currency command)) = Inr money"
      and k: "idempotency_key_new (PStr (ci_key command)) = Inr key"
    then have "payment_ok (payment_create i money (ci_description command) (ci_metadata command) key url now) \<and>
      \<not> is_terminal (payment_create i money (ci_description command) (ci_metadata command) key url now)"
      using money_new_ok by (intro payment_create_ok) (auto simp: idempotency_key_new_Inr)
    then show "holds (\<lambda>_. True)
      (attempt (in_uow env (store_new_payment env
           (payment_create i money (ci_description command) (ci_metadata command) key url now) now))
        (\<lambda>e. if e = DuplicateIdempotencyKey then replay_existing env command money key else raise e)
        (\<lambda>_. ret (from_payment (payment_create i money (ci_description command) (ci_metadata command) key url now)))) ?Q"
      using k by (intro run) (simp_all add: payment_create_def idempotency_key_new_Inr)
  qed
qed

lemma safe_get_payment: "rely env \<Longrightarrow> safe (get_payment env i)"
  unfolding get_payment_def
  by (intro safe_in_uow safe_andthen) (auto split: option.split)

section \<open>All or nothing\<close>

text \<open>
  What one creation may leave in the database, whatever fails: the database it found, or that database
  with the payment and the event about it. Here no other process interferes.
\<close>

definition alone :: "env \<Rightarrow> bool" where
  "alone env \<longleftrightarrow> (\<forall>n. e_others env n = (\<lambda>S. S))"

definition announces :: "env \<Rightarrow> payment_row \<Rightarrow> outbox_row \<Rightarrow> bool" where
  "announces env row r \<longleftrightarrow>
     ow_event_type r = PAYMENT_CREATED \<and> ow_status r = outbox_status_value NEW \<and>
     ow_published_at r = None \<and> ow_retry_count r = 0 \<and> ow_available_at r = None \<and>
     ow_claimed_at r = None \<and> ow_created_at r = pr_created_at row \<and>
     e_jsonb env (payment_created_payload (pr_id row)) = Inr (ow_payload r)"

definition both_written :: "env \<Rightarrow> string \<Rightarrow> tables \<Rightarrow> tables \<Rightarrow> bool" where
  "both_written env key d d' \<longleftrightarrow>
     (\<exists>row r. d' = d\<lparr>t_payments := t_payments d @ [row], t_outbox := t_outbox d @ [r]\<rparr> \<and>
        pr_key row = key \<and> pr_status row = status_value PENDING \<and> announces env row r)"

definition unchanged_or_both :: "env \<Rightarrow> string \<Rightarrow> tables \<Rightarrow> world \<Rightarrow> bool" where
  "unchanged_or_both env key d w \<longleftrightarrow> w_db w = d \<or> both_written env key d (w_db w)"

interpretation any: hoare_logic G "\<lambda>_ _. True" for G
  by unfold_locales simp_all

abbreviation always :: "(world \<Rightarrow> bool) \<Rightarrow> (world \<Rightarrow> bool) \<Rightarrow> 'a action \<Rightarrow> ('a \<Rightarrow> world \<Rightarrow> bool) \<Rightarrow> bool" where
  "always G \<equiv> hoare G (\<lambda>_ _. True)"

text \<open>Steps that leave the database alone, and what they do to the session.\<close>

lemma always_same_db:
  assumes "\<And>w r w'. m w = (r, w') \<Longrightarrow> w_db w' = w_db w"
    and "\<And>w r w' x. m w = (r, w') \<Longrightarrow> P w \<Longrightarrow> r = Inr x \<Longrightarrow> Q x w'"
  shows "always (unchanged_or_both env key d) P m Q"
proof (rule hoareI)
  fix w r w'
  assume "unchanged_or_both env key d w" "P w" "m w = (r, w')"
  then show "unchanged_or_both env key d w' \<and> True \<and> (\<forall>x. r = Inr x \<longrightarrow> Q x w')"
    using assms(1) [of w r w'] assms(2) [of w r w'] by (simp add: unchanged_or_both_def)
qed

definition session_is :: "tables \<Rightarrow> outbox_row list \<Rightarrow> world \<Rightarrow> bool" where
  "session_is v new w \<longleftrightarrow> w_session w = Some \<lparr>s_view = v, s_new = new\<rparr>"

lemma flush_result:
  assumes "flush env w = (r, w')"
  shows "w_db w' = w_db w"
    and "r = Inr () \<Longrightarrow> session_is v new w \<Longrightarrow>
      \<exists>v'. insert_outbox_rows env new v = Inr v' \<and> session_is v' [] w'"
  using assms
  by (auto simp: flush_def prog_defs statement_def may_fail_def observe_def flush_rows_def session_is_def
      split: option.splits sum.splits)

lemma payments_add_db: "payments_add env p w = (r, w') \<Longrightarrow> w_db w' = w_db w"
  using flush_result(1) [of env w]
  by (auto simp: payments_add_def attempt_def andthen_def run_sql_def raise_def ret_def
      split: prod.splits sum.splits option.splits if_splits)

lemma payments_add_view:
  assumes "payments_add env p w = (Inr (), w')" and "session_is v [] w"
  shows "\<exists>row. mapper_to_model env p = Inr row \<and> session_is (v\<lparr>t_payments := t_payments v @ [row]\<rparr>) [] w'"
proof -
  obtain w1 where fl: "flush env w = (Inr (), w1)" and ins: "run_sql (insert_payment env p) w1 = (Inr (), w')"
    using assms(1)
    by (auto simp: payments_add_def attempt_def andthen_def raise_def ret_def
        split: prod.splits sum.splits if_splits)
  have "session_is v [] w1" using flush_result(2) [OF fl _ assms(2)] by simp
  then show ?thesis
    using ins
    by (auto simp: session_is_def run_sql_def insert_payment_def split: prod.splits sum.splits if_splits)
qed

lemma outbox_add_effect:
  assumes "outbox_add env ty payload t w = (r, w')"
  shows "w_db w' = w_db w"
    and "r = Inr () \<Longrightarrow> session_is v [] w \<Longrightarrow> \<exists>i. session_is v [new_outbox_row i ty payload t] w'"
  using assms
  by (auto simp: outbox_add_def uuid4_def observe_def prog_defs session_add_def session_is_def
      split: option.splits)

lemma announces_new_row:
  assumes "mapper_to_model env p = Inr row" and "p_created_at p = t" and "p_status p = PENDING"
    and "insert_outbox_rows env [new_outbox_row i PAYMENT_CREATED (payment_created_payload (p_id p)) t]
      (d\<lparr>t_payments := t_payments d @ [row]\<rparr>) = Inr v"
  shows "both_written env (p_key p) d v"
proof -
  obtain payload where "e_jsonb env (payment_created_payload (p_id p)) = Inr payload"
    and "v = d\<lparr>t_payments := t_payments d @ [row],
      t_outbox := t_outbox d @ [(new_outbox_row i PAYMENT_CREATED (payment_created_payload (p_id p)) t)\<lparr>ow_payload := payload\<rparr>]\<rparr>"
    using assms(4) by (auto simp: bind_exn_Inr_iff insert_outbox_row_def new_outbox_row_def split: if_splits)
  moreover have "pr_id row = p_id p" "pr_key row = p_key p" "pr_created_at row = t"
    "pr_status row = status_value PENDING"
    using assms(1-3) unfolding mapper_to_model_def by (elim mapper_apply_Inr; simp)+
  ultimately show ?thesis
    unfolding both_written_def announces_def new_outbox_row_def by fastforce
qed

lemma always_store:
  assumes p: "p_created_at p = t" "p_status p = PENDING"
  shows "always (unchanged_or_both env (p_key p) d) (session_is d []) (store_new_payment env p t) (\<lambda>_ _. True)"
  unfolding store_new_payment_def
proof (rule any.hoare_andthen)
  let ?mid = "\<lambda>w. \<exists>row. mapper_to_model env p = Inr row \<and>
      session_is (d\<lparr>t_payments := t_payments d @ [row]\<rparr>) [] w"
  let ?pending = "\<lambda>w. \<exists>row i. mapper_to_model env p = Inr row \<and> session_is (d\<lparr>t_payments := t_payments d @ [row]\<rparr>)
      [new_outbox_row i PAYMENT_CREATED (payment_created_payload (p_id p)) t] w"
  show "always (unchanged_or_both env (p_key p) d) (session_is d []) (payments_add env p) (\<lambda>_. ?mid)"
    by (rule always_same_db) (auto dest: payments_add_db payments_add_view)
  show "always (unchanged_or_both env (p_key p) d) ?mid
     (andthen (outbox_add env PAYMENT_CREATED (payment_created_payload (p_id p)) t) (\<lambda>_. uow_commit env)) (\<lambda>_ _. True)"
  proof (rule any.hoare_andthen)
    show "always (unchanged_or_both env (p_key p) d) ?mid
       (outbox_add env PAYMENT_CREATED (payment_created_payload (p_id p)) t) (\<lambda>_. ?pending)"
    proof (rule always_same_db)
      fix w r w' and x :: unit
      assume run: "outbox_add env PAYMENT_CREATED (payment_created_payload (p_id p)) t w = (r, w')"
      show "w_db w' = w_db w" using outbox_add_effect(1) [OF run] .
      assume "?mid w" "r = Inr x"
      then show "?pending w'" using outbox_add_effect(2) [OF run] by auto
    qed
    show "always (unchanged_or_both env (p_key p) d) ?pending (uow_commit env) (\<lambda>_ _. True)"
      unfolding uow_commit_def
    proof (rule any.hoare_andthen)
      let ?ready = "\<lambda>w. \<exists>v. session_is v [] w \<and> both_written env (p_key p) d v"
      show "always (unchanged_or_both env (p_key p) d) ?pending require_session (\<lambda>_. ?pending)"
        by (rule always_same_db) (auto simp: require_session_def split: if_splits)
      show "always (unchanged_or_both env (p_key p) d) ?pending
         (andthen (flush env) (\<lambda>_. commit_transaction env)) (\<lambda>_ _. True)"
      proof (rule any.hoare_andthen)
        show "always (unchanged_or_both env (p_key p) d) ?pending (flush env) (\<lambda>_. ?ready)"
        proof (rule always_same_db)
          fix w r w' and x :: unit
          assume run: "flush env w = (r, w')"
          show "w_db w' = w_db w" using flush_result(1) [OF run] .
          assume "?pending w" "r = Inr x"
          then show "?ready w'" using flush_result(2) [OF run] announces_new_row [OF _ p] by fastforce
        qed
        show "always (unchanged_or_both env (p_key p) d) ?ready (commit_transaction env) (\<lambda>_ _. True)"
          by (auto simp: hoare_def commit_transaction_def observe_def prog_defs apply_transaction_def
              session_is_def unchanged_or_both_def split: option.splits if_splits)
      qed
    qed
  qed
qed

lemma always_in_uow:
  assumes "alone env"
    and body: "\<And>d'. always (unchanged_or_both env key d) (\<lambda>w. P w \<and> w_db w = d' \<and> session_is d' [] w) body (\<lambda>_ _. True)"
    and P: "\<And>w. P w \<Longrightarrow> P (open_session env w)"
  shows "always (unchanged_or_both env key d) P (in_uow env body) (\<lambda>_ _. True)"
proof (rule hoareI)
  fix w r w'
  assume w: "unchanged_or_both env key d w" "P w" and run: "in_uow env body w = (r, w')"
  have opened: "w_db (open_session env w) = w_db w" "session_is (w_db w) [] (open_session env w)"
    using assms(1) by (simp_all add: open_session_def alone_def session_is_def split: prod.split)
  obtain r1 w1 where eq: "body (open_session env w) = (r1, w1)" by fastforce
  obtain r2 w2 where eq2: "uow_exit env (isl r1) w1 = (r2, w2)" by fastforce
  have "unchanged_or_both env key d w1"
    by (rule hoareD(1) [OF body [of "w_db w"] _ _ eq])
      (use w P opened in \<open>simp_all add: unchanged_or_both_def\<close>)
  moreover have "w_db w' = w_db w1"
    using run eq eq2 exit_world(1) [OF eq2]
    by (auto simp: in_uow_def with_session_def close_session_def split: sum.splits)
  ultimately show "unchanged_or_both env key d w' \<and> True \<and> (\<forall>x. r = Inr x \<longrightarrow> True)"
    by (simp add: unchanged_or_both_def)
qed

lemma always_replay:
  assumes "alone env"
  shows "always (unchanged_or_both env key d) P (replay_existing env command money k) (\<lambda>_ _. True)"
  unfolding replay_existing_def
proof (rule any.hoare_bind)
  have "always (unchanged_or_both env key d) Q (payments_get_by_key env k) (\<lambda>_ _. True)" for Q
    by (rule always_same_db)
      (auto simp: payments_get_by_key_def query_def andthen_def run_sql_def statement_def may_fail_def
        observe_def ret_def raise_def split: option.splits prod.splits sum.splits)
  then have "always (unchanged_or_both env key d) (\<lambda>_. True) (in_uow env (payments_get_by_key env k)) (\<lambda>_ _. True)"
    using assms by (intro always_in_uow) simp_all
  then show "always (unchanged_or_both env key d) P (in_uow env (payments_get_by_key env k)) (\<lambda>_ _. True)"
    by (rule hoare_weaken) simp_all
qed (auto simp: hoare_def ret_def raise_def split: option.split)

lemma always_create:
  assumes "alone env"
  shows "always (unchanged_or_both env (ci_key c) d) (\<lambda>w. w_db w = d) (create_payment env c) (\<lambda>_ _. True)"
proof -
  let ?P = "\<lambda>w. w_db w = d"
  let ?G = "unchanged_or_both env (ci_key c) d"
  have run: "always ?G ?P (attempt (in_uow env (store_new_payment env p t))
      (\<lambda>e. if e = DuplicateIdempotencyKey then replay_existing env c money key else raise e)
      (\<lambda>_. ret (from_payment p))) (\<lambda>_ _. True)"
    if "p_created_at p = t" "p_status p = PENDING" "p_key p = ci_key c" for p t money key
  proof (rule any.hoare_attempt)
    show "always ?G ?P (in_uow env (store_new_payment env p t)) (\<lambda>_ _. True)"
    proof (rule always_in_uow [OF assms])
      fix d'
      show "always ?G (\<lambda>w. ?P w \<and> w_db w = d' \<and> session_is d' [] w) (store_new_payment env p t) (\<lambda>_ _. True)"
        using always_store [OF that(1,2), of env d] unfolding that(3)
        by (rule hoare_weaken) auto
    qed (use assms in \<open>auto simp: open_session_def alone_def\<close>)
    show "always ?G (\<lambda>_. True) (if e = DuplicateIdempotencyKey then replay_existing env c money key else raise e)
        (\<lambda>_ _. True)" for e
      using always_replay [OF assms] by (auto intro: any.hoare_raise)
    show "always ?G (\<lambda>_. True) (ret (from_payment p)) (\<lambda>_ _. True)" by (simp add: hoare_def ret_def)
  qed
  have same: "always ?G ?P m (\<lambda>_. ?P)" if "\<And>w r w'. m w = (r, w') \<Longrightarrow> w_db w' = w_db w" for m :: "'z action"
    by (rule always_same_db) (use that in auto)
  have lift: "always ?G ?P (lift_exn r) (\<lambda>x w. r = Inr x \<and> ?P w)" for r :: "exn + 'z"
    by (rule always_same_db) (auto simp: lift_exn_def)
  have pure: "always ?G (\<lambda>w. b \<and> ?P w) m Q" if "b \<Longrightarrow> always ?G ?P m Q" for b m and Q :: "'z \<Rightarrow> world \<Rightarrow> bool"
    using that by (cases b) (simp_all add: hoare_def)
  show ?thesis
    unfolding create_payment_def Let_def
  proof (rule any.hoare_andthen [OF lift], rule pure, rule any.hoare_andthen [OF lift], rule pure,
      rule any.hoare_andthen [OF same], goal_cases)
    case 1
    then show ?case by (simp add: lift_exn_def)
  next
    case (2 money key url)
    show ?case
    proof (rule any.hoare_andthen [OF same], goal_cases)
      case 1
      then show ?case by (auto simp: clock_now_def observe_def)
    next
      case 2
      show ?case
      proof (rule any.hoare_andthen [OF same], goal_cases)
        case 1
        then show ?case by (auto simp: uuid4_def observe_def)
      next
        case 2
        show ?case
        proof (rule any.hoare_andthen [OF same], goal_cases)
          case 1
          then show ?case by (simp add: lift_exn_def)
        next
          case 2
          show ?case
            by (rule run)
              (use \<open>idempotency_key_new (PStr (ci_key c)) = Inr key\<close> in
                \<open>simp_all add: payment_create_def idempotency_key_new_Inr\<close>)
        qed
      qed
    qed
  qed
qed

lemma both_written_keys:
  "both_written env key d d' \<Longrightarrow> distinct (map pr_key (t_payments d')) \<Longrightarrow> key \<notin> pr_key ` set (t_payments d)"
  by (auto simp: both_written_def)

section \<open>Without faults\<close>

text \<open>The command passes the domain's checks, and the payment a creation in the world \<open>w\<close> makes of it.\<close>

definition valid_command :: "create_input \<Rightarrow> money \<Rightarrow> bool" where
  "valid_command c money \<longleftrightarrow>
     money_new (ci_amount c) (Inr (ci_currency c)) = Inr money \<and> key_ok (ci_key c) \<and>
     webhook_url_new (ci_webhook_url c) = Inr (ci_webhook_url c)"

definition planned_payment :: "env \<Rightarrow> create_input \<Rightarrow> money \<Rightarrow> world \<Rightarrow> payment" where
  "planned_payment env c money w =
     payment_create (e_uuid env (w_tick w + 1)) money (ci_description c) (ci_metadata c) (ci_key c)
       (ci_webhook_url c) (e_now env (w_tick w))"

text \<open>The driver's message names the unique constraint it is about.\<close>

definition driver_names_key :: "env \<Rightarrow> bool" where
  "driver_names_key env \<longleftrightarrow>
     contains ''uq_payments_idempotency_key'' (lower (e_driver_text env ''uq_payments_idempotency_key''))"

lemma create_unfold:
  assumes "valid_command c money"
  shows "create_payment env c w =
    attempt (in_uow env (store_new_payment env (planned_payment env c money w) (e_now env (w_tick w))))
      (\<lambda>e. if e = DuplicateIdempotencyKey then replay_existing env c money (ci_key c) else raise e)
      (\<lambda>_. ret (from_payment (planned_payment env c money w)))
      (w\<lparr>w_tick := w_tick w + 2\<rparr>)"
proof -
  have k: "idempotency_key_new (PStr (ci_key c)) = Inr (ci_key c)"
    using assms by (simp add: idempotency_key_new_Inr valid_command_def)
  show ?thesis
    unfolding create_payment_def
    using assms k
    by (simp add: valid_command_def andthen_def lift_exn_def clock_now_def uuid4_def observe_def
        payment_id_new_def Let_def planned_payment_def)
qed

lemma flush_calm:
  "calm env \<Longrightarrow> session_is v [] w \<Longrightarrow> flush env w = (Inr (), w\<lparr>w_tick := w_tick w + 1\<rparr>)"
  by (cases w) (simp add: flush_def andthen_def statement_calm flush_rows_def session_is_def)

lemma payments_add_calm:
  assumes "calm env" and "session_is v [] w"
  shows "payments_add env p w =
    (case insert_payment env p v of
       (Inr _, v') \<Rightarrow> (Inr (), w\<lparr>w_tick := w_tick w + 1, w_session := Some \<lparr>s_view = v', s_new = []\<rparr>\<rparr>)
     | (Inl e, v') \<Rightarrow> (Inl (if is_idempotency_conflict e then DuplicateIdempotencyKey else e),
                      w\<lparr>w_tick := w_tick w + 1, w_session := Some \<lparr>s_view = v', s_new = []\<rparr>\<rparr>))"
proof -
  have "is_idempotency_conflict e \<Longrightarrow> is_exception e" for e
    by (cases e) (simp_all add: is_exception_def)
  then show ?thesis
    using assms
    by (auto simp: payments_add_def prog_defs flush_calm [OF assms] run_sql_def session_is_def
        split: prod.split sum.split)
qed

text \<open>A new key: the payment and the event are written, and the output describes the payment.\<close>

lemma create_new_calm:
  assumes env: "calm env" and cmd: "valid_command c money"
    and row: "mapper_to_model env (planned_payment env c money w) = Inr row"
    and new: "find_payment (w_db w) (pr_id row) = None" "pr_key row \<notin> pr_key ` set (t_payments (w_db w))"
    and event: "insert_outbox_rows env
      [new_outbox_row (e_uuid env (w_tick w + 4)) PAYMENT_CREATED (payment_created_payload (pr_id row)) (e_now env (w_tick w))]
      ((w_db w)\<lparr>t_payments := t_payments (w_db w) @ [row]\<rparr>) = Inr v"
  shows "create_payment env c w =
    (Inr (from_payment (planned_payment env c money w)),
     w\<lparr>w_db := v, w_session := None, w_tick := w_tick w + 8\<rparr>)"
proof -
  let ?p = "planned_payment env c money w"
  have id: "p_id ?p = pr_id row"
    using row unfolding mapper_to_model_def by (elim mapper_apply_Inr) simp
  have four: "w_tick w + 4 = Suc (Suc (Suc (Suc (w_tick w))))" by simp
  note commit = commit_calm [OF env _, of _ "\<lparr>s_view = (w_db w)\<lparr>t_payments := t_payments (w_db w) @ [row]\<rparr>,
    s_new = [new_outbox_row (e_uuid env (Suc (Suc (Suc (Suc (w_tick w)))))) PAYMENT_CREATED
      (payment_created_payload (pr_id row)) (e_now env (w_tick w))]\<rparr>" v]
  have run: "in_uow env (store_new_payment env ?p (e_now env (w_tick w))) (w\<lparr>w_tick := w_tick w + 2\<rparr>) =
      (Inr (), w\<lparr>w_db := v, w_session := None, w_tick := w_tick w + 8\<rparr>)"
  proof (subst in_uow_calm [OF env])
    show "store_new_payment env ?p (e_now env (w_tick w))
        ((w\<lparr>w_tick := w_tick w + 2\<rparr>)\<lparr>w_session := Some \<lparr>s_view = w_db (w\<lparr>w_tick := w_tick w + 2\<rparr>), s_new = []\<rparr>,
          w_tick := w_tick (w\<lparr>w_tick := w_tick w + 2\<rparr>) + 1\<rparr>) =
        (Inr (), w\<lparr>w_db := v, w_session := Some \<lparr>s_view = v, s_new = []\<rparr>, w_tick := w_tick w + 7\<rparr>)"
      using row new event [unfolded four] env
      by (simp add: store_new_payment_def andthen_def payments_add_calm [OF env, of "w_db w"] session_is_def
          insert_payment_def outbox_add_def uuid4_def observe_def session_add_def id commit)
  qed simp_all
  show ?thesis unfolding create_unfold [OF cmd] by (simp only: attempt_def run) (simp add: ret_def)
qed

text \<open>A key in use: the payment that has it is returned, or the conflict is reported with its id.\<close>

lemma in_uow_query_calm:
  assumes env: "calm env" and f: "f (w_db w) = r"
  shows "in_uow env (query env f) w = (r, w\<lparr>w_session := None, w_tick := w_tick w + (if isl r then 4 else 3)\<rparr>)"
proof -
  have "query env f (w\<lparr>w_session := Some \<lparr>s_view = w_db w, s_new = []\<rparr>, w_tick := w_tick w + 1\<rparr>) =
      (r, w\<lparr>w_session := Some \<lparr>s_view = w_db w, s_new = []\<rparr>, w_tick := w_tick w + 2\<rparr>)"
    by (subst query_calm [OF env, where s = "\<lparr>s_view = w_db w, s_new = []\<rparr>"]) (simp_all add: f)
  from in_uow_calm [where body = "query env f" and w = w, OF env this] show ?thesis by simp
qed

lemma filter_key_unique:
  "distinct (map f xs) \<Longrightarrow> x \<in> set xs \<Longrightarrow> f x = k \<Longrightarrow> filter (\<lambda>y. f y = k) xs = [x]"
  using filter_eq_key_distinct [of f xs x] by simp

lemma create_existing_calm:
  assumes env: "calm env" "driver_names_key env" and cmd: "valid_command c money" and w: "good w"
    and row: "mapper_to_model env (planned_payment env c money w) = Inr row"
    and new: "find_payment (w_db w) (pr_id row) = None"
    and old: "r \<in> set (t_payments (w_db w))" "pr_key r = ci_key c" "mapper_to_domain r = Inr p"
  shows "\<exists>n. create_payment env c w =
    (if has_matching_create_input p c money then Inr (from_payment p) else Inl (IdempotencyConflict (Some (p_id p))),
     w\<lparr>w_session := None, w_tick := n\<rparr>)"
proof -
  let ?p = "planned_payment env c money w"
  have key: "pr_key row = ci_key c"
    using row unfolding mapper_to_model_def by (elim mapper_apply_Inr) (simp add: planned_payment_def payment_create_def)
  have "pr_key row \<in> pr_key ` set (t_payments (w_db w))" using old(1,2) key by (metis imageI)
  then have ins: "insert_payment env ?p (w_db w) =
      (Inl (unique_violation env ''uq_payments_idempotency_key''), w_db w)"
    using row new by (simp add: insert_payment_def)
  have conflict: "is_idempotency_conflict (unique_violation env ''uq_payments_idempotency_key'')"
    using env(2) by (simp add: unique_violation_def driver_names_key_def)
  have failed: "in_uow env (store_new_payment env ?p (e_now env (w_tick w))) (w\<lparr>w_tick := w_tick w + 2\<rparr>) =
      (Inl DuplicateIdempotencyKey, w\<lparr>w_session := None, w_tick := w_tick w + 6\<rparr>)"
  proof (subst in_uow_calm [OF env(1)])
    show "store_new_payment env ?p (e_now env (w_tick w))
        ((w\<lparr>w_tick := w_tick w + 2\<rparr>)\<lparr>w_session := Some \<lparr>s_view = w_db (w\<lparr>w_tick := w_tick w + 2\<rparr>), s_new = []\<rparr>,
          w_tick := w_tick (w\<lparr>w_tick := w_tick w + 2\<rparr>) + 1\<rparr>) =
        (Inl DuplicateIdempotencyKey,
         w\<lparr>w_session := Some \<lparr>s_view = w_db w, s_new = []\<rparr>, w_tick := w_tick w + 4\<rparr>)"
      by (simp add: store_new_payment_def andthen_def payments_add_calm [OF env(1), of "w_db w"]
          session_is_def ins conflict)
  qed simp_all
  have inv: "distinct (map pr_key (t_payments (w_db w)))" using w by (simp add: good_def tables_inv_def)
  have found: "bind_exn (scalar_one_or_none (filter (\<lambda>r. pr_key r = ci_key c) (t_payments (w_db w)))) optional_payment
      = Inr (Some p)"
    using filter_key_unique [OF inv old(1,2)] old(3)
    by (simp add: scalar_one_or_none_def optional_payment_def)
  have "in_uow env (payments_get_by_key env (ci_key c)) (w\<lparr>w_session := None, w_tick := w_tick w + 6\<rparr>) =
      (Inr (Some p), w\<lparr>w_session := None, w_tick := w_tick w + 9\<rparr>)"
    unfolding payments_get_by_key_def by (subst in_uow_query_calm [OF env(1), where r = "Inr (Some p)"]) (simp_all add: found)
  then have "create_payment env c w =
    (if has_matching_create_input p c money then Inr (from_payment p) else Inl (IdempotencyConflict (Some (p_id p))),
     w\<lparr>w_session := None, w_tick := w_tick w + 9\<rparr>)"
    unfolding create_unfold [OF cmd]
    by (simp only: attempt_def failed) (simp add: is_exception_def replay_existing_def andthen_def ret_def raise_def)
  then show ?thesis by blast
qed

lemma get_payment_calm:
  assumes env: "calm env" and w: "good w"
  shows "fst (get_payment env i w) =
      (case find_payment (w_db w) i of
         None \<Rightarrow> Inl (PaymentNotFound i)
       | Some row \<Rightarrow> (case mapper_to_domain row of Inl e \<Rightarrow> Inl e | Inr p \<Rightarrow> Inr (from_payment p))) \<and>
    w_db (snd (get_payment env i w)) = w_db w"
proof -
  let ?body = "andthen (lift_exn (payment_id_new (Inl i))) (\<lambda>pid. andthen (payments_get env pid) (\<lambda>found.
          case found of None \<Rightarrow> raise (PaymentNotFound i) | Some p \<Rightarrow> ret (from_payment p)))"
  let ?w0 = "w\<lparr>w_session := Some \<lparr>s_view = w_db w, s_new = []\<rparr>, w_tick := w_tick w + 1\<rparr>"
  obtain r where body: "?body ?w0 = (r, ?w0\<lparr>w_tick := w_tick w + 2\<rparr>)"
    and r: "r = (case find_payment (w_db w) i of
         None \<Rightarrow> Inl (PaymentNotFound i)
       | Some row \<Rightarrow> (case mapper_to_domain row of Inl e \<Rightarrow> Inl e | Inr p \<Rightarrow> Inr (from_payment p)))"
    by (simp add: andthen_def lift_exn_def payment_id_new_def payments_get_def
        query_calm [OF env, where s = "\<lparr>s_view = w_db w, s_new = []\<rparr>"] optional_payment_def
        raise_def ret_def split: option.split sum.split)
  show ?thesis
    using in_uow_calm [where body = ?body and w = w, OF env body]
    by (simp add: get_payment_def r)
qed

section \<open>An example\<close>

definition sample_money :: money where
  "sample_money = \<lparr>m_amount = Dec False 1050 (- 2), m_currency = RUB\<rparr>"

definition sample_command :: create_input where
  "sample_command = \<lparr>ci_amount = ADecimal (Dec False 105 (- 1)), ci_currency = ''RUB'', ci_description = ''tea'',
     ci_metadata = [(''order'', PInt 7)], ci_webhook_url = ''https://example.com/h'', ci_key = ''k-1''\<rparr>"

definition sample_row :: payment_row where
  "sample_row = \<lparr>pr_id = 1, pr_amount = 1050, pr_currency = ''RUB'', pr_description = ''tea'',
     pr_extra = [(''order'', PInt 7)], pr_status = ''pending'', pr_key = ''k-1'',
     pr_webhook_url = ''https://example.com/h'', pr_created_at = 0, pr_processed_at = None\<rparr>"

definition sample_tables :: tables where
  "sample_tables = empty_tables\<lparr>t_payments := [sample_row],
     t_outbox := [new_outbox_row 4 PAYMENT_CREATED (payment_created_payload 1) 0]\<rparr>"

lemma sample_valid: "valid_command sample_command sample_money"
proof -
  have "money_new (ci_amount sample_command) (Inr (ci_currency sample_command)) = Inr sample_money"
    by code_simp
  moreover have "key_ok (ci_key sample_command)" by code_simp
  moreover have "webhook_url_new (ci_webhook_url sample_command) = Inr (ci_webhook_url sample_command)"
    by code_simp
  ultimately show ?thesis by (simp add: valid_command_def)
qed

lemma sample_model:
  "mapper_to_model quiet_env (planned_payment quiet_env sample_command sample_money empty_world) = Inr sample_row"
  by code_simp

lemma sample_run:
  "create_payment quiet_env sample_command empty_world =
     (Inr (from_payment (planned_payment quiet_env sample_command sample_money empty_world)),
      empty_world\<lparr>w_db := sample_tables, w_tick := 8\<rparr>)"
proof -
  have "insert_outbox_rows quiet_env
      [new_outbox_row 4 PAYMENT_CREATED (payment_created_payload 1) 0]
      (empty_tables\<lparr>t_payments := [sample_row]\<rparr>) = Inr sample_tables"
    by code_simp
  then show ?thesis
    using create_new_calm [OF quiet_calm sample_valid sample_model, of sample_tables]
    by (simp add: empty_world_def empty_tables_def find_payment_def sample_row_def quiet_env_def)
qed

text \<open>The world after the example.\<close>

definition sample_world :: world where
  "sample_world = empty_world\<lparr>w_db := sample_tables, w_tick := 8\<rparr>"

lemma sample_good: "good sample_world" "step empty_world sample_world"
  using hoareD(1,2) [OF holds_create_payment [OF quiet_rely] empty_good TrueI sample_run]
  by (simp_all add: sample_world_def)

lemma sample_model_again:
  "mapper_to_model quiet_env (planned_payment quiet_env sample_command sample_money sample_world) =
     Inr (sample_row\<lparr>pr_id := 9\<rparr>)"
  by code_simp

definition sample_payment :: payment where
  "sample_payment = planned_payment quiet_env sample_command sample_money empty_world"

lemma sample_domain: "mapper_to_domain sample_row = Inr sample_payment"
  by code_simp

lemma quiet_driver: "driver_names_key quiet_env"
  by code_simp

lemma sample_matches: "has_matching_create_input sample_payment sample_command sample_money"
  by code_simp

section \<open>Properties\<close>

text \<open>C5: An idempotency key belongs to one payment, for good: two creations with the same key that both
  return, in any processes, with any faults of the database and anything the other processes do in
  between, return the same payment id, amount, currency, description, URL and creation time.\<close>

theorem same_key_same_payment:
  assumes "rely env" and "rely env'" and "good w" and "create_payment env c w = (Inr out, w1)"
    and "step w1 w2" and "good w2" and "create_payment env' c' w2 = (Inr out', w3)"
    and "ci_key c' = ci_key c"
  shows "po_payment_id out' = po_payment_id out \<and> po_amount out' = po_amount out \<and>
    po_currency out' = po_currency out \<and> po_description out' = po_description out \<and>
    po_webhook_url out' = po_webhook_url out \<and> po_created_at out' = po_created_at out"
proof -
  note first = hoareD [OF holds_create_payment [OF assms(1)] assms(3) TrueI assms(4)]
  note second = hoareD [OF holds_create_payment [OF assms(2)] assms(6) TrueI assms(7)]
  have "on_record (w_db w3) out"
    using first(3) assms(5) second(2) on_record_step logic.step_trans by blast
  moreover have "tables_inv (w_db w3) (w_sent w3)" using second(1) by (simp add: good_def)
  ultimately show ?thesis
    using on_record_unique [of "w_db w3" "w_sent w3" out' out] first(3) second(3) assms(8) by simp
qed

theorem same_key_same_payment_witness:
  "\<exists>out w3. create_payment quiet_env sample_command sample_world = (Inr out, w3) \<and> po_payment_id out = 1"
proof -
  have new: "find_payment (w_db sample_world) (pr_id (sample_row\<lparr>pr_id := 9\<rparr>)) = None" by code_simp
  have old: "sample_row \<in> set (t_payments (w_db sample_world))" "pr_key sample_row = ci_key sample_command"
    by (simp_all add: sample_world_def sample_tables_def sample_row_def sample_command_def)
  obtain n where again: "create_payment quiet_env sample_command sample_world =
      (Inr (from_payment sample_payment), sample_world\<lparr>w_session := None, w_tick := n\<rparr>)"
    using create_existing_calm [OF quiet_calm quiet_driver sample_valid sample_good(1) sample_model_again new old
        sample_domain] sample_matches by auto
  have "step sample_world sample_world" by simp
  from same_key_same_payment [OF quiet_rely quiet_rely empty_good sample_run [folded sample_world_def] this
      sample_good(1) again refl] again
  show ?thesis by (auto simp: from_payment_def planned_payment_def payment_create_def quiet_env_def empty_world_def)
qed

text \<open>C4: The transactional outbox: a creation, whatever fails and wherever it is cancelled, leaves the
  database as it was or with both the pending payment and the unpublished event that names it; when the
  key is in use it writes nothing, and when a creation with a new key returns, both are there.\<close>

theorem create_all_or_nothing:
  assumes "alone env" and "rely env" and "good w" and "create_payment env c w = (r, w')"
  shows "(if ci_key c \<in> pr_key ` set (t_payments (w_db w)) then w_db w' = w_db w
          else w_db w' = w_db w \<or> both_written env (ci_key c) (w_db w) (w_db w')) \<and>
    (\<forall>out. r = Inr out \<longrightarrow> ci_key c \<notin> pr_key ` set (t_payments (w_db w)) \<longrightarrow>
       both_written env (ci_key c) (w_db w) (w_db w'))"
proof -
  note ran = hoareD [OF holds_create_payment [OF assms(2)] assms(3) TrueI assms(4)]
  have "unchanged_or_both env (ci_key c) (w_db w) w'"
    using hoareD(1) [OF always_create [OF assms(1), where c = c and d = "w_db w"] _ _ assms(4)]
    by (simp add: unchanged_or_both_def)
  then have db: "w_db w' = w_db w \<or> both_written env (ci_key c) (w_db w) (w_db w')"
    by (simp add: unchanged_or_both_def)
  moreover have "distinct (map pr_key (t_payments (w_db w')))" using ran(1) by (simp add: good_def tables_inv_def)
  then have "w_db w' = w_db w" if "ci_key c \<in> pr_key ` set (t_payments (w_db w))"
    using that db both_written_keys by blast
  moreover have "w_db w' \<noteq> w_db w" if out: "r = Inr out" and new: "ci_key c \<notin> pr_key ` set (t_payments (w_db w))" for out
  proof
    assume same: "w_db w' = w_db w"
    obtain row where "find_payment (w_db w) (po_payment_id out) = Some row" "output_of_row out row"
      using ran(3) [OF out] by (auto simp: on_record_def same)
    moreover have "po_key out = ci_key c" using ran(3) [OF out] by simp
    ultimately show False using new payments.lookup_key by (fastforce simp: output_of_row_def)
  qed
  ultimately show ?thesis by auto
qed

theorem create_all_or_nothing_witness:
  "both_written quiet_env ''k-1'' empty_tables sample_tables"
proof -
  have "alone quiet_env" by (simp add: alone_def quiet_env_def)
  from create_all_or_nothing [OF this quiet_rely empty_good sample_run]
  show ?thesis by (simp add: empty_world_def empty_tables_def sample_command_def)
qed

text \<open>C6: A request replayed without faults is answered from the record: with the payment as it is now when
  amount, currency, description, metadata and URL match, with a conflict that names the payment when one
  of them differs; the database is not touched.\<close>

theorem replay_answers_from_record:
  assumes "calm env" and "driver_names_key env" and "valid_command c money" and "good w"
    and "mapper_to_model env (planned_payment env c money w) = Inr row"
    and "find_payment (w_db w) (pr_id row) = None"
    and "r \<in> set (t_payments (w_db w))" and "pr_key r = ci_key c" and "mapper_to_domain r = Inr p"
  shows "fst (create_payment env c w) =
      (if money_eq (p_money p) money \<and> p_description p = ci_description c \<and>
          dict_eq (p_metadata p) (ci_metadata c) \<and> p_webhook_url p = ci_webhook_url c
       then Inr (from_payment p) else Inl (IdempotencyConflict (Some (p_id p)))) \<and>
    w_db (snd (create_payment env c w)) = w_db w"
  using create_existing_calm [OF assms] by (auto simp: has_matching_create_input_def)

theorem replay_answers_from_record_witness:
  "fst (create_payment quiet_env (sample_command\<lparr>ci_description := ''coffee''\<rparr>) sample_world) =
     Inl (IdempotencyConflict (Some 1))"
proof -
  let ?c = "sample_command\<lparr>ci_description := ''coffee''\<rparr>"
  have valid: "valid_command ?c sample_money" using sample_valid by (simp add: valid_command_def)
  have model: "mapper_to_model quiet_env (planned_payment quiet_env ?c sample_money sample_world) =
      Inr (sample_row\<lparr>pr_id := 9, pr_description := ''coffee''\<rparr>)" by code_simp
  have new: "find_payment (w_db sample_world) (pr_id (sample_row\<lparr>pr_id := 9, pr_description := ''coffee''\<rparr>)) = None"
    by code_simp
  have old: "sample_row \<in> set (t_payments (w_db sample_world))" "pr_key sample_row = ci_key ?c"
    by (simp_all add: sample_world_def sample_tables_def sample_row_def sample_command_def)
  have "p_description sample_payment = ''tea''" "p_id sample_payment = 1"
    by (simp_all add: sample_payment_def planned_payment_def payment_create_def sample_command_def
        quiet_env_def empty_world_def)
  with replay_answers_from_record [OF quiet_calm quiet_driver valid sample_good(1) model new old sample_domain]
  show ?thesis by simp
qed

text \<open>Without faults, reading a payment gives exactly what is stored under the id, or
  \<open>PaymentNotFound\<close> with the id when there is none, and changes nothing.\<close>

lemma get_payment_reads:
  assumes "calm env" and "good w"
  shows "fst (get_payment env i w) =
      (case find_payment (w_db w) i of
         None \<Rightarrow> Inl (PaymentNotFound i)
       | Some row \<Rightarrow> (case mapper_to_domain row of Inl e \<Rightarrow> Inl e | Inr p \<Rightarrow> Inr (from_payment p))) \<and>
    w_db (snd (get_payment env i w)) = w_db w"
  using assms by (rule get_payment_calm)

lemma get_payment_reads_witness:
  "fst (get_payment quiet_env 1 sample_world) = Inr (from_payment sample_payment) \<and>
   fst (get_payment quiet_env 2 sample_world) = Inl (PaymentNotFound 2)"
proof -
  have "find_payment (w_db sample_world) 1 = Some sample_row" "find_payment (w_db sample_world) 2 = None"
    by code_simp+
  then show ?thesis
    using get_payment_reads [OF quiet_calm sample_good(1), of 1] get_payment_reads [OF quiet_calm sample_good(1), of 2]
    by (simp add: sample_domain)
qed

end
