(* ===== verification/PublishOutbox.thy ===== *)
theory PublishOutbox
  imports Outside Retry CreatePayment
begin

text \<open>
  \<open>src/application/use_cases/publish_outbox.py\<close>, \<open>src/application/outbox/purge.py\<close> and \<open>gauges.py\<close>: one batch
  of the outbox is claimed, published and marked; what cannot be published is released for a later
  attempt or given up. The lemmas show that a row says it has been published only after its event is with
  the broker, and that no event is lost on the way.
\<close>

section \<open>OutboxQueueGauges and PurgeProcessedOutbox\<close>

definition metric :: "(outbox_metrics_state \<Rightarrow> outbox_metrics_state) \<Rightarrow> unit action" where
  "metric f = modifies (\<lambda>w. w\<lparr>w_metrics := f (w_metrics w)\<rparr>)"

definition gauges_refresh :: "env \<Rightarrow> outbox_metrics \<Rightarrow> unit action" where
  "gauges_refresh env metrics =
     andthen
       (in_uow env
         (andthen (count_pending env) (\<lambda>pending_count.
          andthen (count_failed env) (\<lambda>failed_count. ret (pending_count, failed_count)))))
       (\<lambda>(pending_count, failed_count).
          andthen (metric (set_queue_size metrics pending_count)) (\<lambda>_.
          metric (set_failed_count metrics failed_count)))"

definition purge_execute :: "env \<Rightarrow> int \<Rightarrow> int \<Rightarrow> unit action" where
  "purge_execute env retention_days batch_size =
     andthen (clock_now env) (\<lambda>now.
       in_uow env
         (andthen (delete_processed_before env (now - days retention_days) batch_size) (\<lambda>_.
          uow_commit env)))"

section \<open>PublishOutbox\<close>

record publish_outbox =
  px_batch_size :: int
  px_max_attempts :: int
  px_claim_timeout :: int
  px_retention_days :: int
  px_backoff :: exp_delay
  px_metrics :: outbox_metrics

definition publish_outbox_new ::
    "int \<Rightarrow> int \<Rightarrow> rat \<Rightarrow> int \<Rightarrow> rat \<Rightarrow> rat \<Rightarrow> bool \<Rightarrow> outbox_metrics \<Rightarrow> publish_outbox" where
  "publish_outbox_new batch_size max_attempts claim_timeout_seconds retention_days
     retry_initial_seconds retry_cap_seconds use_jitter metrics =
     \<lparr>px_batch_size = batch_size, px_max_attempts = max_attempts,
      px_claim_timeout = seconds claim_timeout_seconds, px_retention_days = retention_days,
      px_backoff = \<lparr>d_initial = retry_initial_seconds, d_cap = retry_cap_seconds, d_jitter = use_jitter\<rparr>,
      px_metrics = metrics\<rparr>"

text \<open>The defaults of the constructor.\<close>

definition default_publish_outbox :: publish_outbox where
  "default_publish_outbox = publish_outbox_new 50 8 60 3 1 60 True null_outbox_metrics"

definition log_fields :: "outbox_record \<Rightarrow> int option \<Rightarrow> pydict" where
  "log_fields record retry_count =
     [(''outbox_id'', PStr (uuid_str (r_id record))), (''event_type'', PStr (r_event_type record)),
      (''payment_id'', dict_get (r_payload record) ''payment_id'')]
     @ (case retry_count of None \<Rightarrow> [] | Some n \<Rightarrow> [(''retry_count'', PInt n)])"

definition publish_claim :: "env \<Rightarrow> publish_outbox \<Rightarrow> outbox_record list action" where
  "publish_claim env po =
     andthen (clock_now env) (\<lambda>now.
       in_uow env
         (andthen (claim_batch env (px_batch_size po) now (now - px_claim_timeout po)) (\<lambda>records.
          andthen (if records \<noteq> [] then uow_commit env else ret ()) (\<lambda>_. ret records))))"

definition publish_one :: "env \<Rightarrow> outbox_record \<Rightarrow> unit action" where
  "publish_one env record =
     andthen (lift_exn (codec_encode (e_rt env) record)) (\<lambda>(body, headers).
       publisher_publish env NEW_ROUTING_KEY body (Some headers) None)"

definition publish_mark :: "env \<Rightarrow> outbox_record \<Rightarrow> unit action" where
  "publish_mark env record =
     in_uow env
       (andthen (clock_now env) (\<lambda>now.
        andthen (mark_processed env (r_id record) now) (\<lambda>_. uow_commit env)))"

definition publish_deliver :: "env \<Rightarrow> outbox_record \<Rightarrow> unit action" where
  "publish_deliver env record = andthen (publish_one env record) (\<lambda>_. publish_mark env record)"

text \<open>\<open>random.random()\<close> is drawn only when the schedule has jitter.\<close>

definition drawn_delay :: "env \<Rightarrow> exp_delay \<Rightarrow> int \<Rightarrow> rat action" where
  "drawn_delay env s attempts =
     andthen (if d_jitter s then random_random env else ret 0) (\<lambda>u. lift_exn (delay_for s u attempts))"

definition retry_or_fail :: "env \<Rightarrow> publish_outbox \<Rightarrow> outbox_record \<Rightarrow> unit action" where
  "retry_or_fail env po record =
     (let attempts = r_retry_count record + 1
      in andthen (clock_now env) (\<lambda>now.
         andthen (if px_max_attempts po \<le> attempts then ret (OUTBOX_FAILED, None)
                  else andthen (drawn_delay env (px_backoff po) attempts)
                         (\<lambda>delay. ret (NEW, Some (now + seconds delay)))) (\<lambda>(status, available_at).
           in_uow env
             (andthen (queue_release env (r_id record) status attempts available_at) (\<lambda>_.
              uow_commit env)))))"

text \<open>The loop over the claimed records, with the count so far.\<close>

fun publish_each :: "env \<Rightarrow> publish_outbox \<Rightarrow> int \<Rightarrow> outbox_record list \<Rightarrow> int action" where
  "publish_each env po published [] = ret published"
| "publish_each env po published (record # records) =
     andthen
       (attempt (publish_deliver env record)
         (\<lambda>_. andthen (metric (record_error (px_metrics po))) (\<lambda>_.
               andthen (retry_or_fail env po record) (\<lambda>_. ret published)))
         (\<lambda>_. andthen (clock_now env) (\<lambda>now.
               andthen (metric (record_published (px_metrics po) (total_seconds (now - r_created_at record))))
                 (\<lambda>_. ret (published + 1)))))
       (\<lambda>published'. publish_each env po published' records)"

definition publish_execute :: "env \<Rightarrow> publish_outbox \<Rightarrow> int action" where
  "publish_execute env po =
     andthen (perf_counter env) (\<lambda>started.
     andthen (publish_claim env po) (\<lambda>records.
       finally_do
         (if records = []
          then andthen (purge_execute env (px_retention_days po) (px_batch_size po)) (\<lambda>_. ret 0)
          else publish_each env po 0 records)
         (andthen (perf_counter env) (\<lambda>ended.
          andthen (metric (observe_batch (px_metrics po) (ended - started))) (\<lambda>_.
            gauges_refresh env (px_metrics po))))))"

section \<open>The guarantee\<close>

lemma sound_metric [simp]: "sound (metric f)"
  unfolding metric_def by (rule sound_modifies) simp_all

lemma sound_gauges: "rely env \<Longrightarrow> sound (gauges_refresh env metrics)"
  unfolding gauges_refresh_def
  by (auto intro!: sound_andthen sound_in_uow safe_andthen split: prod.split)

lemma sound_purge: "rely env \<Longrightarrow> sound (purge_execute env n limit)"
  unfolding purge_execute_def
  by (auto intro!: sound_andthen sound_in_uow safe_andthen safe_delete_processed)

lemma sound_claim: "rely env \<Longrightarrow> sound (publish_claim env po)"
  unfolding publish_claim_def
  by (auto intro!: sound_andthen sound_in_uow safe_andthen)

lemma sound_retry: "rely env \<Longrightarrow> sound (retry_or_fail env po record)"
  unfolding retry_or_fail_def drawn_delay_def Let_def
  by (auto intro!: sound_andthen sound_in_uow safe_andthen)

lemma outside_publish_one:
  "outside (\<lambda>_. True) (publish_one env record) (\<lambda>_ w. delivered (w_sent w) (r_id record))"
  unfolding publish_one_def
proof (rule service.hoare_andthen)
  let ?M = "\<lambda>x. snd x = event_headers (r_id record) (r_event_type record)"
  show "outside (\<lambda>_. True) (lift_exn (codec_encode (e_rt env) record)) (\<lambda>x _. ?M x)"
    by (rule hoareI) (auto simp: lift_exn_def codec_encode_def split: option.splits)
  show "outside (\<lambda>_. ?M x) (case x of (body, headers) \<Rightarrow> publisher_publish env NEW_ROUTING_KEY body (Some headers) None)
      (\<lambda>_ w. delivered (w_sent w) (r_id record))" for x
  proof (rule hoare_pure)
    assume m: "?M x"
    obtain body headers where x: "x = (body, headers)" by fastforce
    show "outside (\<lambda>_. True) (case x of (body, headers) \<Rightarrow> publisher_publish env NEW_ROUTING_KEY body (Some headers) None)
      (\<lambda>_ w. delivered (w_sent w) (r_id record))"
      unfolding x prod.case
      by (rule hoare_weaken [OF outside_publish]) (use m x in \<open>auto simp: event_headers_def dict_get_def\<close>)
  qed
qed

lemma holds_mark:
  assumes "rely env"
  shows "holds (\<lambda>w. delivered (w_sent w) (r_id record)) (publish_mark env record) (\<lambda>_ _. True)"
  unfolding publish_mark_def
proof (rule holds_in_uow [OF assms])
  let ?D = "\<lambda>w. delivered (w_sent w) (r_id record)"
  have keep: "holds ?D m (\<lambda>_. ?D)" if "safe m" for m :: "'z action"
    using hoare_stable [OF that, of ?D] delivered_step by (auto elim!: hoare_weaken)
  have mark: "holds ?D (mark_processed env (r_id record) t) (\<lambda>_ _. True)" for t
    unfolding mark_processed_def update_def
  proof (rule logic.hoare_andthen [OF keep [OF safe_statement]], rule holds_run_sql)
    fix w s r v'
    assume w: "good w" "?D w" "w_session w = Some s"
      and "(Inr (), update_outbox (\<lambda>r. ow_id r = r_id record) (processed_row t) (s_view s)) = (r, v')"
    moreover have "tables_inv (s_view s) (w_sent w)" using good_view [OF w(1,3)] by (simp add: session_good_def)
    ultimately show "allowed (w_sent w) (s_view s) v' \<and> (\<forall>x. r = Inr x \<longrightarrow> True)"
      using allowed_processed by blast
  qed
  have "holds ?D (andthen (clock_now env) (\<lambda>now. andthen (mark_processed env (r_id record) now) (\<lambda>_. uow_commit env)))
      (\<lambda>_ _. True)"
    by (rule logic.hoare_andthen [OF keep], simp, rule logic.hoare_andthen [OF mark], simp)
  then show "holds (\<lambda>w. ?D w \<and> fresh_session w)
      (andthen (clock_now env) (\<lambda>now. andthen (mark_processed env (r_id record) now) (\<lambda>_. uow_commit env)))
      (\<lambda>_ _. True)"
    by (rule hoare_weaken) simp_all
  show "?D w'" if "?D w" "step w w'" for w w' using that delivered_step by blast
qed simp

lemma sound_deliver: "rely env \<Longrightarrow> sound (publish_deliver env record)"
  unfolding publish_deliver_def
  by (rule service.hoare_andthen [OF outside_publish_one])
    (rule outside_holds [OF holds_mark], simp_all add: publish_mark_def)

lemma sound_each: "rely env \<Longrightarrow> sound (publish_each env po n records)"
proof (induction records arbitrary: n)
  case Nil
  then show ?case by simp
next
  case (Cons r rs)
  have "sound (attempt (publish_deliver env r)
      (\<lambda>_. andthen (metric (record_error (px_metrics po))) (\<lambda>_. andthen (retry_or_fail env po r) (\<lambda>_. ret n)))
      (\<lambda>_. andthen (clock_now env) (\<lambda>now.
         andthen (metric (record_published (px_metrics po) (total_seconds (now - r_created_at r))))
           (\<lambda>_. ret (n + 1)))))"
    by (intro sound_attempt sound_andthen sound_deliver sound_retry Cons.prems) simp_all
  then show ?case using Cons by (simp add: sound_andthen)
qed

lemma sound_publish_execute:
  assumes env: "rely env"
  shows "sound (publish_execute env po)"
proof -
  have "sound (if records = [] then andthen (purge_execute env a b) (\<lambda>_. ret 0) else publish_each env po 0 records)"
    for records a b
    using sound_each [OF env] sound_purge [OF env] by (simp add: sound_andthen)
  moreover have "sound (andthen (perf_counter env) (\<lambda>ended.
      andthen (metric (observe_batch (px_metrics po) (ended - started))) (\<lambda>_. gauges_refresh env (px_metrics po))))"
    for started
    by (intro sound_andthen sound_metric sound_gauges [OF env] sound_basic)
  ultimately have "sound (finally_do
      (if records = [] then andthen (purge_execute env a b) (\<lambda>_. ret 0) else publish_each env po 0 records)
      (andthen (perf_counter env) (\<lambda>ended.
        andthen (metric (observe_batch (px_metrics po) (ended - started))) (\<lambda>_. gauges_refresh env (px_metrics po)))))"
    for records a b started
    by (rule service.hoare_finally)
  then show ?thesis
    unfolding publish_execute_def by (intro sound_andthen sound_claim [OF env] sound_basic)
qed

section \<open>Without faults\<close>

text \<open>The rows a claim in the world \<open>w\<close> selects.\<close>

definition due_rows :: "env \<Rightarrow> publish_outbox \<Rightarrow> world \<Rightarrow> outbox_row list" where
  "due_rows env po w =
     claim_select (e_scan env (w_tick w + 2)) (e_locked env (w_tick w + 2)) (px_batch_size po)
       (e_now env (w_tick w)) (e_now env (w_tick w) - px_claim_timeout po) (w_db w)"

lemma claim_calm:
  assumes "calm env" and "0 \<le> px_batch_size po"
  shows "publish_claim env po w =
    (let now = e_now env (w_tick w); rows = due_rows env po w
     in (Inr (map (\<lambda>r. to_claimed_record r now) rows),
         w\<lparr>w_db := if rows = [] then w_db w
                 else update_outbox (\<lambda>r. ow_id r \<in> ow_id ` set rows) (claimed_row now) (w_db w),
           w_session := None, w_tick := w_tick w + (if rows = [] then 5 else 8)\<rparr>))"
  using assms(2)
  by (cases w) (simp add: publish_claim_def claim_batch_def due_rows_def run_defs calmD [OF assms(1)] Let_def
      eval_nat_numeral cong: run_cong)

text \<open>The message an event becomes.\<close>

definition event_message :: "pyrt \<Rightarrow> outbox_record \<Rightarrow> message" where
  "event_message rt rec =
     publisher_message (x_name PAYMENTS_EXCHANGE) NEW_ROUTING_KEY
       (case codec_encode rt rec of Inl e \<Rightarrow> [] | Inr (body, headers) \<Rightarrow> body)
       (Some (event_headers (r_id rec) (r_event_type rec))) None"

definition encodable :: "pyrt \<Rightarrow> outbox_record \<Rightarrow> bool" where
  "encodable rt rec \<longleftrightarrow> \<not> isl (codec_encode rt rec)"

lemma deliver_calm:
  assumes "calm env" and "encodable (e_rt env) rec" and "w_session w = None"
  shows "publish_deliver env rec w =
    (Inr (), w\<lparr>w_db := update_outbox (\<lambda>r. ow_id r = r_id rec) (processed_row (e_now env (w_tick w + 2))) (w_db w),
       w_sent := w_sent w @ [event_message (e_rt env) rec], w_tick := w_tick w + 7\<rparr>)"
  using assms(2,3)
  by (cases w) (auto simp: publish_deliver_def publish_one_def publish_mark_def mark_processed_def encodable_def
      codec_encode_def event_message_def publisher_publish_def append_sent_def run_defs calmD [OF assms(1)]
      Let_def eval_nat_numeral split: option.splits cong: run_cong)

text \<open>The table after the records have been marked, the first of them at tick \<open>n\<close>.\<close>

fun marked :: "env \<Rightarrow> nat \<Rightarrow> outbox_record list \<Rightarrow> tables \<Rightarrow> tables" where
  "marked env n [] v = v"
| "marked env n (rec # recs) v =
     marked env (n + 8) recs (update_outbox (\<lambda>r. ow_id r = r_id rec) (processed_row (e_now env (n + 2))) v)"

lemma each_calm:
  assumes env: "calm env"
  shows "list_all (encodable (e_rt env)) recs \<Longrightarrow> w_session w = None \<Longrightarrow>
    \<exists>ms. publish_each env po k recs w =
      (Inr (k + int (length recs)),
       w\<lparr>w_db := marked env (w_tick w) recs (w_db w),
         w_sent := w_sent w @ map (event_message (e_rt env)) recs,
         w_metrics := ms, w_tick := w_tick w + 8 * length recs\<rparr>)"
proof (induction recs arbitrary: w k)
  case Nil
  show ?case by (rule exI [of _ "w_metrics w"]) (simp add: ret_def)
next
  case (Cons rec recs)
  let ?w1 = "w\<lparr>w_db := update_outbox (\<lambda>r. ow_id r = r_id rec) (processed_row (e_now env (w_tick w + 2))) (w_db w),
       w_sent := w_sent w @ [event_message (e_rt env) rec], w_tick := w_tick w + 7\<rparr>"
  let ?lag = "total_seconds (e_now env (w_tick w + 7) - r_created_at rec)"
  let ?w2 = "?w1\<lparr>w_tick := w_tick w + 8, w_metrics := record_published (px_metrics po) ?lag (w_metrics w)\<rparr>"
  have "publish_deliver env rec w = (Inr (), ?w1)"
    using deliver_calm [OF env] Cons.prems by simp
  then have first: "publish_each env po k (rec # recs) w = publish_each env po (k + 1) recs ?w2"
    by (simp add: andthen_def attempt_def clock_now_def observe_def metric_def modifies_def ret_def
        add.commute)
  obtain ms where "publish_each env po (k + 1) recs ?w2 =
      (Inr (k + 1 + int (length recs)),
       ?w2\<lparr>w_db := marked env (w_tick ?w2) recs (w_db ?w2),
         w_sent := w_sent ?w2 @ map (event_message (e_rt env)) recs,
         w_metrics := ms, w_tick := w_tick ?w2 + 8 * length recs\<rparr>)"
    using Cons.IH [of ?w2 "k + 1"] Cons.prems by auto
  then show ?case unfolding first by (intro exI [of _ ms]) (simp add: ac_simps)
qed

lemma find_marked_other: "i \<notin> r_id ` set recs \<Longrightarrow> find_outbox (marked env n recs v) i = find_outbox v i"
  by (induction recs arbitrary: n v) (auto simp: processed.find_after map_option_case dest: outbox.lookup_key
      split: option.splits)

lemma find_marked:
  "i \<in> r_id ` set recs \<Longrightarrow> find_outbox v i = Some r \<Longrightarrow>
   \<exists>t. find_outbox (marked env n recs v) i = Some (processed_row t r)"
proof (induction recs arbitrary: n v r)
  case (Cons rec recs)
  let ?v = "update_outbox (\<lambda>r. ow_id r = r_id rec) (processed_row (e_now env (n + 2))) v"
  have id: "ow_id r = i" using outbox.lookup_key [OF Cons.prems(2)] by simp
  have again: "processed_row t (processed_row t' r) = processed_row t r" for t t'
    by (simp add: processed_row_def)
  have v: "find_outbox ?v i = Some (if i = r_id rec then processed_row (e_now env (n + 2)) r else r)"
    using Cons.prems(2) id by (simp add: processed.find_after)
  show ?case
  proof (cases "i \<in> r_id ` set recs")
    case True
    show ?thesis
      using Cons.IH [OF True v, of "n + 8"] by (cases "i = r_id rec") (simp_all add: again)
  next
    case False
    then have "i = r_id rec" using Cons.prems(1) by auto
    then show ?thesis using v find_marked_other [OF False, of env "n + 8" ?v] by auto
  qed
qed simp

lemma gauges_calm:
  assumes "calm env"
  shows "\<exists>ms n. gauges_refresh env metrics w =
    (Inr (), w\<lparr>w_session := None, w_metrics := ms, w_tick := n\<rparr>)"
  by (cases w) (auto simp: gauges_refresh_def metric_def count_pending_def count_failed_def run_defs
      calmD [OF assms] cong: run_cong)

lemma execute_calm:
  assumes env: "calm env" and batch: "0 \<le> px_batch_size po" and idle: "w_session w = None"
    and rows: "rows = due_rows env po (w\<lparr>w_tick := w_tick w + 1\<rparr>)" "rows \<noteq> []"
    and recs: "recs = map (\<lambda>r. to_claimed_record r (e_now env (w_tick w + 1))) rows"
      "list_all (encodable (e_rt env)) recs"
  shows "\<exists>ms n. publish_execute env po w =
    (Inr (int (length recs)),
     w\<lparr>w_db := marked env (w_tick w + 9) recs
           (update_outbox (\<lambda>r. ow_id r \<in> ow_id ` set rows) (claimed_row (e_now env (w_tick w + 1))) (w_db w)),
       w_sent := w_sent w @ map (event_message (e_rt env)) recs, w_metrics := ms, w_tick := n\<rparr>)"
proof -
  let ?w1 = "w\<lparr>w_tick := w_tick w + 1\<rparr>"
  let ?v = "update_outbox (\<lambda>r. ow_id r \<in> ow_id ` set rows) (claimed_row (e_now env (w_tick w + 1))) (w_db w)"
  let ?w2 = "w\<lparr>w_db := ?v, w_session := None, w_tick := w_tick w + 9\<rparr>"
  have claim: "publish_claim env po ?w1 = (Inr recs, ?w2)"
    using claim_calm [OF env batch, of ?w1] rows recs(1) by (simp add: Let_def eval_nat_numeral)
  obtain ms where each: "publish_each env po 0 recs ?w2 =
      (Inr (int (length recs)), ?w2\<lparr>w_db := marked env (w_tick w + 9) recs ?v,
         w_sent := w_sent w @ map (event_message (e_rt env)) recs, w_metrics := ms,
         w_tick := w_tick w + 9 + 8 * length recs\<rparr>)" (is "_ = (_, ?w3)")
    using each_calm [OF env recs(2), of ?w2 po 0] by auto
  let ?last = "\<lambda>started. andthen (perf_counter env) (\<lambda>ended.
          andthen (metric (observe_batch (px_metrics po) (ended - started))) (\<lambda>_. gauges_refresh env (px_metrics po)))"
  have last: "\<exists>ms' n. ?last started ?w3 = (Inr (), ?w3\<lparr>w_session := None, w_metrics := ms', w_tick := n\<rparr>)" for started
  proof -
    let ?w4 = "?w3\<lparr>w_tick := w_tick ?w3 + 1,
        w_metrics := observe_batch (px_metrics po) (e_perf env (w_tick ?w3) - started) (w_metrics ?w3)\<rparr>"
    have "?last started ?w3 = gauges_refresh env (px_metrics po) ?w4"
      by (simp add: andthen_def perf_counter_def observe_def metric_def modifies_def add.commute)
    moreover obtain ms' n where "gauges_refresh env (px_metrics po) ?w4 =
        (Inr (), ?w4\<lparr>w_session := None, w_metrics := ms', w_tick := n\<rparr>)"
      using gauges_calm [OF env] by blast
    ultimately show ?thesis by (intro exI [of _ ms'] exI [of _ n]) simp
  qed
  have some: "recs \<noteq> []" using rows recs(1) by simp
  have perf: "andthen (perf_counter env) f w = f (e_perf env (w_tick w)) ?w1" for f :: "rat \<Rightarrow> int action"
    by (simp add: andthen_def perf_counter_def observe_def)
  have "publish_execute env po w =
      (case ?last (e_perf env (w_tick w)) ?w3 of
         (Inl e, s'') \<Rightarrow> (Inl e, s'') | (Inr _, s'') \<Rightarrow> (Inr (int (length recs)), s''))"
    unfolding publish_execute_def perf andthen_Inr [of "publish_claim env po", OF claim] finally_do_def
      if_not_P [OF some] each prod.case by (rule refl)
  moreover obtain ms' n where "?last (e_perf env (w_tick w)) ?w3 =
      (Inr (), ?w3\<lparr>w_session := None, w_metrics := ms', w_tick := n\<rparr>)"
    using last by blast
  ultimately show ?thesis
    using idle by (intro exI [of _ ms'] exI [of _ n]) simp
qed

lemma drawn_delay_calm:
  "drawn_delay env s n w =
     (delay_for s (if d_jitter s then e_random env (w_tick w) else 0) n,
      if d_jitter s then w\<lparr>w_tick := w_tick w + 1\<rparr> else w)"
  by (simp add: drawn_delay_def run_defs)

lemma release_calm:
  assumes "calm env"
  shows "in_uow env (andthen (queue_release env i st n av) (\<lambda>_. uow_commit env)) w =
    (Inr (), w\<lparr>w_db := update_outbox (\<lambda>r. ow_id r = i) (released_row st n av) (w_db w), w_session := None,
       w_tick := w_tick w + 5\<rparr>)"
  by (cases w) (simp add: queue_release_def run_defs calmD [OF assms] eval_nat_numeral cong: run_cong)

lemma due_rows_inset:
  assumes "rely env" and "r \<in> set (due_rows env po w)"
  shows "r \<in> set (t_outbox (w_db w))"
  using assms claim_select_sound(1) [of "e_scan env (w_tick w + 2)" "w_db w" r]
  by (auto simp: due_rows_def rely_def)

section \<open>What is due\<close>

text \<open>
  An event waits for its publication when it is new and its delay, if it has one, is over, or when the relay that
  has claimed it has not come back within the timeout.
\<close>

definition awaits_publication :: "time \<Rightarrow> int \<Rightarrow> outbox_row \<Rightarrow> bool" where
  "awaits_publication now timeout r \<longleftrightarrow>
     (ow_status r = ''NEW'' \<and> (case ow_available_at r of None \<Rightarrow> True | Some t \<Rightarrow> t \<le> now)) \<or>
     (ow_status r = ''PROCESSING'' \<and> (case ow_claimed_at r of None \<Rightarrow> False | Some t \<Rightarrow> t + timeout \<le> now))"

text \<open>A select meets every row once, and no other transaction has locked one.\<close>

definition undisturbed :: "env \<Rightarrow> bool" where
  "undisturbed env \<longleftrightarrow>
     (\<forall>n rows. set (e_scan env n rows) = set rows \<and> length (e_scan env n rows) = length rows) \<and>
     (\<forall>n i. \<not> e_locked env n i)"

lemma claim_filter_awaits: "claim_filter now (now - timeout) r = awaits_publication now timeout r"
  by (auto simp: claim_filter_def awaits_publication_def claim_due_def split: option.split)

lemma take_sorted_least:
  assumes "y \<in> set (take n (sort_key f xs))" and "z \<in> set xs" and "z \<notin> set (take n (sort_key f xs))"
  shows "f y \<le> f z"
proof -
  have "set xs = set (take n (sort_key f xs)) \<union> set (drop n (sort_key f xs))"
    by (metis append_take_drop_id set_append set_sort)
  then have "z \<in> set (drop n (sort_key f xs))" using assms by blast
  moreover have "sorted (map f (take n (sort_key f xs)) @ map f (drop n (sort_key f xs)))"
    by (simp flip: map_append)
  ultimately show ?thesis using assms(1) by (auto simp: sorted_append)
qed

lemma due_rows_are:
  assumes "undisturbed env" and "outbox.unique (w_db w)" and "0 \<le> px_batch_size po"
    and due: "due = filter (awaits_publication (e_now env (w_tick w)) (px_claim_timeout po)) (t_outbox (w_db w))"
  shows "distinct (due_rows env po w)" "set (due_rows env po w) \<subseteq> set due"
    "int (length (due_rows env po w)) = min (int (length due)) (px_batch_size po)"
    "sorted (map ow_created_at (due_rows env po w))"
    "\<forall>r\<in>set (due_rows env po w). \<forall>r'\<in>set due - set (due_rows env po w). ow_created_at r \<le> ow_created_at r'"
proof -
  define found where "found = filter (awaits_publication (e_now env (w_tick w)) (px_claim_timeout po))
    (e_scan env (w_tick w + 2) (t_outbox (w_db w)))"
  have is_take: "due_rows env po w = take (nat (px_batch_size po)) (sort_key ow_created_at found)"
    using assms(1) by (simp add: due_rows_def claim_select_def found_def claim_filter_awaits undisturbed_def)
  have scan: "set (e_scan env n rows) = set rows" "length (e_scan env n rows) = length rows" for n rows
    using assms(1) by (simp_all add: undisturbed_def)
  have "distinct (t_outbox (w_db w))" using assms(2) by (simp add: outbox.unique_def distinct_map)
  then have "card (set (t_outbox (w_db w))) = length (t_outbox (w_db w))" by (rule distinct_card)
  then have once: "distinct (e_scan env (w_tick w + 2) (t_outbox (w_db w)))"
    by (intro card_distinct) (simp add: scan)
  then have d: "distinct found" and all: "set found = set due" by (simp_all add: found_def due scan)
  have "distinct due" unfolding due by (rule distinct_filter) fact
  from distinct_card [OF this] have same_length: "length found = length due"
    using distinct_card [OF d] unfolding all by simp
  show "distinct (due_rows env po w)" using d by (simp add: is_take)
  show "set (due_rows env po w) \<subseteq> set due"
    unfolding is_take all [symmetric] using set_take_subset [of "nat (px_batch_size po)" "sort_key ow_created_at found"] by simp
  show "int (length (due_rows env po w)) = min (int (length due)) (px_batch_size po)"
    using assms(3) by (simp add: is_take same_length)
  show "sorted (map ow_created_at (due_rows env po w))" by (simp add: is_take take_map [symmetric])
  show "\<forall>r\<in>set (due_rows env po w). \<forall>r'\<in>set due - set (due_rows env po w). ow_created_at r \<le> ow_created_at r'"
    unfolding is_take all [symmetric]
  proof (intro ballI)
    fix y z
    assume "y \<in> set (take (nat (px_batch_size po)) (sort_key ow_created_at found))"
      and "z \<in> set found - set (take (nat (px_batch_size po)) (sort_key ow_created_at found))"
    then show "ow_created_at y \<le> ow_created_at z" using take_sorted_least [of y "nat (px_batch_size po)" ow_created_at found z] by blast
  qed
qed

lemma due_rows_wait:
  "r \<in> set (due_rows env po w) \<Longrightarrow> awaits_publication (e_now env (w_tick w)) (px_claim_timeout po) r"
  by (auto simp: due_rows_def claim_select_def claim_filter_awaits dest!: in_set_takeD)

text \<open>What a claim leaves behind.\<close>

lemma claimed_is_leased:
  assumes "calm env" and "rely env" and "idle w" and "0 \<le> px_batch_size po"
    and "publish_claim env po w = (Inr recs, w1)" and "rec \<in> set recs"
  shows "\<exists>row. find_outbox (w_db w1) (r_id rec) = Some row \<and> ow_status row = ''PROCESSING'' \<and>
    ow_claimed_at row = Some (e_now env (w_tick w))"
proof -
  let ?now = "e_now env (w_tick w)" and ?rows = "due_rows env po w"
  have run: "recs = map (\<lambda>r. to_claimed_record r ?now) ?rows"
    "w_db w1 = (if ?rows = [] then w_db w
       else update_outbox (\<lambda>r. ow_id r \<in> ow_id ` set ?rows) (claimed_row ?now) (w_db w))"
    using claim_calm [OF assms(1,4), of w] assms(5) by (auto simp: Let_def)
  then obtain r where r: "r \<in> set ?rows" "r_id rec = ow_id r"
    using assms(6) by (auto simp: to_claimed_record_def)
  then have "r \<in> set (t_outbox (w_db w))" using due_rows_inset [OF assms(2)] by blast
  moreover have "outbox.unique (w_db w)" using assms(3) by (simp add: idle_def good_def tables_inv_def)
  ultimately have "find_outbox (w_db w) (ow_id r) = Some r" using outbox.lookup_in by blast
  moreover have "w_db w1 = update_outbox (\<lambda>r. ow_id r \<in> ow_id ` set ?rows) (claimed_row ?now) (w_db w)"
    using run(2) r(1) by auto
  ultimately have "find_outbox (w_db w1) (r_id rec) = Some (claimed_row ?now r)"
    using r by (simp add: claimed.find_after)
  then show ?thesis by (simp add: claimed_row_def)
qed

lemma claim_unique:
  assumes "calm env" and "idle w" and "0 \<le> px_batch_size po" and "publish_claim env po w = (Inr recs, w1)"
  shows "outbox.unique (w_db w1)"
proof -
  have "outbox.unique (w_db w)" using assms(2) by (simp add: idle_def good_def tables_inv_def)
  moreover have "w_db w1 = w_db w \<or> (\<exists>P now. w_db w1 = update_outbox P (claimed_row now) (w_db w))"
    using claim_calm [OF assms(1,3), of w] assms(4) by (auto simp: Let_def)
  ultimately show ?thesis by (auto simp: claimed.unique_after)
qed

section \<open>An example\<close>

text \<open>The event of the payment created in the example of \<open>CreatePayment\<close>.\<close>

definition sample_event :: outbox_row where
  "sample_event = new_outbox_row 4 PAYMENT_CREATED (payment_created_payload 1) 0"

definition sample_record :: outbox_record where
  "sample_record = to_claimed_record sample_event 0"

lemma sample_idle: "idle sample_world"
  using sample_good(1) by (simp add: idle_def sample_world_def empty_world_def)

lemma sample_outbox: "w_db sample_world = empty_tables\<lparr>t_payments := [sample_row], t_outbox := [sample_event]\<rparr>"
  by (simp add: sample_world_def sample_tables_def sample_event_def)

lemma sample_event_found: "find_outbox (w_db sample_world) 4 = Some sample_event"
  by (simp add: sample_outbox find_outbox_def sample_event_def new_outbox_row_def)

lemma sample_due: "due_rows quiet_env default_publish_outbox (sample_world\<lparr>w_tick := n\<rparr>) = [sample_event]"
  by (simp add: due_rows_def claim_select_def sample_outbox quiet_env_def default_publish_outbox_def
      publish_outbox_new_def claim_filter_def claim_due_def sample_event_def new_outbox_row_def)

lemma sample_encodable: "list_all (encodable (e_rt quiet_env)) [sample_record]"
proof -
  have "encodable quiet_rt sample_record" by code_simp
  then show ?thesis by (simp add: quiet_env_def)
qed

lemma default_batch: "0 \<le> px_batch_size default_publish_outbox"
  by (simp add: default_publish_outbox_def publish_outbox_new_def)

lemma quiet_now: "e_now quiet_env n = 0"
  by (simp add: quiet_env_def)

section \<open>Properties\<close>

text \<open>C22: No event is lost and no row lies about its publication: after any batch, with any faults and any
  interference, returning or failing, every row that says it has been published is with the broker, every
  row there was still carries its event unless that event is with the broker, and no transaction is left
  open.\<close>

theorem no_event_is_lost:
  assumes "rely env" and "idle w" and "publish_execute env po w = (r, w')"
  shows "(\<forall>row\<in>set (t_outbox (w_db w')). ow_published_at row \<noteq> None \<longrightarrow> delivered (w_sent w') (ow_id row)) \<and>
    (\<forall>i row. find_outbox (w_db w) i = Some row \<longrightarrow> delivered (w_sent w') i \<or>
       (\<exists>row'. find_outbox (w_db w') i = Some row' \<and> envelope row' = envelope row)) \<and>
    w_session w' = None"
proof -
  note ran = hoareD [OF sound_publish_execute [OF assms(1)] assms(2) TrueI assms(3)]
  have "list_all (published_is_sent (w_sent w')) (t_outbox (w_db w'))" "w_session w' = None"
    using ran(1) by (simp_all add: idle_def good_def tables_inv_def)
  moreover have "outbox_rows_persist (w_db w) (w_db w') (w_sent w')"
    using ran(2) by (simp add: step_def shared_def persists_def)
  ultimately show ?thesis
    unfolding list_all_iff published_is_sent_def outbox_rows_persist_def outbox_persists_def by blast
qed

theorem no_event_is_lost_witness:
  "delivered (w_sent (snd (publish_execute quiet_env default_publish_outbox sample_world))) 4 \<or>
   (\<exists>row. find_outbox (w_db (snd (publish_execute quiet_env default_publish_outbox sample_world))) 4 = Some row)"
proof -
  obtain r w' where run: "publish_execute quiet_env default_publish_outbox sample_world = (r, w')" by fastforce
  from no_event_is_lost [OF quiet_rely sample_idle run] sample_event_found show ?thesis by (fastforce simp: run)
qed

text \<open>C23: Without faults a batch publishes what is due, and as much of it as it may: of the events that wait for
  their publication, the oldest up to the batch size, all of them when there are no more; one message for each, oldest
  first, to the queue of new payments and with the event's identity; every one is marked as processed, no other row
  changes, and the number published is returned.\<close>

theorem batch_publishes_what_is_due:
  assumes "calm env" and "undisturbed env" and "idle w" and "0 < px_batch_size po"
    and "due = filter (awaits_publication (e_now env (w_tick w + 1)) (px_claim_timeout po)) (t_outbox (w_db w))"
    and "due \<noteq> []"
    and "\<forall>row\<in>set due. encodable (e_rt env) (to_claimed_record row (e_now env (w_tick w + 1)))"
  shows "\<exists>rows w'. publish_execute env po w = (Inr (int (length rows)), w') \<and>
    distinct rows \<and> set rows \<subseteq> set due \<and> int (length rows) = min (int (length due)) (px_batch_size po) \<and>
    sorted (map ow_created_at rows) \<and>
    (\<forall>row\<in>set rows. \<forall>later\<in>set due - set rows. ow_created_at row \<le> ow_created_at later) \<and>
    w_sent w' = w_sent w @
      map (\<lambda>row. event_message (e_rt env) (to_claimed_record row (e_now env (w_tick w + 1)))) rows \<and>
    (\<forall>row\<in>set rows. \<exists>t. find_outbox (w_db w') (ow_id row) =
       Some (row\<lparr>ow_status := ''PROCESSED'', ow_published_at := Some t, ow_claimed_at := None, ow_available_at := None\<rparr>)) \<and>
    (\<forall>i. i \<notin> ow_id ` set rows \<longrightarrow> find_outbox (w_db w') i = find_outbox (w_db w) i)"
proof -
  define rows where "rows = due_rows env po (w\<lparr>w_tick := w_tick w + 1\<rparr>)"
  define recs where "recs = map (\<lambda>r. to_claimed_record r (e_now env (w_tick w + 1))) rows"
  let ?now = "e_now env (w_tick w + 1)"
  let ?v = "update_outbox (\<lambda>r. ow_id r \<in> ow_id ` set rows) (claimed_row ?now) (w_db w)"
  let ?d = "marked env (w_tick w + 9) recs ?v"
  have u: "outbox.unique (w_db w)" and idle: "w_session w = None"
    using assms(3) by (simp_all add: idle_def good_def tables_inv_def)
  have are: "distinct rows" "set rows \<subseteq> set due" "int (length rows) = min (int (length due)) (px_batch_size po)"
    "sorted (map ow_created_at rows)"
    "\<forall>r\<in>set rows. \<forall>r'\<in>set due - set rows. ow_created_at r \<le> ow_created_at r'"
    using due_rows_are [OF assms(2), of "w\<lparr>w_tick := w_tick w + 1\<rparr>" po due] u assms(4,5) unfolding rows_def by simp_all
  have batch: "0 \<le> px_batch_size po" using assms(4) by simp
  have "0 < int (length due)" using assms(6) by simp
  then have "0 < int (length rows)" unfolding are(3) using assms(4) by simp
  then have "rows \<noteq> []" by simp
  have enc: "list_all (encodable (e_rt env)) recs" using are(2) assms(7) by (auto simp: recs_def list_all_iff)
  obtain ms n where run: "publish_execute env po w = (Inr (int (length recs)),
     w\<lparr>w_db := ?d, w_sent := w_sent w @ map (event_message (e_rt env)) recs, w_metrics := ms, w_tick := n\<rparr>)"
    using execute_calm [OF assms(1) batch idle rows_def \<open>rows \<noteq> []\<close> recs_def enc] by blast
  have ids: "r_id ` set recs = ow_id ` set rows" by (force simp: recs_def to_claimed_record_def)
  have marked: "\<exists>t. find_outbox ?d (ow_id row) = Some
      (row\<lparr>ow_status := ''PROCESSED'', ow_published_at := Some t, ow_claimed_at := None, ow_available_at := None\<rparr>)"
    if "row \<in> set rows" for row
  proof -
    have "row \<in> set (t_outbox (w_db w))" using that are(2) unfolding assms(5) by auto
    then have "find_outbox (w_db w) (ow_id row) = Some row" by (rule outbox.lookup_in [OF u])
    then have v: "find_outbox ?v (ow_id row) = Some (claimed_row ?now row)"
      using that by (simp add: claimed.find_after)
    have "ow_id row \<in> r_id ` set recs" using ids that by blast
    from find_marked [OF this v] show ?thesis by (simp add: processed_row_def claimed_row_def)
  qed
  have other: "find_outbox ?d i = find_outbox (w_db w) i" if "i \<notin> ow_id ` set rows" for i
  proof -
    have "find_outbox ?v i = find_outbox (w_db w) i"
      using that by (auto simp: claimed.find_after map_option_case dest: outbox.lookup_key split: option.split)
    then show ?thesis using find_marked_other [of i recs env "w_tick w + 9" ?v] that ids by simp
  qed
  have sent: "map (event_message (e_rt env)) recs =
      map (\<lambda>row. event_message (e_rt env) (to_claimed_record row (e_now env (w_tick w + 1)))) rows"
    "length recs = length rows" by (simp_all add: recs_def)
  show ?thesis
    using run are marked other unfolding sent by (intro exI [of _ rows] exI) auto
qed

theorem batch_publishes_what_is_due_witness:
  "\<exists>w' t. publish_execute quiet_env default_publish_outbox sample_world = (Inr 1, w') \<and>
     w_sent w' = [event_message quiet_rt sample_record] \<and>
     find_outbox (w_db w') 4 = Some (sample_event
       \<lparr>ow_status := ''PROCESSED'', ow_published_at := Some t, ow_claimed_at := None, ow_available_at := None\<rparr>)"
proof -
  have none: "w_sent sample_world = []" "ow_id sample_event = 4" "e_rt quiet_env = quiet_rt"
    by (simp_all add: sample_world_def empty_world_def sample_event_def new_outbox_row_def quiet_env_def)
  have env: "undisturbed quiet_env" "0 < px_batch_size default_publish_outbox" "px_batch_size default_publish_outbox = 50"
    by (simp_all add: undisturbed_def quiet_env_def default_publish_outbox_def publish_outbox_new_def)
  have due: "[sample_event] = filter (awaits_publication (e_now quiet_env (w_tick sample_world + 1))
      (px_claim_timeout default_publish_outbox)) (t_outbox (w_db sample_world))"
    by (simp add: sample_outbox awaits_publication_def sample_event_def new_outbox_row_def)
  have enc: "\<forall>row\<in>set [sample_event]. encodable (e_rt quiet_env) (to_claimed_record row (e_now quiet_env (w_tick sample_world + 1)))"
    using sample_encodable by (simp add: quiet_now sample_record_def)
  from batch_publishes_what_is_due [OF quiet_calm env(1) sample_idle env(2) due _ enc]
  obtain rows w' where rows: "publish_execute quiet_env default_publish_outbox sample_world = (Inr (int (length rows)), w')"
    "set rows \<subseteq> {sample_event}" "int (length rows) = 1"
    "w_sent w' = w_sent sample_world @ map (\<lambda>row. event_message quiet_rt (to_claimed_record row 0)) rows"
    "\<forall>row\<in>set rows. \<exists>t. find_outbox (w_db w') (ow_id row) =
       Some (row\<lparr>ow_status := ''PROCESSED'', ow_published_at := Some t, ow_claimed_at := None, ow_available_at := None\<rparr>)"
    by (auto simp: env(3) none quiet_now)
  then have "rows = [sample_event]" by (cases rows) auto
  with rows show ?thesis by (auto simp: none sample_record_def)
qed



text \<open>C25: What cannot be published is tried again, but not for ever: below the limit of attempts the row goes
  back to the queue and can be claimed exactly when the delay of its attempt is over; at the limit it is
  given up and is never claimed again.\<close>

theorem failed_delivery_retry:
  assumes "calm env" and "find_outbox (w_db w) (r_id rec) = Some row" and "n = r_retry_count rec + 1"
    and "delay_for (px_backoff po) (if d_jitter (px_backoff po) then e_random env (w_tick w + 1) else 0) n = Inr d"
  shows "\<exists>w' row'. retry_or_fail env po rec w = (Inr (), w') \<and> find_outbox (w_db w') (r_id rec) = Some row' \<and>
    ow_retry_count row' = n \<and> envelope row' = envelope row \<and>
    (\<forall>t s. claim_filter t s row' \<longleftrightarrow> n < px_max_attempts po \<and> e_now env (w_tick w) + seconds d \<le> t)"
proof -
  let ?new = "if px_max_attempts po \<le> n then (OUTBOX_FAILED, None) else (NEW, Some (e_now env (w_tick w) + seconds d))"
  let ?row = "released_row (fst ?new) n (snd ?new) row"
  have tick: "andthen (clock_now env) f w = f (e_now env (w_tick w)) (w\<lparr>w_tick := w_tick w + 1\<rparr>)"
    for f :: "time \<Rightarrow> unit action" by (simp add: andthen_def clock_now_def observe_def)
  obtain j where draw: "drawn_delay env (px_backoff po) n (w\<lparr>w_tick := Suc (w_tick w)\<rparr>) = (Inr d, w\<lparr>w_tick := j\<rparr>)"
    using assms(4) by (cases "d_jitter (px_backoff po)") (simp_all add: drawn_delay_calm)
  have "\<exists>k. retry_or_fail env po rec w = (Inr (),
      w\<lparr>w_db := update_outbox (\<lambda>r. ow_id r = r_id rec) (released_row (fst ?new) n (snd ?new)) (w_db w),
        w_session := None, w_tick := k\<rparr>)"
    unfolding retry_or_fail_def Let_def tick assms(3) [symmetric]
    by (cases "px_max_attempts po \<le> n")
      (auto simp: andthen_Inr [of "drawn_delay env (px_backoff po) n", OF draw] release_calm [OF assms(1)]
        andthen_def [of "andthen m f" for m f] andthen_def [of "ret x" for x] ret_def)
  moreover have "ow_id row = r_id rec" using outbox.lookup_key [OF assms(2)] by simp
  then have "find_outbox (update_outbox (\<lambda>r. ow_id r = r_id rec) (released_row (fst ?new) n (snd ?new)) (w_db w))
      (r_id rec) = Some ?row"
    using assms(2) by (simp add: released.find_after)
  moreover have "claim_filter t s ?row \<longleftrightarrow> n < px_max_attempts po \<and> e_now env (w_tick w) + seconds d \<le> t" for t s
    by (auto simp: claim_filter_def released_row_def claim_due_def)
  moreover have "ow_retry_count ?row = n" "envelope ?row = envelope row"
    by (simp_all add: released_row_def envelope_def)
  ultimately show ?thesis by auto
qed

theorem failed_delivery_retry_witness:
  "\<exists>w' row'. retry_or_fail quiet_env default_publish_outbox (sample_record\<lparr>r_retry_count := 6\<rparr>) sample_world = (Inr (), w') \<and>
     find_outbox (w_db w') 4 = Some row' \<and> ow_retry_count row' = 7 \<and> \<not> claim_filter 29999999 0 row' \<and> claim_filter 30000000 0 row'"
proof -
  let ?rec = "sample_record\<lparr>r_retry_count := 6\<rparr>"
  have id: "r_id ?rec = 4" by (simp add: sample_record_def to_claimed_record_def sample_event_def new_outbox_row_def)
  have d: "delay_for (px_backoff default_publish_outbox)
      (if d_jitter (px_backoff default_publish_outbox) then e_random quiet_env (w_tick sample_world + 1) else 0) 7 = Inr 30"
    by (simp add: default_publish_outbox_def publish_outbox_new_def delay_for_def quiet_env_def Let_def)
  have m: "px_max_attempts default_publish_outbox = 8" by (simp add: default_publish_outbox_def publish_outbox_new_def)
  have s: "seconds 30 = 30000000" by code_simp
  have n: "7 = r_retry_count ?rec + 1" by simp
  have found: "find_outbox (w_db sample_world) (r_id ?rec) = Some sample_event" by (simp only: id sample_event_found)
  from failed_delivery_retry [OF quiet_calm found n d] show ?thesis unfolding id m s quiet_now by auto
qed

text \<open>Nothing ties a release to the claim it gives back: a relay whose claim has expired, and whose late
  failure is released after another relay has published the row, puts the published row back into the
  queue, from where it is published again.\<close>

lemma late_release_republishes:
  assumes "calm env" and "find_outbox (w_db w) i = Some row" and "ow_status row = outbox_status_value PROCESSED"
    and "\<And>t. available_at = Some t \<Longrightarrow> t \<le> now"
  shows "\<exists>w' row'. in_uow env (andthen (queue_release env i NEW n available_at) (\<lambda>_. uow_commit env)) w = (Inr (), w') \<and>
    find_outbox (w_db w') i = Some row' \<and> \<not> claim_filter now stale row \<and> claim_filter now stale row'"
proof -
  have "ow_id row = i" using outbox.lookup_key [OF assms(2)] by simp
  then have "find_outbox (update_outbox (\<lambda>r. ow_id r = i) (released_row NEW n available_at) (w_db w)) i =
      Some (released_row NEW n available_at row)"
    using assms(2) by (simp add: released.find_after)
  moreover have "claim_filter now stale (released_row NEW n available_at row)"
    using assms(4) by (auto simp: claim_filter_def released_row_def claim_due_def split: option.split)
  moreover have "\<not> claim_filter now stale row" using assms(3) by (simp add: claim_filter_def)
  ultimately show ?thesis by (simp add: release_calm [OF assms(1)])
qed

lemma late_release_republishes_witness:
  "\<exists>w' row'. in_uow quiet_env (andthen (queue_release quiet_env 4 NEW 1 (Some 5)) (\<lambda>_. uow_commit quiet_env))
       (sample_world\<lparr>w_db := empty_tables\<lparr>t_outbox := [processed_row 0 sample_event]\<rparr>\<rparr>) = (Inr (), w') \<and>
     find_outbox (w_db w') 4 = Some row' \<and> claim_filter 5 0 row'"
proof -
  let ?w = "sample_world\<lparr>w_db := empty_tables\<lparr>t_outbox := [processed_row 0 sample_event]\<rparr>\<rparr>"
  have found: "find_outbox (w_db ?w) 4 = Some (processed_row 0 sample_event)"
    by (simp add: find_outbox_def processed_row_def sample_event_def new_outbox_row_def)
  have st: "ow_status (processed_row 0 sample_event) = outbox_status_value PROCESSED" by (simp add: processed_row_def)
  have due: "Some 5 = Some t \<Longrightarrow> t \<le> (5 :: time)" for t by simp
  from late_release_republishes [where available_at = "Some 5" and now = 5 and stale = 0 and n = 1,
      OF quiet_calm found st due] show ?thesis by blast
qed

end
