(* ===== verification/Gateway.thy ===== *)
theory Gateway
  imports Guarantee
begin

text \<open>
  \<open>src/infrastructure/gateway\<close>: the random gateway and the two caches of its results. The locale
  states what the gateway needs of a cache, and proves once that a charge is decided once; it is
  interpreted on the cache in memory and on the one in the database.
\<close>

section \<open>Delay and outcome\<close>

text \<open>\<open>random.uniform(a, b)\<close>; the sleep may be cancelled.\<close>

record random_delay =
  rd_min_seconds :: rat
  rd_max_seconds :: rat

definition delay_seconds :: "random_delay \<Rightarrow> rat \<Rightarrow> rat" where
  "delay_seconds d u = rd_min_seconds d + (rd_max_seconds d - rd_min_seconds d) * u"

definition asyncio_sleep :: "env \<Rightarrow> rat \<Rightarrow> unit action" where
  "asyncio_sleep env secs = may_fail (e_sleep env)"

definition delay_wait :: "env \<Rightarrow> random_delay \<Rightarrow> unit action" where
  "delay_wait env d = andthen (random_random env) (\<lambda>u. asyncio_sleep env (delay_seconds d u))"

definition outcome_is_successful :: "env \<Rightarrow> rat \<Rightarrow> bool action" where
  "outcome_is_successful env success_rate = andthen (random_random env) (\<lambda>u. ret (u < success_rate))"

section \<open>InMemoryGatewayResultCache\<close>

text \<open>The dictionary and the rest of the world.\<close>

type_synonym 'w with_results = "(uuid \<rightharpoonup> gateway_result) \<times> 'w"

definition memory_get :: "uuid \<Rightarrow> ('w with_results, gateway_result option) prog" where
  "memory_get payment_id s = (Inr (fst s payment_id), s)"

definition memory_put_if_absent :: "uuid \<Rightarrow> gateway_result \<Rightarrow> ('w with_results, gateway_result) prog" where
  "memory_put_if_absent payment_id result s =
     (case fst s payment_id of
        Some existing \<Rightarrow> (Inr existing, s)
      | None \<Rightarrow> (Inr result, ((fst s)(payment_id \<mapsto> result), snd s)))"

text \<open>An operation on the rest of the world leaves the dictionary alone.\<close>

definition beside :: "('w, 'a) prog \<Rightarrow> ('w with_results, 'a) prog" where
  "beside m s = (case m (snd s) of (r, w) \<Rightarrow> (r, (fst s, w)))"

section \<open>SqlGatewayResultCache\<close>

definition sql_cache_get :: "env \<Rightarrow> uuid \<Rightarrow> gateway_result option action" where
  "sql_cache_get env payment_id =
     in_session env
       (andthen (query env (\<lambda>v. Inr (find_charge v payment_id))) (\<lambda>row.
          case row of None \<Rightarrow> ret None | Some c \<Rightarrow> ret (Some (GatewayResult (ch_succeeded c)))))"

text \<open>\<open>INSERT ... ON CONFLICT DO NOTHING RETURNING succeeded\<close>: a conflict returns no row.\<close>

definition insert_charge :: "uuid \<Rightarrow> bool \<Rightarrow> time \<Rightarrow> tables \<Rightarrow> (exn + bool option) \<times> tables" where
  "insert_charge i ok t v =
     (if find_charge v i \<noteq> None then (Inr None, v)
      else (Inr (Some ok),
            v\<lparr>t_charges := t_charges v @ [\<lparr>ch_payment_id = i, ch_succeeded = ok, ch_created_at = t\<rparr>]\<rparr>))"

definition sql_cache_put_if_absent :: "env \<Rightarrow> uuid \<Rightarrow> gateway_result \<Rightarrow> gateway_result action" where
  "sql_cache_put_if_absent env payment_id result =
     andthen (clock_now env) (\<lambda>now.
       in_session env (begin_block env
         (andthen (statement env) (\<lambda>_.
          andthen (run_sql (insert_charge payment_id (is_successful result) now)) (\<lambda>inserted.
          case inserted of
            Some ok \<Rightarrow> ret (GatewayResult ok)
          | None \<Rightarrow>
              andthen (query env (\<lambda>v. Inr (find_charge v payment_id))) (\<lambda>existing.
              case existing of
                None \<Rightarrow> raise (RuntimeError (''gateway charge '' @ uuid_str payment_id @ '' missing''))
              | Some c \<Rightarrow> ret (GatewayResult (ch_succeeded c))))))))"

section \<open>RandomPaymentGateway\<close>

text \<open>\<open>charge\<close>, over the operations of the delay, the outcome and the cache it was built with.\<close>

definition gateway_charge ::
    "(uuid \<Rightarrow> ('s, gateway_result option) prog) \<Rightarrow> (uuid \<Rightarrow> gateway_result \<Rightarrow> ('s, gateway_result) prog) \<Rightarrow>
     ('s, unit) prog \<Rightarrow> ('s, bool) prog \<Rightarrow> payment \<Rightarrow> ('s, gateway_result) prog" where
  "gateway_charge cache_get cache_put wait outcome payment =
     andthen (cache_get (p_id payment)) (\<lambda>cached.
       case cached of
         Some result \<Rightarrow> ret result
       | None \<Rightarrow>
           andthen wait (\<lambda>_.
           andthen outcome (\<lambda>ok.
             cache_put (p_id payment) (GatewayResult ok))))"

text \<open>The gateways the service builds: the default delay and rate, over either cache.\<close>

definition default_delay :: random_delay where
  "default_delay = \<lparr>rd_min_seconds = 2, rd_max_seconds = 5\<rparr>"

definition default_success_rate :: rat where "default_success_rate = 9 / 10"

definition sql_gateway_charge :: "env \<Rightarrow> payment \<Rightarrow> gateway_result action" where
  "sql_gateway_charge env =
     gateway_charge (sql_cache_get env) (sql_cache_put_if_absent env) (delay_wait env default_delay)
       (outcome_is_successful env default_success_rate)"

definition memory_gateway_charge :: "env \<Rightarrow> payment \<Rightarrow> (world with_results, gateway_result) prog" where
  "memory_gateway_charge env =
     gateway_charge memory_get memory_put_if_absent (beside (delay_wait env default_delay))
       (beside (outcome_is_successful env default_success_rate))"

section \<open>The contract of a cache\<close>

text \<open>
  \<open>known s i\<close> is the result on record for the payment \<open>i\<close>; \<open>later\<close> is what may happen to the state,
  by this process or by others.
\<close>

locale result_cache = hoare_logic ok later
  for ok :: "'s \<Rightarrow> bool" and later :: "'s \<Rightarrow> 's \<Rightarrow> bool" +
  fixes cache_get :: "uuid \<Rightarrow> ('s, gateway_result option) prog"
    and cache_put :: "uuid \<Rightarrow> gateway_result \<Rightarrow> ('s, gateway_result) prog"
    and known :: "'s \<Rightarrow> uuid \<Rightarrow> gateway_result option"
  assumes known_later: "later s s' \<Longrightarrow> known s i = Some r \<Longrightarrow> known s' i = Some r"
    and get_known: "hoare ok later (\<lambda>_. True) (cache_get i) (\<lambda>x s. known s i = x)"
    and put_known: "hoare ok later (\<lambda>_. True) (cache_put i r) (\<lambda>x s. known s i = Some x)"
begin

text \<open>What a charge returns is on record.\<close>

lemma charge_known:
  assumes "hoare ok later (\<lambda>_. True) wait (\<lambda>_ _. True)"
    and "hoare ok later (\<lambda>_. True) outcome (\<lambda>_ _. True)"
  shows "hoare ok later (\<lambda>_. True) (gateway_charge cache_get cache_put wait outcome p)
    (\<lambda>r s. known s (p_id p) = Some r)"
  unfolding gateway_charge_def
proof (rule hoare_andthen [OF get_known])
  fix cached
  show "hoare ok later (\<lambda>s. known s (p_id p) = cached)
     (case cached of None \<Rightarrow> andthen wait (\<lambda>_. andthen outcome (\<lambda>b. cache_put (p_id p) (GatewayResult b)))
      | Some result \<Rightarrow> ret result) (\<lambda>r s. known s (p_id p) = Some r)"
  proof (cases cached)
    case None
    have "hoare ok later (\<lambda>_. True)
        (andthen wait (\<lambda>_. andthen outcome (\<lambda>b. cache_put (p_id p) (GatewayResult b))))
        (\<lambda>r s. known s (p_id p) = Some r)"
      by (intro hoare_bind assms put_known)
    then show ?thesis by (simp add: None) (erule hoare_weaken, simp_all)
  next
    case (Some result)
    then show ?thesis using hoare_ret [of "\<lambda>r s. known s (p_id p) = Some r" result] by simp
  qed
qed

text \<open>So two charges of one payment, whatever happens in between, return the same result.\<close>

lemma charge_decides_once:
  assumes wait: "hoare ok later (\<lambda>_. True) wait (\<lambda>_ _. True)"
    and outcome: "hoare ok later (\<lambda>_. True) outcome (\<lambda>_ _. True)"
    and wait': "hoare ok later (\<lambda>_. True) wait' (\<lambda>_ _. True)"
    and outcome': "hoare ok later (\<lambda>_. True) outcome' (\<lambda>_ _. True)"
    and p: "p_id q = p_id p"
    and first: "ok s" "gateway_charge cache_get cache_put wait outcome p s = (Inr r, s1)"
    and second: "ok s2" "later s1 s2" "gateway_charge cache_get cache_put wait' outcome' q s2 = (Inr r', s3)"
  shows "r' = r"
proof -
  have "known s1 (p_id p) = Some r"
    using hoareD(3) [OF charge_known [OF wait outcome] first(1) TrueI first(2)] by simp
  moreover have "known s3 (p_id p) = Some r'"
    using hoareD(3) [OF charge_known [OF wait' outcome'] second(1) TrueI second(3)] p by simp
  moreover have "later s1 s3"
    using hoareD(2) [OF charge_known [OF wait' outcome'] second(1) TrueI second(3)] second(2) step_trans
    by blast
  ultimately show ?thesis using known_later by fastforce
qed

end

text \<open>In memory: results are never replaced.\<close>

interpretation memory_cache: result_cache "\<lambda>_. True" "\<lambda>s s'. fst s \<subseteq>\<^sub>m fst s'"
  memory_get memory_put_if_absent fst
proof (unfold_locales, goal_cases)
  case (1 s)
  then show ?case by simp
next
  case (2 s t u)
  then show ?case by (rule map_le_trans)
next
  case 3
  then show ?case by (metis domI map_le_def)
next
  case (4 i)
  then show ?case by (auto simp: hoare_def memory_get_def)
next
  case (5 i r)
  then show ?case
    by (auto simp: hoare_def memory_put_if_absent_def map_le_def split: option.splits)
qed

text \<open>In the database, as long as the other processes keep their side of the contract.\<close>

definition charged :: "world \<Rightarrow> uuid \<Rightarrow> gateway_result option" where
  "charged w i = map_option (\<lambda>c. GatewayResult (ch_succeeded c)) (find_charge (w_db w) i)"

lemma charged_step: "step w w' \<Longrightarrow> charged w i = Some r \<Longrightarrow> charged w' i = Some r"
  by (auto simp: charged_def step_def shared_def persists_def charges_persist_def)

lemma allowed_insert_charge:
  assumes inv: "tables_inv v out" and ins: "insert_charge i ok t v = (r, v')"
  shows "allowed out v v'"
proof (cases "find_charge v i")
  case (Some c)
  with inv ins show ?thesis by (auto simp: insert_charge_def allowed_refl)
next
  case None
  let ?row = "\<lparr>ch_payment_id = i, ch_succeeded = ok, ch_created_at = t\<rparr>"
  have v': "v' = v\<lparr>t_charges := t_charges v @ [?row]\<rparr>" using None ins by (auto simp: insert_charge_def)
  have grow: "find_charge v j = Some c \<Longrightarrow> find_charge v' j = Some c" for j c
    using charges.lookup_append [of v ?row j] by (simp add: v')
  have "settled_as_charged v' r" if "settled_as_charged v r" for r
    using that grow by (auto simp: settled_as_charged_def split: option.splits)
  moreover have "charges.unique v'"
    using charges.unique_append [of v ?row] inv None by (simp add: v' tables_inv_def)
  ultimately show ?thesis
    using inv grow
    by (auto simp: allowed_def tables_inv_def persists_def persist_defs v' list_all_iff)
qed

lemma holds_sql_get:
  assumes "rely env"
  shows "holds (\<lambda>_. True) (sql_cache_get env i) (\<lambda>x w. charged w i = x)"
  unfolding sql_cache_get_def
proof (rule holds_in_session [OF assms])
  have "holds fresh_session (query env (\<lambda>v. Inr (find_charge v i))) (\<lambda>row w. find_charge (w_db w) i = row)"
    by (rule holds_query) (auto simp: fresh_session_def sees_def)
  then show "holds (\<lambda>w. True \<and> fresh_session w)
     (andthen (query env (\<lambda>v. Inr (find_charge v i))) (\<lambda>row.
        case row of None \<Rightarrow> ret None | Some c \<Rightarrow> ret (Some (GatewayResult (ch_succeeded c)))))
     (\<lambda>x w. charged w i = x)"
    by (simp, elim logic.hoare_andthen)
      (auto simp: hoare_def ret_def charged_def split: option.splits)
qed (auto simp: charged_def)

lemma holds_sql_put:
  assumes "rely env"
  shows "holds (\<lambda>_. True) (sql_cache_put_if_absent env i r) (\<lambda>x w. charged w i = Some x)"
proof -
  let ?R = "\<lambda>x v. \<exists>c. find_charge v i = Some c \<and> x = GatewayResult (ch_succeeded c)"
  let ?seen = "\<lambda>x w. \<exists>v. sees w v \<and> ?R x v"
  have insert: "holds (\<lambda>_. True) (run_sql (insert_charge i (is_successful r) t))
      (\<lambda>ins w. case ins of None \<Rightarrow> True | Some ok \<Rightarrow> ?seen (GatewayResult ok) w)" for t
  proof (rule holds_run_sql)
    fix w s q v'
    assume w: "good w" "w_session w = Some s" and ins: "insert_charge i (is_successful r) t (s_view s) = (q, v')"
    have "tables_inv (s_view s) (w_sent w)" using good_view [OF w] by (simp add: session_good_def)
    then have "allowed (w_sent w) (s_view s) v'" using ins by (rule allowed_insert_charge)
    moreover have "find_charge v' i = Some \<lparr>ch_payment_id = i, ch_succeeded = is_successful r, ch_created_at = t\<rparr>"
      if "q = Inr (Some ok)" for ok
      using ins that charges.lookup_append [of "s_view s" "\<lparr>ch_payment_id = i, ch_succeeded = is_successful r, ch_created_at = t\<rparr>" i]
      by (auto simp: insert_charge_def split: if_splits)
    moreover have "ok = is_successful r" if "q = Inr (Some ok)" for ok
      using ins that by (auto simp: insert_charge_def split: if_splits)
    ultimately show "allowed (w_sent w) (s_view s) v' \<and>
      (\<forall>x. q = Inr x \<longrightarrow> (case x of None \<Rightarrow> True | Some ok \<Rightarrow> ?seen (GatewayResult ok)
         (w\<lparr>w_session := Some (s\<lparr>s_view := v'\<rparr>)\<rparr>)))"
      by (auto simp: sees_def split: option.split)
  qed
  have look: "holds (\<lambda>_. True) (query env (\<lambda>v. Inr (find_charge v i)))
      (\<lambda>ex w. case ex of None \<Rightarrow> True | Some c \<Rightarrow> ?seen (GatewayResult (ch_succeeded c)) w)"
    by (rule holds_query) (auto split: option.split)
  have existing: "holds (\<lambda>_. True) (andthen (query env (\<lambda>v. Inr (find_charge v i))) (\<lambda>existing.
      case existing of
        None \<Rightarrow> raise (RuntimeError (''gateway charge '' @ uuid_str i @ '' missing''))
      | Some c \<Rightarrow> ret (GatewayResult (ch_succeeded c)))) ?seen"
  proof (rule logic.hoare_andthen [OF look])
    fix ex :: "charge_row option"
    show "holds (\<lambda>w. case ex of None \<Rightarrow> True | Some c \<Rightarrow> ?seen (GatewayResult (ch_succeeded c)) w)
      (case ex of None \<Rightarrow> raise (RuntimeError (''gateway charge '' @ uuid_str i @ '' missing''))
       | Some c \<Rightarrow> ret (GatewayResult (ch_succeeded c))) ?seen"
      using logic.hoare_ret [of ?seen]
      by (cases ex) (simp_all only: option.case safe_raise)
  qed
  have "holds (\<lambda>_. True) (andthen (statement env) (\<lambda>_.
      andthen (run_sql (insert_charge i (is_successful r) t)) (\<lambda>inserted.
        case inserted of
          Some ok \<Rightarrow> ret (GatewayResult ok)
        | None \<Rightarrow> andthen (query env (\<lambda>v. Inr (find_charge v i))) (\<lambda>existing.
            case existing of
              None \<Rightarrow> raise (RuntimeError (''gateway charge '' @ uuid_str i @ '' missing''))
            | Some c \<Rightarrow> ret (GatewayResult (ch_succeeded c)))))) ?seen" for t
  proof (rule logic.hoare_bind [OF safe_statement], rule logic.hoare_andthen [OF insert])
    fix ins
    show "holds (\<lambda>w. case ins of None \<Rightarrow> True | Some ok \<Rightarrow> ?seen (GatewayResult ok) w)
      (case ins of None \<Rightarrow> andthen (query env (\<lambda>v. Inr (find_charge v i))) (\<lambda>existing.
            case existing of
              None \<Rightarrow> raise (RuntimeError (''gateway charge '' @ uuid_str i @ '' missing''))
            | Some c \<Rightarrow> ret (GatewayResult (ch_succeeded c)))
       | Some ok \<Rightarrow> ret (GatewayResult ok)) ?seen"
      using logic.hoare_ret [of ?seen]
      by (cases ins) (simp_all only: option.case existing)
  qed
  from holds_begin_block [where R = ?R, OF this]
  have block: "holds (\<lambda>w. True \<and> fresh_session w) (begin_block env (andthen (statement env) (\<lambda>_.
      andthen (run_sql (insert_charge i (is_successful r) t)) (\<lambda>inserted.
        case inserted of
          Some ok \<Rightarrow> ret (GatewayResult ok)
        | None \<Rightarrow> andthen (query env (\<lambda>v. Inr (find_charge v i))) (\<lambda>existing.
            case existing of
              None \<Rightarrow> raise (RuntimeError (''gateway charge '' @ uuid_str i @ '' missing''))
            | Some c \<Rightarrow> ret (GatewayResult (ch_succeeded c))))))) (\<lambda>x w. charged w i = Some x)" for t
    by (rule hoare_weaken) (auto simp: charged_def)
  show ?thesis
    unfolding sql_cache_put_if_absent_def
    by (rule logic.hoare_bind [OF safe_observations(1)], rule holds_in_session [OF assms block])
      (simp_all add: charged_def)
qed

lemma holds_rely: "hoare (\<lambda>w. rely env \<and> good w) step P m Q \<longleftrightarrow> (rely env \<longrightarrow> holds P m Q)"
  unfolding hoare_def by blast

interpretation sql_cache: result_cache "\<lambda>w. rely env \<and> good w" step
  "sql_cache_get env" "sql_cache_put_if_absent env" charged for env
proof (unfold_locales, goal_cases)
  case 1
  then show ?case by (rule charged_step)
next
  case (2 i)
  then show ?case by (simp add: holds_rely holds_sql_get)
next
  case (3 i r)
  then show ?case by (simp add: holds_rely holds_sql_put)
qed

lemma safe_delay [simp]: "safe (delay_wait env d)"
  by (simp add: delay_wait_def asyncio_sleep_def safe_andthen)

lemma safe_outcome [simp]: "safe (outcome_is_successful env q)"
  by (simp add: outcome_is_successful_def safe_andthen)

lemma holds_sql_charge:
  assumes "rely env"
  shows "holds (\<lambda>_. True) (sql_gateway_charge env p) (\<lambda>r w. charged w (p_id p) = Some r)"
  using sql_cache.charge_known [of env "delay_wait env default_delay" "outcome_is_successful env default_success_rate" p]
    assms
  by (simp add: holds_rely sql_gateway_charge_def)

section \<open>A charge without faults\<close>

lemma sql_get_calm:
  assumes "calm env"
  shows "sql_cache_get env i w =
    (Inr (map_option (\<lambda>c. GatewayResult (ch_succeeded c)) (find_charge (w_db w) i)),
     w\<lparr>w_session := None, w_tick := w_tick w + 3\<rparr>)"
  by (cases w) (simp add: sql_cache_get_def run_defs calmD [OF assms] cong: run_cong split: option.split)

lemma sql_put_calm:
  assumes "calm env" and "find_charge (w_db w) i = None"
  shows "sql_cache_put_if_absent env i r w =
    (Inr r, w\<lparr>w_db := (w_db w)\<lparr>t_charges := t_charges (w_db w) @
        [\<lparr>ch_payment_id = i, ch_succeeded = is_successful r, ch_created_at = e_now env (w_tick w)\<rparr>]\<rparr>,
      w_session := None, w_tick := w_tick w + 5\<rparr>)"
  using assms(2)
  by (cases w; cases r)
    (simp add: sql_cache_put_if_absent_def insert_charge_def run_defs calmD [OF assms(1)] cong: run_cong)

text \<open>The charge row a first charge of \<open>p\<close> writes, started at tick \<open>n\<close>.\<close>

definition drawn_charge :: "env \<Rightarrow> payment \<Rightarrow> nat \<Rightarrow> charge_row" where
  "drawn_charge env p n =
     \<lparr>ch_payment_id = p_id p, ch_succeeded = e_random env (n + 5) < default_success_rate,
      ch_created_at = e_now env (n + 6)\<rparr>"

lemma sql_charge_calm:
  assumes "calm env" and "find_charge (w_db w) (p_id p) = None"
  shows "sql_gateway_charge env p w =
    (Inr (GatewayResult (ch_succeeded (drawn_charge env p (w_tick w)))),
     w\<lparr>w_db := (w_db w)\<lparr>t_charges := t_charges (w_db w) @ [drawn_charge env p (w_tick w)]\<rparr>,
       w_session := None, w_tick := w_tick w + 11\<rparr>)"
  using assms(2)
  by (simp add: sql_gateway_charge_def gateway_charge_def sql_get_calm [OF assms(1)] sql_put_calm [OF assms(1)]
      delay_wait_def asyncio_sleep_def outcome_is_successful_def drawn_charge_def run_defs
      calmD [OF assms(1)] eval_nat_numeral cong: run_cong)

lemma sql_charge_again:
  assumes "calm env" and "charged w (p_id p) = Some r"
  shows "sql_gateway_charge env p w = (Inr r, w\<lparr>w_session := None, w_tick := w_tick w + 3\<rparr>)"
  using assms(2)
  by (auto simp: sql_gateway_charge_def gateway_charge_def andthen_def sql_get_calm [OF assms(1)] charged_def ret_def)

end
