(* ===== verification/Relay.thy ===== *)
theory Relay
  imports PublishOutbox Gateway
begin

text \<open>
  \<open>src/presentation/worker.py\<close> and \<open>outbox_relay.py\<close>: the loop that publishes batch after batch, waits when
  there is nothing to do, backs off when a batch fails, and ends when it is told to stop. The lemmas show
  what can end it.
\<close>

section \<open>WorkerLoop\<close>

text \<open>The task of a loop: running, or done, with what it raised if it did.\<close>

datatype worker_task = Running | Done "exn option"

record worker_loop =
  wl_stop :: bool
  wl_task :: "worker_task option"

definition worker_new :: worker_loop where
  "worker_new = \<lparr>wl_stop = False, wl_task = None\<rparr>"

definition worker_start :: "worker_loop \<Rightarrow> worker_loop" where
  "worker_start l =
     (case wl_task l of
        Some Running \<Rightarrow> l
      | _ \<Rightarrow> l\<lparr>wl_stop := False, wl_task := Some Running\<rparr>)"

definition worker_is_stopped :: "worker_loop \<Rightarrow> bool" where
  "worker_is_stopped l = wl_stop l"

text \<open>
  \<open>_join\<close>: awaits the task. \<open>outcome\<close> is how the task ends (the cancellation of the caller cancels it too), and
  \<open>caller_cancelled\<close> whether the caller is being cancelled itself. The task is over when the await is.
\<close>

definition worker_join :: "exn option \<Rightarrow> bool \<Rightarrow> (worker_loop, unit) prog" where
  "worker_join outcome caller_cancelled l =
     (case wl_task l of
        None \<Rightarrow> (Inr (), l)
      | Some task \<Rightarrow>
          (let ended = (case task of Running \<Rightarrow> outcome | Done e \<Rightarrow> e);
               l' = l\<lparr>wl_task := None\<rparr>
           in case ended of
                None \<Rightarrow> (Inr (), l')
              | Some e \<Rightarrow>
                  if e = CancelledError
                  then (if caller_cancelled then (Inl CancelledError, l') else (Inr (), l'))
                  else (Inl e, l')))"

definition worker_stop :: "exn option \<Rightarrow> bool \<Rightarrow> (worker_loop, unit) prog" where
  "worker_stop outcome caller_cancelled =
     andthen (modifies (\<lambda>l. l\<lparr>wl_stop := True\<rparr>)) (\<lambda>_. worker_join outcome caller_cancelled)"

text \<open>\<open>isolate\<close>: an \<open>Exception\<close> is logged and becomes \<open>None\<close>; a cancellation passes.\<close>

definition isolate :: "('s, 'a) prog \<Rightarrow> ('s, 'a option) prog" where
  "isolate action = attempt action (\<lambda>_. ret None) (\<lambda>x. ret (Some x))"

section \<open>OutboxRelay\<close>

text \<open>
  The loop runs on the world and its back-off. \<open>stop n\<close> tells whether the stop event is set when it is read
  at tick \<open>n\<close>; a wait ends by the event, by its timeout or by a cancellation.
\<close>

type_synonym relay_state = "world \<times> backoff"

definition on_world :: "'a action \<Rightarrow> (relay_state, 'a) prog" where
  "on_world m s = (case m (fst s) of (r, w) \<Rightarrow> (r, (w, snd s)))"

definition on_backoff :: "(backoff, 'a) prog \<Rightarrow> (relay_state, 'a) prog" where
  "on_backoff m s = (case m (snd s) of (r, b) \<Rightarrow> (r, (fst s, b)))"

definition relay_is_stopped :: "(nat \<Rightarrow> bool) \<Rightarrow> (relay_state, bool) prog" where
  "relay_is_stopped stop = on_world (observe stop)"

definition relay_wait :: "env \<Rightarrow> rat \<Rightarrow> (relay_state, unit) prog" where
  "relay_wait env timeout = on_world (asyncio_sleep env timeout)"

record relay =
  rl_interval :: rat
  rl_batch_size :: int

text \<open>The body of the loop: whether it returns.\<close>

definition relay_body :: "env \<Rightarrow> (nat \<Rightarrow> bool) \<Rightarrow> relay \<Rightarrow> int action \<Rightarrow> (relay_state, bool) prog" where
  "relay_body env stop relay execute =
     andthen (isolate (on_world execute)) (\<lambda>published.
       case published of
         None \<Rightarrow>
           andthen (on_world (random_random env)) (\<lambda>u.
           andthen (on_backoff (next_delay u)) (\<lambda>delay.
           andthen (relay_wait env delay) (\<lambda>_. ret False)))
       | Some n \<Rightarrow>
           andthen (on_backoff (modifies backoff_reset)) (\<lambda>_.
           andthen (relay_is_stopped stop) (\<lambda>stopped.
             if stopped then ret True
             else andthen (if n < rl_batch_size relay then relay_wait env (rl_interval relay)
                           else on_world (asyncio_sleep env 0)) (\<lambda>_. ret False))))"

text \<open>
  \<open>while not stopped: body\<close>, for at most so many iterations; \<open>None\<close> when the loop still runs then.
\<close>

fun relay_run ::
    "nat \<Rightarrow> env \<Rightarrow> (nat \<Rightarrow> bool) \<Rightarrow> relay \<Rightarrow> int action \<Rightarrow> relay_state \<Rightarrow> ((exn + unit) \<times> relay_state) option"
  where
  "relay_run 0 env stop relay execute s = None"
| "relay_run (Suc k) env stop relay execute s =
     (case relay_is_stopped stop s of
        (Inl e, s1) \<Rightarrow> Some (Inl e, s1)
      | (Inr True, s1) \<Rightarrow> Some (Inr (), s1)
      | (Inr False, s1) \<Rightarrow>
          (case relay_body env stop relay execute s1 of
             (Inl e, s2) \<Rightarrow> Some (Inl e, s2)
           | (Inr True, s2) \<Rightarrow> Some (Inr (), s2)
           | (Inr False, s2) \<Rightarrow> relay_run k env stop relay execute s2))"

definition relay_new :: "rat \<Rightarrow> int \<Rightarrow> bool \<Rightarrow> relay \<times> backoff" where
  "relay_new interval batch_size use_jitter =
     (\<lparr>rl_interval = interval, rl_batch_size = batch_size\<rparr>, backoff_for_interval interval use_jitter)"

section \<open>Facts\<close>

lemma relay_is_stopped_run [simp]:
  "relay_is_stopped stop (w, b) = (Inr (stop (w_tick w)), (w\<lparr>w_tick := w_tick w + 1\<rparr>, b))"
  by (simp add: relay_is_stopped_def on_world_def observe_def)

lemma relay_wait_run:
  "relay_wait env d (w, b) =
     (case e_sleep env (w_tick w) of None \<Rightarrow> Inr () | Some e \<Rightarrow> Inl e, (w\<lparr>w_tick := w_tick w + 1\<rparr>, b))"
  by (simp add: relay_wait_def on_world_def asyncio_sleep_def run_defs split: option.split)

lemma relay_body_unfold:
  "relay_body env stop relay execute (w, b) =
    (case execute w of
       (Inl e, w1) \<Rightarrow>
         if is_exception e
         then (let b' = b\<lparr>b_failures := b_failures b + 1\<rparr>;
                   w2 = w1\<lparr>w_tick := w_tick w1 + 1\<rparr>
               in case delay_for (b_schedule b) (e_random env (w_tick w1)) (b_failures b + 1) of
                    Inl e' \<Rightarrow> (Inl e', (w2, b'))
                  | Inr d \<Rightarrow>
                      (case e_sleep env (w_tick w1 + 1) of None \<Rightarrow> Inr False | Some e' \<Rightarrow> Inl e',
                       (w1\<lparr>w_tick := w_tick w1 + 2\<rparr>, b')))
         else (Inl e, (w1, b))
     | (Inr n, w1) \<Rightarrow>
         if stop (w_tick w1) then (Inr True, (w1\<lparr>w_tick := w_tick w1 + 1\<rparr>, backoff_reset b))
         else (case e_sleep env (w_tick w1 + 1) of None \<Rightarrow> Inr False | Some e' \<Rightarrow> Inl e',
               (w1\<lparr>w_tick := w_tick w1 + 2\<rparr>, backoff_reset b)))"
  by (simp add: relay_body_def isolate_def attempt_def andthen_def on_world_def on_backoff_def ret_def
      random_random_def observe_def next_delay_def relay_wait_run modifies_def asyncio_sleep_def may_fail_def
      raise_def Let_def split: prod.split sum.split option.split)

text \<open>How the loop may end: told to stop by the event, which it has just read, or cancelled.\<close>

definition ended_on_request :: "(nat \<Rightarrow> bool) \<Rightarrow> exn + unit \<Rightarrow> relay_state \<Rightarrow> bool" where
  "ended_on_request stop r s \<longleftrightarrow>
     (case r of Inr _ \<Rightarrow> \<exists>n. stop n \<and> w_tick (fst s) = Suc n | Inl e \<Rightarrow> e = CancelledError)"

text \<open>Waits are only ever ended by a cancellation.\<close>

definition waits_cancel_only :: "env \<Rightarrow> bool" where
  "waits_cancel_only env \<longleftrightarrow> (\<forall>n. e_sleep env n = None \<or> e_sleep env n = Some CancelledError)"

definition fair_draws :: "env \<Rightarrow> bool" where
  "fair_draws env \<longleftrightarrow> (\<forall>n. 0 \<le> e_random env n \<and> e_random env n < 1)"

lemma relay_body_ends:
  assumes "waits_cancel_only env" and "fair_draws env" and "schedule_ok (b_schedule b)"
    and "b_failures b < 1024" and "relay_body env stop relay execute (w, b) = (r, s')"
  shows "(isl r \<longrightarrow> r = Inl CancelledError) \<and>
    (r = Inr True \<longrightarrow> (\<exists>n. stop n \<and> w_tick (fst s') = Suc n)) \<and> b_schedule (snd s') = b_schedule b \<and>
    (b_failures (snd s') = b_failures b + 1 \<or> b_failures (snd s') = 0 \<or> snd s' = b)"
proof -
  have delay: "\<exists>d. delay_for (b_schedule b) (e_random env n) (b_failures b + 1) = Inr d" for n
    using delay_for_bounds [OF assms(3), of "e_random env n" "b_failures b + 1"] assms(2,4)
    by (auto simp: fair_draws_def)
  have sleep: "e_sleep env n = Some e \<Longrightarrow> e = CancelledError" for n e
    using assms(1) by (metis option.distinct(1) option.inject waits_cancel_only_def)
  obtain q w1 where run: "execute w = (q, w1)" by fastforce
  show ?thesis
  proof (cases q)
    case (Inl e)
    obtain d where d: "delay_for (b_schedule b) (e_random env (w_tick w1)) (b_failures b + 1) = Inr d"
      using delay by blast
    show ?thesis
      using assms(5) sleep
      by (cases "is_exception e")
        (auto simp: relay_body_unfold run Inl d Let_def is_exception_def split: option.splits)
  next
    case (Inr n)
    then show ?thesis
      using assms(5) sleep
      by (auto simp: relay_body_unfold run backoff_reset_def split: option.splits if_splits)
  qed
qed

lemma relay_run_ends:
  assumes env: "waits_cancel_only env" "fair_draws env"
  shows "schedule_ok (b_schedule b) \<Longrightarrow> 0 \<le> b_failures b \<Longrightarrow> b_failures b + int k \<le> 1024 \<Longrightarrow>
    relay_run k env stop relay execute (w, b) = Some (r, s') \<Longrightarrow> ended_on_request stop r s'"
proof (induction k arbitrary: w b)
  case (Suc k)
  show ?case
  proof (cases "stop (w_tick w)")
    case True
    then show ?thesis using Suc.prems by (auto simp: ended_on_request_def)
  next
    case False
    obtain q w2 b2 where body: "relay_body env stop relay execute (w\<lparr>w_tick := w_tick w + 1\<rparr>, b) = (q, (w2, b2))"
      by (metis surj_pair)
    note ends = relay_body_ends [OF env Suc.prems(1) _ body]
    show ?thesis
    proof (cases "q = Inr False")
      case True
      then have "relay_run k env stop relay execute (w2, b2) = Some (r, s')"
        using Suc.prems(4) False body by simp
      moreover have "schedule_ok (b_schedule b2)" "0 \<le> b_failures b2" "b_failures b2 + int k \<le> 1024"
        using ends Suc.prems by auto
      ultimately show ?thesis using Suc.IH by blast
    next
      case other: False
      then have "(r, s') = (case q of Inl e \<Rightarrow> Inl e | Inr _ \<Rightarrow> Inr (), (w2, b2))"
        using Suc.prems(4) False body by (cases q) (auto split: bool.splits)
      moreover have "b_failures b < 1024" using Suc.prems(3) by simp
      note ends = ends [OF this]
      ultimately show ?thesis using ends other by (cases q) (auto simp: ended_on_request_def)
    qed
  qed
qed simp

text \<open>A batch that always fails.\<close>

lemma relay_fails_on:
  assumes fails: "\<And>w. \<exists>e w'. execute w = (Inl e, w') \<and> is_exception e"
    and running: "\<And>n. \<not> stop n" and waits: "\<And>n. e_sleep env n = None"
    and draws: "fair_draws env"
  shows "schedule_ok (b_schedule b) \<Longrightarrow> 0 \<le> b_failures b \<Longrightarrow> b_failures b + int k = 1024 \<Longrightarrow>
    \<exists>m s'. relay_run (Suc k) env stop relay execute (w, b) = Some (Inl (OverflowError m), s')"
proof (induction k arbitrary: w b)
  case 0
  obtain e w' where run: "execute (w\<lparr>w_tick := w_tick w + 1\<rparr>) = (Inl e, w')" "is_exception e"
    using fails by blast
  moreover obtain m where "delay_for (b_schedule b) (e_random env (w_tick w')) (b_failures b + 1) = Inl (OverflowError m)"
    using delay_for_overflow [of "b_failures b + 1"] 0 by auto
  ultimately show ?case using running by (simp add: relay_body_unfold Let_def)
next
  case (Suc k)
  obtain e w' where run: "execute (w\<lparr>w_tick := w_tick w + 1\<rparr>) = (Inl e, w')" "is_exception e"
    using fails by blast
  moreover obtain d where "delay_for (b_schedule b) (e_random env (w_tick w')) (b_failures b + 1) = Inr d"
    using delay_for_bounds [OF Suc.prems(1), of "e_random env (w_tick w')" "b_failures b + 1"] Suc.prems draws
    by (auto simp: fair_draws_def)
  ultimately have "relay_run (Suc (Suc k)) env stop relay execute (w, b) =
      relay_run (Suc k) env stop relay execute (w'\<lparr>w_tick := w_tick w' + 2\<rparr>, b\<lparr>b_failures := b_failures b + 1\<rparr>)"
    using running waits by (simp add: relay_body_unfold Let_def del: relay_run.simps(2))
      (simp add: relay_body_unfold Let_def)
  moreover have "\<exists>m s'. relay_run (Suc k) env stop relay execute
      (w'\<lparr>w_tick := w_tick w' + 2\<rparr>, b\<lparr>b_failures := b_failures b + 1\<rparr>) = Some (Inl (OverflowError m), s')"
    by (rule Suc.IH) (use Suc.prems in auto)
  ultimately show ?case by simp
qed

text \<open>The loop keeps whatever its batches keep.\<close>

lemma relay_body_sound:
  assumes "sound execute" and "idle w" and "relay_body env stop relay execute (w, b) = (r, (w', b'))"
  shows "idle w' \<and> step w w'"
proof -
  obtain q w1 where run: "execute w = (q, w1)" by fastforce
  have w1: "idle w1" "step w w1" using hoareD(1,2) [OF assms(1,2) TrueI run] by blast+
  have "\<exists>n. w' = w1\<lparr>w_tick := n\<rparr>"
    using assms(3)
    by (cases q) (auto simp: relay_body_unfold run Let_def split: if_splits sum.splits intro: exI [of _ "w_tick w1"])
  then obtain n where "w' = w1\<lparr>w_tick := n\<rparr>" ..
  then show ?thesis using w1 by (auto simp: idle_def step_def shared_def)
qed

lemma relay_run_sound:
  assumes "sound execute"
  shows "idle w \<Longrightarrow> relay_run k env stop relay execute (w, b) = Some (r, (w', b')) \<Longrightarrow> idle w' \<and> step w w'"
proof (induction k arbitrary: w b)
  case (Suc k)
  let ?w1 = "w\<lparr>w_tick := w_tick w + 1\<rparr>"
  have w1: "idle ?w1" "step w ?w1" using Suc.prems(1) by (simp_all add: idle_def)
  show ?case
  proof (cases "stop (w_tick w)")
    case True
    then show ?thesis using Suc.prems w1 by auto
  next
    case False
    obtain q w2 b2 where body: "relay_body env stop relay execute (?w1, b) = (q, (w2, b2))"
      by (metis surj_pair)
    have w2: "idle w2" "step ?w1 w2" using relay_body_sound [OF assms w1(1) body] by blast+
    have "(w', b') = (w2, b2) \<or> relay_run k env stop relay execute (w2, b2) = Some (r, (w', b'))"
      using Suc.prems(2) False body by (auto split: sum.splits bool.splits)
    moreover have "step w w2" using service.step_trans [OF w1(2) w2(2)] .
    ultimately show ?thesis using Suc.IH [OF w2(1)] w2(1) service.step_trans by blast
  qed
qed simp

section \<open>Properties\<close>

text \<open>C30: A failing batch does not end the relay: whatever the batches do, fail or return, if the loop of a new
  relay ends in its first 1024 iterations, then it has just read that it is told to stop, and returns, or it is
  cancelled. It neither returns on its own nor ends with any other exception.\<close>

theorem relay_survives_failures:
  assumes "waits_cancel_only env" and "fair_draws env" and "k \<le> 1024"
    and "relay_run k env stop (fst (relay_new interval batch jitter)) execute (w, snd (relay_new interval batch jitter))
      = Some (r, (w', b'))"
  shows "case r of Inr _ \<Rightarrow> \<exists>n. stop n \<and> w_tick w' = Suc n | Inl e \<Rightarrow> e = CancelledError"
proof -
  have "schedule_ok (b_schedule (snd (relay_new interval batch jitter)))" "b_failures (snd (relay_new interval batch jitter)) = 0"
    by (simp_all add: relay_new_def backoff_for_interval_def backoff_new_def schedule_ok_def
        ERROR_BACKOFF_MIN_def ERROR_BACKOFF_MAX_def)
  with relay_run_ends [OF assms(1,2) _ _ _ assms(4)] assms(3) show ?thesis
    by (simp add: ended_on_request_def split: sum.splits)
qed

text \<open>A relay whose batches fail, stopped at tick 3.\<close>

theorem relay_survives_failures_witness:
  "\<exists>w' b'. relay_run 9 quiet_env (\<lambda>n. n = 3) (fst (relay_new 1 50 True)) (raise (RuntimeError ''no database''))
     (empty_world, snd (relay_new 1 50 True)) = Some (Inr (), (w', b')) \<and> w_tick w' = 4"
proof -
  have env: "waits_cancel_only quiet_env" "fair_draws quiet_env"
    by (simp_all add: waits_cancel_only_def fair_draws_def quiet_env_def)
  have "relay_body quiet_env (\<lambda>n. n = 3) (fst (relay_new 1 50 True)) (raise (RuntimeError ''no database''))
      (empty_world\<lparr>w_tick := 1\<rparr>, snd (relay_new 1 50 True)) =
    (Inr False, (empty_world\<lparr>w_tick := 3\<rparr>, (snd (relay_new 1 50 True))\<lparr>b_failures := 1\<rparr>))"
    by (simp add: relay_body_unfold raise_def is_exception_def quiet_env_def relay_new_def backoff_for_interval_def
        backoff_new_def delay_for_def Let_def)
  then have "relay_run (Suc 8) quiet_env (\<lambda>n. n = 3) (fst (relay_new 1 50 True)) (raise (RuntimeError ''no database''))
     (empty_world, snd (relay_new 1 50 True)) =
     Some (Inr (), (empty_world\<lparr>w_tick := 4\<rparr>, (snd (relay_new 1 50 True))\<lparr>b_failures := 1\<rparr>))"
    by (simp add: eval_nat_numeral empty_world_def)
  then obtain r w' b' where run: "relay_run 9 quiet_env (\<lambda>n. n = 3) (fst (relay_new 1 50 True))
      (raise (RuntimeError ''no database'')) (empty_world, snd (relay_new 1 50 True)) = Some (r, (w', b'))" and r: "r = Inr ()"
    by simp
  have "case r of Inr _ \<Rightarrow> \<exists>n. n = 3 \<and> w_tick w' = Suc n | Inl e \<Rightarrow> e = CancelledError"
    by (rule relay_survives_failures [OF env _ run]) simp
  with run r show ?thesis by simp
qed

text \<open>C31: But the relay does die of an outage that lasts: when 1025 batches fail in a row, the delay of the
  1025th failure raises \<open>OverflowError\<close> outside the guarded call, and the loop ends with it.\<close>

theorem relay_dies_after_1025_failures:
  assumes "\<And>w. \<exists>e w'. execute w = (Inl e, w') \<and> is_exception e"
    and "\<And>n. \<not> stop n" and "\<And>n. e_sleep env n = None" and "fair_draws env"
  shows "\<exists>m s'. relay_run 1025 env stop (fst (relay_new interval batch jitter)) execute
      (w, snd (relay_new interval batch jitter)) = Some (Inl (OverflowError m), s')"
proof -
  have "schedule_ok (b_schedule (snd (relay_new interval batch jitter)))" "b_failures (snd (relay_new interval batch jitter)) = 0"
    by (simp_all add: relay_new_def backoff_for_interval_def backoff_new_def schedule_ok_def
        ERROR_BACKOFF_MIN_def ERROR_BACKOFF_MAX_def)
  with relay_fails_on [OF assms, of "snd (relay_new interval batch jitter)" 1024] show ?thesis by simp
qed

theorem relay_dies_after_1025_failures_witness:
  "\<exists>m s'. relay_run 1025 quiet_env (\<lambda>_. False) (fst (relay_new (1 / 2) 50 True)) (raise (RuntimeError ''no database''))
      (empty_world, snd (relay_new (1 / 2) 50 True)) = Some (Inl (OverflowError m), s')"
  by (rule relay_dies_after_1025_failures)
    (simp_all add: raise_def is_exception_def quiet_env_def fair_draws_def)

end
