(* ===== verification/Webhooks.thy ===== *)
theory Webhooks
  imports Store WebhookUrl
begin

text \<open>
  \<open>src/application/payments/webhook_payload.py\<close>, \<open>deliver_webhook.py\<close> and \<open>src/infrastructure/webhooks\<close>: what is
  posted to the merchant, and which outcome of the call is which error.
\<close>

section \<open>WebhookPayloadBuilder\<close>

definition build_payload :: "payment \<Rightarrow> pydict" where
  "build_payload p =
     [(''payment_id'', PStr (uuid_str (p_id p))),
      (''status'', PStr (status_value (p_status p))),
      (''amount'', PStr (decimal_str (m_amount (p_money p)))),
      (''currency'', PStr (currency_value (m_currency (p_money p)))),
      (''processed_at'', case p_processed_at p of None \<Rightarrow> PNone | Some t \<Rightarrow> PStr (isoformat t))]"

section \<open>WebhookErrorMapper\<close>

definition map_timeout :: exn where "map_timeout = TransientDependencyError ''webhook timeout''"
definition map_transport :: exn where "map_transport = TransientDependencyError ''webhook transport error''"

definition raise_for_status :: "int \<Rightarrow> exn + unit" where
  "raise_for_status status_code =
     (if 200 \<le> status_code \<and> status_code < 300 then Inr ()
      else if 400 \<le> status_code \<and> status_code < 500
      then Inl (PermanentProcessingError (''webhook rejected with '' @ show_int status_code))
      else Inl (TransientDependencyError (''webhook failed with '' @ show_int status_code)))"

section \<open>The HTTP client\<close>

text \<open>\<open>HttpxWebhookClientFactory.create\<close>: redirects are answers like any other, never followed.\<close>

record http_client =
  hc_timeout_seconds :: rat
  hc_max_connections :: int
  hc_max_keepalive :: int
  hc_follow_redirects :: bool

definition create_http_client :: "rat \<Rightarrow> int \<Rightarrow> int \<Rightarrow> http_client" where
  "create_http_client timeout_seconds max_connections max_keepalive =
     \<lparr>hc_timeout_seconds = timeout_seconds, hc_max_connections = max_connections,
      hc_max_keepalive = max_keepalive, hc_follow_redirects = False\<rparr>"

text \<open>\<open>client.post\<close>: the call is logged, whether or not it reaches the server.\<close>

definition append_post :: "post \<Rightarrow> world \<Rightarrow> world" where
  "append_post p w = w\<lparr>w_posts := w_posts w @ [p]\<rparr>"

definition client_post :: "env \<Rightarrow> post \<Rightarrow> post_outcome action" where
  "client_post env p = andthen (modifies (append_post p)) (\<lambda>_. observe (e_post env))"

section \<open>HttpxWebhookSender\<close>

definition webhook_send :: "env \<Rightarrow> string \<Rightarrow> pydict \<Rightarrow> string \<Rightarrow> unit action" where
  "webhook_send env url payload idempotency_key =
     andthen (lift_exn (webhook_url_new url)) (\<lambda>_.
     andthen (client_post env
        \<lparr>po_url = url, po_payload = payload, po_headers = [(''Idempotency-Key'', idempotency_key)]\<rparr>)
       (\<lambda>outcome.
          case outcome of
            Timed_out \<Rightarrow> raise map_timeout
          | Transport_failed \<Rightarrow> raise map_transport
          | Post_raised e \<Rightarrow> raise e
          | Responded status_code \<Rightarrow> lift_exn (raise_for_status status_code)))"

section \<open>DeliverWebhook\<close>

definition deliver_webhook :: "env \<Rightarrow> payment \<Rightarrow> unit action" where
  "deliver_webhook env p =
     webhook_send env (p_webhook_url p) (build_payload p) (uuid_str (p_id p))"

text \<open>The one call a delivery makes.\<close>

definition payment_post :: "payment \<Rightarrow> post" where
  "payment_post p =
     \<lparr>po_url = p_webhook_url p, po_payload = build_payload p,
      po_headers = [(''Idempotency-Key'', uuid_str (p_id p))]\<rparr>"

lemma deliver_webhook_run:
  "deliver_webhook env p w =
     (case webhook_url_new (p_webhook_url p) of
        Inl e \<Rightarrow> (Inl e, w)
      | Inr _ \<Rightarrow>
          ((case e_post env (w_tick w) of
              Timed_out \<Rightarrow> Inl map_timeout
            | Transport_failed \<Rightarrow> Inl map_transport
            | Post_raised e \<Rightarrow> Inl e
            | Responded status_code \<Rightarrow> raise_for_status status_code),
           w\<lparr>w_posts := w_posts w @ [payment_post p], w_tick := w_tick w + 1\<rparr>))"
  by (simp add: deliver_webhook_def webhook_send_def client_post_def prog_defs observe_def append_post_def
      payment_post_def split: sum.split post_outcome.split)

section \<open>Properties\<close>

text \<open>C18: What a webhook call comes to: a 2xx answer is a success, a 4xx answer a permanent error, and any
  other status (redirects included), a timeout or a broken connection a transient one; exactly one call is
  made, to the payment's URL, with the payment's outcome as its payload and the payment's id as its idempotency
  key, and none when the URL is refused.\<close>

theorem webhook_outcomes:
  "deliver_webhook env p w =
     (case webhook_url_new (p_webhook_url p) of
        Inl e \<Rightarrow> (Inl e, w)
      | Inr _ \<Rightarrow>
          ((case e_post env (w_tick w) of
              Timed_out \<Rightarrow> Inl (TransientDependencyError ''webhook timeout'')
            | Transport_failed \<Rightarrow> Inl (TransientDependencyError ''webhook transport error'')
            | Post_raised e \<Rightarrow> Inl e
            | Responded s \<Rightarrow>
                if s div 100 = 2 then Inr ()
                else if s div 100 = 4 then Inl (PermanentProcessingError (''webhook rejected with '' @ show_int s))
                else Inl (TransientDependencyError (''webhook failed with '' @ show_int s))),
           w\<lparr>w_posts := w_posts w @ [\<lparr>po_url = p_webhook_url p,
               po_payload =
                 [(''payment_id'', PStr (uuid_str (p_id p))), (''status'', PStr (status_value (p_status p))),
                  (''amount'', PStr (decimal_str (m_amount (p_money p)))),
                  (''currency'', PStr (currency_value (m_currency (p_money p)))),
                  (''processed_at'', case p_processed_at p of None \<Rightarrow> PNone | Some t \<Rightarrow> PStr (isoformat t))],
               po_headers = [(''Idempotency-Key'', uuid_str (p_id p))]\<rparr>], w_tick := w_tick w + 1\<rparr>))"
proof -
  have status: "raise_for_status s =
      (if s div 100 = 2 then Inr ()
       else if s div 100 = 4 then Inl (PermanentProcessingError (''webhook rejected with '' @ show_int s))
       else Inl (TransientDependencyError (''webhook failed with '' @ show_int s)))" for s
  proof -
    have "s div 100 = 2 \<longleftrightarrow> 200 \<le> s \<and> s < 300" "s div 100 = 4 \<longleftrightarrow> 400 \<le> s \<and> s < 500" by linarith+
    then show ?thesis by (simp add: raise_for_status_def)
  qed
  show ?thesis
    by (simp add: deliver_webhook_run map_timeout_def map_transport_def payment_post_def build_payload_def status
        split: sum.split post_outcome.split)
qed

end
