(* ===== verification/Charge.thy ===== *)
theory Charge
  imports CreatePayment Gateway Webhooks
begin

text \<open>
  \<open>src/application/payments/charge.py\<close>: the payment is loaded, charged at the gateway outside any
  transaction, and completed under a row lock. The lemmas show that what is returned is terminal, stored,
  and agrees with the charge on record.
\<close>

section \<open>ChargePayment\<close>

definition charge_load :: "env \<Rightarrow> uuid \<Rightarrow> payment action" where
  "charge_load env payment_id =
     in_uow env
       (andthen (lift_exn (payment_id_new (Inl payment_id))) (\<lambda>i.
        andthen (payments_get env i) (\<lambda>found.
          case found of None \<Rightarrow> raise (PaymentNotFound payment_id) | Some p \<Rightarrow> ret p)))"

text \<open>\<open>current\<close> is completed in place, saved, committed, and returned.\<close>

definition complete_current :: "env \<Rightarrow> gateway_result \<Rightarrow> payment \<Rightarrow> payment action" where
  "complete_current env result current =
     (if \<not> is_terminal current then
        andthen (clock_now env) (\<lambda>now.
        andthen (lift_exn (if is_successful result then payment_succeed now current
                           else payment_fail now current)) (\<lambda>current'.
        andthen (payments_save env current') (\<lambda>_.
        andthen (uow_commit env) (\<lambda>_. ret current'))))
      else ret current)"

definition charge_complete :: "env \<Rightarrow> payment \<Rightarrow> gateway_result \<Rightarrow> payment action" where
  "charge_complete env p result =
     in_uow env
       (andthen (payments_get_for_update env (p_id p)) (\<lambda>found.
          case found of
            None \<Rightarrow> raise (PaymentNotFound (p_id p))
          | Some current \<Rightarrow> complete_current env result current))"

definition charge_and_complete ::
    "env \<Rightarrow> (payment \<Rightarrow> gateway_result action) \<Rightarrow> payment \<Rightarrow> payment action" where
  "charge_and_complete env gateway p =
     andthen (gateway p) (\<lambda>result. charge_complete env p result)"

definition charge_execute :: "env \<Rightarrow> (payment \<Rightarrow> gateway_result action) \<Rightarrow> uuid \<Rightarrow> payment action" where
  "charge_execute env gateway payment_id =
     andthen (charge_load env payment_id) (\<lambda>p.
       if is_terminal p then ret p else charge_and_complete env gateway p)"

section \<open>What is stored\<close>

definition stored :: "payment \<Rightarrow> world \<Rightarrow> bool" where
  "stored p w \<longleftrightarrow>
     (\<exists>row. find_payment (w_db w) (p_id p) = Some row \<and> mapper_to_domain row = Inr p)"

lemma domain_status: "mapper_to_domain row = Inr p \<Longrightarrow> pr_status row = status_value (p_status p)"
  by (elim mapper_to_domain_Inr) (simp add: payment_reconstitute_def)

lemma domain_id: "mapper_to_domain row = Inr p \<Longrightarrow> p_id p = pr_id row"
  by (elim mapper_to_domain_Inr) (simp add: payment_reconstitute_def)

lemma row_terminal_iff: "mapper_to_domain row = Inr p \<Longrightarrow> row_terminal row \<longleftrightarrow> is_terminal p"
  using domain_status [of row p]
  by (cases "p_status p") (simp_all add: row_terminal_def is_terminal_def)

lemma stored_step:
  assumes "step w w'" and "stored p w" and "is_terminal p"
  shows "stored p w'"
proof -
  obtain row where row: "find_payment (w_db w) (p_id p) = Some row" "mapper_to_domain row = Inr p"
    using assms(2) by (auto simp: stored_def)
  then have "row_terminal row" using assms(3) row_terminal_iff by blast
  then have "find_payment (w_db w') (p_id p) = Some row"
    using step_payment [OF assms(1) row(1)] by (auto simp: payment_persists_def)
  with row(2) show ?thesis by (auto simp: stored_def)
qed

lemma completed_domain:
  "mapper_to_domain row = Inr p \<Longrightarrow>
   mapper_to_domain (completed ok t row) = Inr (p\<lparr>p_status := outcome_status ok, p_processed_at := Some t\<rparr>)"
  by (auto simp: mapper_to_domain_def completed_def bind_exn_Inr_iff payment_reconstitute_def
      split: option.splits)

section \<open>The completion\<close>

text \<open>What the transaction knows once it has locked the row.\<close>

definition locked_row :: "payment_row \<Rightarrow> payment \<Rightarrow> gateway_result \<Rightarrow> world \<Rightarrow> bool" where
  "locked_row row p result w \<longleftrightarrow>
     fresh_session w \<and> find_payment (w_db w) (p_id p) = Some row \<and> mapper_to_domain row = Inr p \<and>
     charged w (p_id p) = Some result"

lemma locked_row_tick [simp]: "locked_row row p res (w\<lparr>w_tick := n\<rparr>) = locked_row row p res w"
  by (simp add: locked_row_def fresh_session_def charged_def)

lemma holds_keep_locked:
  assumes "safe m" and "\<And>w r w'. m w = (r, w') \<Longrightarrow> fresh_session w \<Longrightarrow> \<exists>n. w' = w\<lparr>w_tick := n\<rparr>"
  shows "holds (locked_row row p res) m (\<lambda>_. locked_row row p res)"
proof (rule holds_keep [OF assms(1)])
  fix w r w'
  assume run: "m w = (r, w')" and l: "locked_row row p res w"
  then have "fresh_session w" by (simp add: locked_row_def)
  from assms(2) [OF run this] obtain n where "w' = w\<lparr>w_tick := n\<rparr>" ..
  with l show "locked_row row p res w'" by simp
qed

lemma flush_fresh: "flush env w = (r, w') \<Longrightarrow> fresh_session w \<Longrightarrow> \<exists>n. w' = w\<lparr>w_tick := n\<rparr>"
proof -
  assume run: "flush env w = (r, w')" and f: "fresh_session w"
  obtain q w1 where st: "statement env w = (q, w1)" by fastforce
  then have w1: "w1 = w\<lparr>w_tick := w_tick w + 1\<rparr>" by (rule statement_world)
  have "w\<lparr>w_tick := n, w_session := Some \<lparr>s_view = w_db w, s_new = []\<rparr>\<rparr> = w\<lparr>w_tick := n\<rparr>" for n
    using f by (cases w) (simp add: fresh_session_def)
  then have "w' = w\<lparr>w_tick := w_tick w + 1\<rparr>"
    using run st f by (auto simp: flush_def andthen_def w1 flush_rows_def fresh_session_def split: sum.splits)
  then show ?thesis by blast
qed

lemma holds_update_payment:
  assumes pending: "\<not> is_terminal p"
  shows "holds (locked_row row p result)
    (run_sql (update_payment env row (p\<lparr>p_status := outcome_status (is_successful result), p_processed_at := Some t\<rparr>)))
    (\<lambda>_. seen (\<lambda>v. find_payment v (p_id p) = Some (completed (is_successful result) t row)))"
proof (rule holds_run_sql)
  let ?ok = "is_successful result"
  let ?p = "p\<lparr>p_status := outcome_status ?ok, p_processed_at := Some t\<rparr>"
  fix w s r v'
  assume w: "good w" "locked_row row p result w" "w_session w = Some s"
    and upd: "update_payment env row ?p (s_view s) = (r, v')"
  then have s: "s_view s = w_db w" and row: "find_payment (w_db w) (p_id p) = Some row"
    and dom: "mapper_to_domain row = Inr p" and ch: "charged w (p_id p) = Some result"
    by (simp_all add: locked_row_def fresh_session_def)
  have inv: "tables_inv (w_db w) (w_sent w)" using w(1) by (simp add: good_def)
  have id: "pr_id row = p_id p" using domain_id [OF dom] by simp
  obtain c where c: "find_charge (w_db w) (p_id p) = Some c" "ch_succeeded c = ?ok"
    using ch by (auto simp: charged_def)
  show "allowed (w_sent w) (s_view s) v' \<and>
    (\<forall>x. r = Inr x \<longrightarrow> seen (\<lambda>v. find_payment v (p_id p) = Some (completed ?ok t row))
       (w\<lparr>w_session := Some (s\<lparr>s_view := v'\<rparr>)\<rparr>))"
  proof (cases "v' = s_view s \<and> isl r")
    case True
    then show ?thesis using inv s by (auto simp: allowed_refl)
  next
    case False
    then obtain row' where row': "mapper_apply env (pr_id row) (Some (pr_extra row)) ?p = Inr row'"
      and v': "v' = (s_view s)\<lparr>t_payments := update_rows (\<lambda>r. pr_id r = pr_id row') (\<lambda>_. row') (t_payments (s_view s))\<rparr>"
      using upd by (auto simp: update_payment_def split: sum.splits if_splits)
    have "row' = row\<lparr>pr_status := status_value (outcome_status ?ok), pr_processed_at := Some t\<rparr>"
      by (rule mapper_apply_completed [OF dom row'])
    then have done': "row' = completed ?ok t row" "pr_id (completed ?ok t row) = p_id p"
      using id by (simp_all add: completed_def)
    have v'': "v' = (w_db w)\<lparr>t_payments := update_rows (\<lambda>r. pr_id r = p_id p) (\<lambda>_. completed ?ok t row) (t_payments (w_db w))\<rparr>"
      using v' by (simp add: s done')
    have "\<not> row_terminal row" using pending row_terminal_iff [OF dom] by simp
    from allowed_complete [OF inv row this c refl]
    have "allowed (w_sent w) (s_view s) v'" by (simp add: s v'')
    moreover have "find_payment v' (p_id p) = Some (completed ?ok t row)"
    proof -
      let ?f = "\<lambda>r. if pr_id r = p_id p then completed ?ok t row else r"
      have "pr_id (?f r) = pr_id r" for r using id by (simp add: completed_def)
      from payments.lookup_map [of ?f "w_db w", OF this] row id
      show ?thesis by (simp add: v'' update_rows_def)
    qed
    ultimately show ?thesis by (auto simp: seen_def sees_def)
  qed
qed

lemma holds_save:
  assumes pending: "\<not> is_terminal p"
  shows "holds (locked_row row p result)
    (payments_save env (p\<lparr>p_status := outcome_status (is_successful result), p_processed_at := Some t\<rparr>))
    (\<lambda>_. seen (\<lambda>v. find_payment v (p_id p) = Some (completed (is_successful result) t row)))"
proof -
  let ?p = "p\<lparr>p_status := outcome_status (is_successful result), p_processed_at := Some t\<rparr>"
  have look: "holds (locked_row row p result) (query env (\<lambda>v. Inr (find_payment v (p_id ?p))))
      (\<lambda>found w. found = Some row \<and> locked_row row p result w)"
    by (rule holds_query) (auto simp: locked_row_def fresh_session_def sees_def charged_def)
  show ?thesis
    unfolding payments_save_def
  proof (rule logic.hoare_andthen [OF look])
    fix found
    have "holds (locked_row row p result) (andthen (flush env) (\<lambda>_. run_sql (update_payment env row ?p)))
        (\<lambda>_. seen (\<lambda>v. find_payment v (p_id p) = Some (completed (is_successful result) t row)))"
      by (rule logic.hoare_andthen [OF holds_keep_locked [OF safe_flush] holds_update_payment [OF pending]])
        (rule flush_fresh)
    then show "holds (\<lambda>w. found = Some row \<and> locked_row row p result w)
        (case found of
           None \<Rightarrow> raise (RuntimeError (''payment '' @ uuid_str (p_id ?p) @ '' missing for save''))
         | Some model \<Rightarrow> andthen (flush env) (\<lambda>_. run_sql (update_payment env model ?p)))
        (\<lambda>_. seen (\<lambda>v. find_payment v (p_id p) = Some (completed (is_successful result) t row)))"
      by (cases "found = Some row") (simp_all add: hoare_def)
  qed
qed

lemma complete_result:
  "\<not> is_terminal p \<Longrightarrow>
   (if ok then payment_succeed t p else payment_fail t p) =
     Inr (p\<lparr>p_status := outcome_status ok, p_processed_at := Some t\<rparr>)"
  by (simp add: payment_succeed_def payment_fail_def payment_complete_pending outcome_status_def)

lemma lift_Inr: "lift_exn (Inr x) = ret x"
  by (rule ext) (simp add: lift_exn_def ret_def)

lemma outcome_terminal [simp]: "is_terminal (p\<lparr>p_status := outcome_status ok, p_processed_at := t\<rparr>)"
  by (simp add: is_terminal_def outcome_status_def)

lemma holds_complete_current:
  "holds (locked_row row p result) (complete_current env result p)
     (\<lambda>q w. p_id q = p_id p \<and> is_terminal q \<and> stored q w)"
proof (cases "is_terminal p")
  case True
  then show ?thesis
    by (auto simp: complete_current_def hoare_def ret_def locked_row_def stored_def)
next
  case False
  let ?p = "\<lambda>t. p\<lparr>p_status := outcome_status (is_successful result), p_processed_at := Some t\<rparr>"
  let ?done = "\<lambda>t w. find_payment (w_db w) (p_id p) = Some (completed (is_successful result) t row)"
  have dom: "locked_row row p result w \<Longrightarrow> mapper_to_domain (completed (is_successful result) t row) = Inr (?p t)"
    for w t using completed_domain by (simp add: locked_row_def)
  have commit: "holds (seen (\<lambda>v. find_payment v (p_id p) = Some (completed (is_successful result) t row)))
      (uow_commit env) (\<lambda>_. ?done t)" for t
    by (rule holds_uow_commit) simp
  have rest: "holds (locked_row row p result)
      (andthen (payments_save env (?p t)) (\<lambda>_. andthen (uow_commit env) (\<lambda>_. ret (?p t))))
      (\<lambda>q w. q = ?p t \<and> ?done t w)" for t
    by (rule logic.hoare_andthen [OF holds_save [OF False]], rule logic.hoare_andthen [OF commit])
      (auto simp: hoare_def ret_def)
  have clock: "holds (locked_row row p result) (clock_now env) (\<lambda>_. locked_row row p result)"
    by (rule holds_keep_locked) (auto simp: clock_now_def observe_def)
  have "holds (locked_row row p result)
      (andthen (lift_exn (if is_successful result then payment_succeed t p else payment_fail t p)) (\<lambda>current'.
        andthen (payments_save env current') (\<lambda>_. andthen (uow_commit env) (\<lambda>_. ret current'))))
      (\<lambda>q w. \<exists>t. q = ?p t \<and> ?done t w)" for t
    unfolding complete_result [OF False] lift_Inr ret_andthen
    by (rule hoare_weaken [OF rest]) auto
  then have "holds (locked_row row p result) (complete_current env result p)
      (\<lambda>q w. \<exists>t. q = ?p t \<and> ?done t w)"
    using False unfolding complete_current_def
    by (simp add: logic.hoare_andthen [OF clock])
  then show ?thesis
    using dom by (fastforce simp: hoare_def stored_def)
qed

lemma found_by_id:
  assumes "bind_exn (scalar_one_or_none (filter (\<lambda>r. pr_id r = i) (t_payments v))) optional_payment = Inr (Some p)"
  shows "\<exists>row. find_payment v i = Some row \<and> mapper_to_domain row = Inr p \<and> p_id p = i"
proof -
  obtain row where eq: "filter (\<lambda>r. pr_id r = i) (t_payments v) = [row]" "mapper_to_domain row = Inr p"
    using assms
    by (auto simp: bind_exn_Inr_iff scalar_one_or_none_def optional_payment_def split: list.splits option.splits)
  have "find P xs = Some r" if "filter P xs = [r]" for P :: "payment_row \<Rightarrow> bool" and xs r
    using that by (induction xs) (auto split: if_splits)
  from this [OF eq(1)] have found: "find_payment v i = Some row" by (simp add: find_payment_def)
  then have "pr_id row = i" using payments.lookup_key by blast
  with found eq(2) show ?thesis using domain_id by blast
qed

lemma holds_get_for_update:
  "holds (\<lambda>w. charged w i = Some result \<and> fresh_session w) (payments_get_for_update env i)
     (\<lambda>found w. case found of None \<Rightarrow> True
        | Some p \<Rightarrow> p_id p = i \<and> (\<exists>row. locked_row row p result w))"
  unfolding payments_get_for_update_def
proof (rule holds_query)
  fix w v x
  assume w: "charged w i = Some result \<and> fresh_session w" and "sees w v"
    and x: "bind_exn (scalar_one_or_none (filter (\<lambda>r. pr_id r = i) (t_payments v))) optional_payment = Inr x"
  then have v: "v = w_db w" by (auto simp: fresh_session_def sees_def)
  show "case x of None \<Rightarrow> True | Some p \<Rightarrow> p_id p = i \<and> (\<exists>row. locked_row row p result w)"
    using found_by_id [of i v] x w by (cases x) (auto simp: v locked_row_def)
qed (simp add: charged_def fresh_session_def)

lemma holds_charge_complete:
  assumes env: "rely env"
  shows "holds (\<lambda>w. charged w (p_id p) = Some result) (charge_complete env p result)
    (\<lambda>q w. p_id q = p_id p \<and> is_terminal q \<and> stored q w)"
  unfolding charge_complete_def
proof (rule holds_in_uow [OF env])
  show "holds (\<lambda>w. charged w (p_id p) = Some result \<and> fresh_session w)
    (andthen (payments_get_for_update env (p_id p)) (\<lambda>found.
       case found of None \<Rightarrow> raise (PaymentNotFound (p_id p))
       | Some current \<Rightarrow> complete_current env result current))
    (\<lambda>q w. p_id q = p_id p \<and> is_terminal q \<and> stored q w)"
  proof (rule logic.hoare_andthen [OF holds_get_for_update])
    fix found
    have "holds (\<lambda>w. p_id c = p_id p \<and> (\<exists>row. locked_row row c result w)) (complete_current env result c)
        (\<lambda>q w. p_id q = p_id p \<and> is_terminal q \<and> stored q w)" for c
    proof (intro hoare_fact hoare_ex)
      fix row
      assume "p_id c = p_id p"
      then show "holds (locked_row row c result) (complete_current env result c)
          (\<lambda>q w. p_id q = p_id p \<and> is_terminal q \<and> stored q w)"
        using holds_complete_current [of row c result env] by simp
    qed
    then show "holds (\<lambda>w. case found of None \<Rightarrow> True
        | Some c \<Rightarrow> p_id c = p_id p \<and> (\<exists>row. locked_row row c result w))
      (case found of None \<Rightarrow> raise (PaymentNotFound (p_id p)) | Some c \<Rightarrow> complete_current env result c)
      (\<lambda>q w. p_id q = p_id p \<and> is_terminal q \<and> stored q w)"
      by (cases found) simp_all
  qed
  show "charged w' (p_id p) = Some result" if "charged w (p_id p) = Some result" "step w w'" for w w'
    using charged_step that by blast
qed (auto simp: stored_def)

lemma holds_charge_load:
  assumes env: "rely env"
  shows "holds (\<lambda>_. True) (charge_load env i) (\<lambda>p w. p_id p = i \<and> stored p w)"
  unfolding charge_load_def
proof (rule holds_in_uow [OF env])
  have get: "holds (\<lambda>w. True \<and> fresh_session w) (payments_get env i)
      (\<lambda>found w. case found of None \<Rightarrow> True | Some p \<Rightarrow> p_id p = i \<and> stored p w)"
    unfolding payments_get_def
  proof (rule holds_query)
    fix w v x
    assume w: "True \<and> fresh_session w" and "sees w v" and x: "optional_payment (find_payment v i) = Inr x"
    then have v: "v = w_db w" by (auto simp: fresh_session_def sees_def)
    show "case x of None \<Rightarrow> True | Some p \<Rightarrow> p_id p = i \<and> stored p w"
    proof (cases x)
      case (Some p)
      then obtain row where row: "find_payment (w_db w) i = Some row" "mapper_to_domain row = Inr p"
        using x by (auto simp: v optional_payment_def bind_exn_Inr_iff split: option.splits)
      then have "p_id p = i" using domain_id payments.lookup_key by metis
      with row Some show ?thesis by (simp add: stored_def)
    qed simp
  qed (simp add: fresh_session_def)
  have "holds (\<lambda>w. True \<and> fresh_session w) (andthen (payments_get env i) (\<lambda>found.
      case found of None \<Rightarrow> raise (PaymentNotFound i) | Some p \<Rightarrow> ret p))
      (\<lambda>p w. p_id p = i \<and> stored p w)"
  proof (rule logic.hoare_andthen [OF get])
    fix found
    show "holds (\<lambda>w. case found of None \<Rightarrow> True | Some p \<Rightarrow> p_id p = i \<and> stored p w)
        (case found of None \<Rightarrow> raise (PaymentNotFound i) | Some p \<Rightarrow> ret p) (\<lambda>p w. p_id p = i \<and> stored p w)"
      using logic.hoare_ret [of "\<lambda>p w. p_id p = i \<and> stored p w"] by (cases found) simp_all
  qed
  then show "holds (\<lambda>w. True \<and> fresh_session w) (andthen (lift_exn (payment_id_new (Inl i))) (\<lambda>i'.
      andthen (payments_get env i') (\<lambda>found.
        case found of None \<Rightarrow> raise (PaymentNotFound i) | Some p \<Rightarrow> ret p)))
      (\<lambda>p w. p_id p = i \<and> stored p w)"
    by (simp add: payment_id_new_def lift_Inr)
qed (auto simp: stored_def)

text \<open>Whatever gateway puts its decision on record before it returns it.\<close>

lemma holds_charge_execute:
  assumes env: "rely env"
    and gateway: "\<And>p. holds (\<lambda>_. True) (gateway p) (\<lambda>r w. charged w (p_id p) = Some r)"
  shows "holds (\<lambda>_. True) (charge_execute env gateway i) (\<lambda>p w. p_id p = i \<and> is_terminal p \<and> stored p w)"
  unfolding charge_execute_def
proof (rule logic.hoare_andthen [OF holds_charge_load [OF env]])
  fix p
  show "holds (\<lambda>w. p_id p = i \<and> stored p w) (if is_terminal p then ret p else charge_and_complete env gateway p)
      (\<lambda>p w. p_id p = i \<and> is_terminal p \<and> stored p w)"
  proof (cases "is_terminal p")
    case True
    then show ?thesis by (auto simp: hoare_def ret_def)
  next
    case False
    have run: "holds (\<lambda>_. True) (charge_and_complete env gateway p)
        (\<lambda>q w. p_id q = p_id p \<and> is_terminal q \<and> stored q w)"
      unfolding charge_and_complete_def
      by (rule logic.hoare_andthen [OF gateway holds_charge_complete [OF env]])
    have "holds (\<lambda>w. p_id p = i \<and> stored p w) (charge_and_complete env gateway p)
        (\<lambda>q w. p_id q = i \<and> is_terminal q \<and> stored q w)"
      using run by (cases "p_id p = i") (auto elim: hoare_weaken simp: hoare_def [of _ _ "\<lambda>_. False"])
    with False show ?thesis by simp
  qed
qed

lemma terminal_agrees:
  assumes w: "good w" and p: "stored p w" "is_terminal p"
  obtains ok where "charged w (p_id p) = Some (GatewayResult ok)" "p_status p = outcome_status ok"
proof -
  obtain row where row: "find_payment (w_db w) (p_id p) = Some row" "mapper_to_domain row = Inr p"
    using p(1) by (auto simp: stored_def)
  have "row \<in> set (t_payments (w_db w))" "pr_id row = p_id p" using row(1) payments.lookup_key by blast+
  moreover have "row_terminal row" using p(2) row_terminal_iff [OF row(2)] by simp
  ultimately obtain c where c: "find_charge (w_db w) (p_id p) = Some c"
    "pr_status row = status_value (outcome_status (ch_succeeded c))"
    using w by (auto simp: good_def tables_inv_def list_all_iff settled_as_charged_def split: option.splits)
  moreover have "p_status p = outcome_status (ch_succeeded c)"
    using domain_status [OF row(2)] c(2)
    by (cases "p_status p") (auto simp: outcome_status_def split: if_splits)
  ultimately show ?thesis using that by (simp add: charged_def)
qed

section \<open>A charge without faults\<close>

text \<open>The columns of the row fit their types, as they do in a database.\<close>

definition row_fits :: "payment_row \<Rightarrow> bool" where
  "row_fits row \<longleftrightarrow>
     pr_amount row < 10 ^ 12 \<and> text_fits (Some 3) (pr_currency row) \<and> text_fits None (pr_description row) \<and>
     text_fits (Some 255) (pr_key row) \<and> text_fits None (pr_webhook_url row)"

lemma write_completed:
  assumes "mapper_to_domain row = Inr p" and "row_fits row"
  shows "mapper_apply env (pr_id row) (Some (pr_extra row))
      (p\<lparr>p_status := outcome_status ok, p_processed_at := Some t\<rparr>) = Inr (completed ok t row)"
proof -
  obtain m st where p: "p = payment_reconstitute (pr_id row) m (pr_description row) (pr_extra row) st (pr_key row)
       (pr_webhook_url row) (pr_created_at row) (pr_processed_at row)"
    and m: "m_amount m = numeric_read (pr_amount row)" "0 < pr_amount row"
      "currency_value (m_currency m) = pr_currency row"
    using assms(1) by (rule mapper_to_domain_Inr)
  have "numeric_store (m_amount m) = Inr (pr_amount row)"
    using m assms(2) by (simp add: numeric_store_def numeric_read_def row_fits_def)
  moreover have "text_fits (Some 16) (status_value (outcome_status ok))"
    by (cases ok) (simp_all add: text_fits_def outcome_status_def)
  ultimately show ?thesis
    using assms(2) m
    by (simp add: p mapper_apply_def payment_reconstitute_def jsonb_store_def row_fits_def completed_def)
qed

lemma model_fits:
  assumes "mapper_to_model env p = Inr row"
  shows "row_fits row"
proof -
  have negated: "- x < 1000000000000" if "0 \<le> x" for x :: int using that by simp
  have "numeric_store d = Inr cents \<Longrightarrow> cents < 10 ^ 12" for d cents
    by (auto simp: numeric_store_def Let_def intro!: negated pos_imp_zdiv_nonneg_iff [THEN iffD2]
        split: decimal.splits if_splits)
  with assms show ?thesis
    by (auto simp: mapper_to_model_def mapper_apply_def bind_exn_Inr_iff row_fits_def split: if_splits)
qed

lemma charge_load_calm:
  assumes "calm env" and "find_payment (w_db w) i = Some row" and "mapper_to_domain row = Inr p"
  shows "charge_load env i w = (Inr p, w\<lparr>w_session := None, w_tick := w_tick w + 3\<rparr>)"
  using assms(2,3)
  by (cases w) (simp add: charge_load_def payments_get_def payment_id_new_def optional_payment_def run_defs
      calmD [OF assms(1)] cong: run_cong)

lemma complete_run:
  assumes env: "calm env"
    and row: "filter (\<lambda>r. pr_id r = p_id p) (t_payments (w_db w)) = [row]"
      "find_payment (w_db w) (p_id p) = Some row" "mapper_to_domain row = Inr q" "\<not> is_terminal q"
    and id: "p_id q = p_id p" "pr_id row = p_id p"
    and q': "q' = q\<lparr>p_status := outcome_status (is_successful r), p_processed_at := Some (e_now env (w_tick w + 2))\<rparr>"
    and written: "mapper_apply env (p_id p) (Some (pr_extra row)) q' = Inr row'"
    and key: "\<not> (\<exists>r\<in>set (t_payments (w_db w)). pr_key r = pr_key row' \<and> pr_id r \<noteq> pr_id row')"
  shows "charge_complete env p r w =
    (Inr q', w\<lparr>w_db := (w_db w)\<lparr>t_payments := update_rows (\<lambda>r. pr_id r = pr_id row') (\<lambda>_. row') (t_payments (w_db w))\<rparr>,
       w_session := None, w_tick := w_tick w + 8\<rparr>)"
  using row written key unfolding q'
  by (cases w) (simp add: charge_complete_def payments_get_for_update_def scalar_one_or_none_def
      complete_current_def id complete_result payments_save_def update_payment_def eval_nat_numeral
      optional_payment_def run_defs calmD [OF env] cong: run_cong)

lemma charge_complete_calm:
  assumes env: "calm env" and inv: "payments.unique (w_db w)" "distinct (map pr_key (t_payments (w_db w)))"
    and row: "find_payment (w_db w) (p_id p) = Some row" "mapper_to_domain row = Inr q"
    and pending: "\<not> is_terminal q" and fits: "row_fits row"
  shows "charge_complete env p r w =
    (let t = e_now env (w_tick w + 2); ok = is_successful r
     in (Inr (q\<lparr>p_status := outcome_status ok, p_processed_at := Some t\<rparr>),
         w\<lparr>w_db := (w_db w)\<lparr>t_payments :=
              update_rows (\<lambda>r. pr_id r = p_id p) (completed ok t) (t_payments (w_db w))\<rparr>,
           w_session := None, w_tick := w_tick w + 8\<rparr>))"
proof -
  let ?t = "e_now env (w_tick w + 2)" and ?ok = "is_successful r" and ?ps = "t_payments (w_db w)"
  have inset: "row \<in> set ?ps" and id: "pr_id row = p_id p" using row(1) payments.lookup_key by blast+
  have u: "distinct (map pr_id ?ps)" using inv(1) by (simp add: payments.unique_def)
  have one: "filter (\<lambda>r. pr_id r = p_id p) ?ps = [row]"
    using filter_eq_key_distinct [OF u inset] id by simp
  have only: "r' = row" if "r' \<in> set ?ps" "pr_id r' = p_id p" for r'
    using payments.lookup_in [OF inv(1) that(1)] that(2) row(1) by simp
  have "\<not> (\<exists>r\<in>set ?ps. pr_key r = pr_key (completed ?ok ?t row) \<and> pr_id r \<noteq> pr_id (completed ?ok ?t row))"
    using inv(2) inset by (auto simp: completed_def distinct_map dest: inj_onD)
  from complete_run [OF env one row pending _ id refl write_completed [OF row(2) fits, unfolded id] this]
  have "charge_complete env p r w =
    (Inr (q\<lparr>p_status := outcome_status ?ok, p_processed_at := Some ?t\<rparr>),
     w\<lparr>w_db := (w_db w)\<lparr>t_payments := update_rows (\<lambda>r. pr_id r = p_id p) (\<lambda>_. completed ?ok ?t row) ?ps\<rparr>,
       w_session := None, w_tick := w_tick w + 8\<rparr>)"
    using domain_id [OF row(2)] id by (simp add: completed_def)
  moreover have "update_rows (\<lambda>r. pr_id r = p_id p) (\<lambda>_. completed ?ok ?t row) ?ps =
      update_rows (\<lambda>r. pr_id r = p_id p) (completed ?ok ?t) ?ps"
    using only by (auto simp: update_rows_def)
  ultimately show ?thesis by (simp add: Let_def)
qed

text \<open>What a first charge of \<open>p\<close>, started at tick \<open>n\<close>, makes of the tables.\<close>

definition settled_payment :: "env \<Rightarrow> payment \<Rightarrow> nat \<Rightarrow> payment" where
  "settled_payment env p n =
     p\<lparr>p_status := outcome_status (e_random env (n + 8) < default_success_rate),
       p_processed_at := Some (e_now env (n + 16))\<rparr>"

definition settled_tables :: "env \<Rightarrow> uuid \<Rightarrow> nat \<Rightarrow> tables \<Rightarrow> tables" where
  "settled_tables env i n v =
     (let ok = e_random env (n + 8) < default_success_rate
      in v\<lparr>t_charges := t_charges v @
             [\<lparr>ch_payment_id = i, ch_succeeded = ok, ch_created_at = e_now env (n + 9)\<rparr>],
           t_payments := update_rows (\<lambda>r. pr_id r = i) (completed ok (e_now env (n + 16))) (t_payments v)\<rparr>)"

lemma charge_execute_calm:
  assumes env: "calm env" and inv: "payments.unique (w_db w)" "distinct (map pr_key (t_payments (w_db w)))"
    and row: "find_payment (w_db w) i = Some row" "mapper_to_domain row = Inr p"
    and pending: "\<not> is_terminal p" and fits: "row_fits row" and first: "find_charge (w_db w) i = None"
  shows "charge_execute env (sql_gateway_charge env) i w =
    (Inr (settled_payment env p (w_tick w)),
     w\<lparr>w_db := settled_tables env i (w_tick w) (w_db w), w_session := None, w_tick := w_tick w + 22\<rparr>)"
proof -
  let ?w1 = "w\<lparr>w_session := None, w_tick := w_tick w + 3\<rparr>"
  let ?c = "drawn_charge env p (w_tick w + 3)"
  let ?w2 = "w\<lparr>w_db := (w_db w)\<lparr>t_charges := t_charges (w_db w) @ [?c]\<rparr>, w_session := None,
      w_tick := w_tick w + 14\<rparr>"
  have id: "p_id p = i" using domain_id [OF row(2)] payments.lookup_key [OF row(1)] by simp
  have "sql_gateway_charge env p ?w1 = (Inr (GatewayResult (ch_succeeded ?c)), ?w2)"
    using first id by (subst sql_charge_calm [OF env]) (simp_all add: add.assoc)
  moreover have "charge_complete env p (GatewayResult (ch_succeeded ?c)) ?w2 =
      (Inr (settled_payment env p (w_tick w)),
       w\<lparr>w_db := settled_tables env i (w_tick w) (w_db w), w_session := None, w_tick := w_tick w + 22\<rparr>)"
    using inv row fits pending id
    by (subst charge_complete_calm [OF env, where row = row and q = p])
      (simp_all add: Let_def settled_payment_def settled_tables_def drawn_charge_def payments.unique_def add.commute)
  ultimately show ?thesis
    using pending
    by (simp add: charge_execute_def andthen_def charge_load_calm [OF env row] charge_and_complete_def)
qed

section \<open>An example\<close>

text \<open>The payment created in the example of \<open>CreatePayment\<close>, charged.\<close>

definition charged_payment :: payment where
  "charged_payment = sample_payment\<lparr>p_status := SUCCEEDED, p_processed_at := Some 0\<rparr>"

definition charged_world :: world where
  "charged_world = sample_world\<lparr>w_db := settled_tables quiet_env 1 8 sample_tables, w_tick := 30\<rparr>"

lemma sample_found: "find_payment (w_db sample_world) 1 = Some sample_row"
  by (simp add: sample_world_def sample_tables_def find_payment_def sample_row_def)

lemma sample_uncharged: "find_charge (w_db sample_world) i = None"
  by (simp add: sample_world_def sample_tables_def empty_tables_def find_charge_def)

lemma sample_pending: "p_status sample_payment = PENDING" "p_id sample_payment = 1"
  by (simp_all add: sample_payment_def planned_payment_def payment_create_def quiet_env_def empty_world_def)

lemma sample_fits: "row_fits sample_row"
  by code_simp

lemma sample_unique: "payments.unique (w_db sample_world)" "distinct (map pr_key (t_payments (w_db sample_world)))"
  using sample_good(1) by (simp_all add: good_def tables_inv_def)

lemma sample_charge:
  "charge_execute quiet_env (sql_gateway_charge quiet_env) 1 sample_world = (Inr charged_payment, charged_world)"
  using charge_execute_calm [OF quiet_calm sample_unique sample_found sample_domain _ sample_fits sample_uncharged]
    sample_pending
  by (simp add: is_terminal_def settled_payment_def charged_payment_def charged_world_def sample_world_def
      outcome_status_def quiet_env_def default_success_rate_def empty_world_def)

lemma charged_good: "good charged_world" "step sample_world charged_world"
  using hoareD(1,2) [OF holds_charge_execute [OF quiet_rely holds_sql_charge [OF quiet_rely]] sample_good(1) TrueI
      sample_charge]
  by blast+

lemma charged_stored: "stored charged_payment charged_world"
  using hoareD(3) [OF holds_charge_execute [OF quiet_rely holds_sql_charge [OF quiet_rely]] sample_good(1) TrueI
      sample_charge] by simp

lemma charged_row:
  obtains row where "find_payment (w_db charged_world) 1 = Some row" "mapper_to_domain row = Inr charged_payment"
  using charged_stored by (auto simp: stored_def charged_payment_def sample_pending)

lemma charged_again:
  "charge_execute quiet_env g 1 charged_world = (Inr charged_payment, charged_world\<lparr>w_tick := 33\<rparr>)"
proof -
  obtain row where row: "find_payment (w_db charged_world) 1 = Some row" "mapper_to_domain row = Inr charged_payment"
    by (rule charged_row)
  have "charged_world\<lparr>w_session := None, w_tick := w_tick charged_world + 3\<rparr> = charged_world\<lparr>w_tick := 33\<rparr>"
    by (simp add: charged_world_def sample_world_def empty_world_def)
  moreover have "is_terminal charged_payment" by (simp add: charged_payment_def is_terminal_def)
  ultimately show ?thesis
    by (simp add: charge_execute_def andthen_def charge_load_calm [OF quiet_calm row] ret_def)
qed

section \<open>Properties\<close>

text \<open>C16: What charging a payment returns is the payment, terminal, exactly as it is stored, with the
  outcome of the one charge on record for it, whatever faults the database has and whatever the other
  processes do in between.\<close>

theorem charge_settles_as_recorded:
  assumes "rely env" and "good w" and "charge_execute env (sql_gateway_charge env) i w = (Inr p, w')"
  shows "p_id p = i \<and> is_terminal p \<and> stored p w' \<and>
    (\<exists>ok. charged w' i = Some (GatewayResult ok) \<and> p_status p = outcome_status ok)"
proof -
  note ran = hoareD [OF holds_charge_execute [OF assms(1) holds_sql_charge [OF assms(1)]] assms(2) TrueI assms(3)]
  have p: "p_id p = i" "is_terminal p" "stored p w'" using ran(3) by simp_all
  obtain ok where "charged w' (p_id p) = Some (GatewayResult ok)" "p_status p = outcome_status ok"
    using terminal_agrees [OF ran(1) p(3,2)] by blast
  with p show ?thesis by simp
qed

theorem charge_settles_as_recorded_witness:
  "charged charged_world 1 = Some (GatewayResult True)"
  using charge_settles_as_recorded [OF quiet_rely sample_good(1) sample_charge]
  by (auto simp: charged_payment_def outcome_status_def split: if_splits)

text \<open>C17: A payment has one final outcome: two processes that both charge it, or one that does so twice,
  return the same payment in every field, the time of processing included.\<close>

theorem charge_outcome_is_final:
  assumes "rely env" and "rely env'" and "good w" and "good w2" and "step w1 w2"
    and "charge_execute env (sql_gateway_charge env) i w = (Inr p, w1)"
    and "charge_execute env' (sql_gateway_charge env') i w2 = (Inr q, w3)"
  shows "q = p"
proof -
  note first = hoareD [OF holds_charge_execute [OF assms(1) holds_sql_charge [OF assms(1)]] assms(3) TrueI assms(6)]
  note second = hoareD [OF holds_charge_execute [OF assms(2) holds_sql_charge [OF assms(2)]] assms(4) TrueI assms(7)]
  have "step w1 w3" using assms(5) second(2) by (rule logic.step_trans)
  then have "stored p w3" using first(3) stored_step by blast
  then show ?thesis using first(3) second(3) by (auto simp: stored_def)
qed

theorem charge_outcome_is_final_witness:
  "\<exists>w. charge_execute quiet_env (sql_gateway_charge quiet_env) 1 charged_world = (Inr charged_payment, w)"
proof -
  have "step charged_world charged_world" by simp
  from charge_outcome_is_final [OF quiet_rely quiet_rely sample_good(1) charged_good(1) this sample_charge charged_again]
    charged_again
  show ?thesis by auto
qed

text \<open>The gateway decides a payment's charge once: whatever two processes draw, if both charges
  return they return the same result, the one on record.\<close>

lemma gateway_decides_once:
  assumes "rely env" and "rely env'" and "good w" and "good w2" and "step w1 w2" and "p_id q = p_id p"
    and "sql_gateway_charge env p w = (Inr r, w1)" and "sql_gateway_charge env' q w2 = (Inr r', w3)"
  shows "r' = r \<and> charged w3 (p_id p) = Some r"
proof -
  note first = hoareD [OF holds_sql_charge [OF assms(1)] assms(3) TrueI assms(7)]
  note second = hoareD [OF holds_sql_charge [OF assms(2)] assms(4) TrueI assms(8)]
  have "step w1 w3" using assms(5) second(2) by (rule logic.step_trans)
  then show ?thesis using charged_step [OF _ first(3)] second(3) assms(6) by fastforce
qed

lemma gateway_decides_once_witness:
  "charged (snd (sql_gateway_charge quiet_env sample_payment (snd (sql_gateway_charge quiet_env sample_payment sample_world)))) 1
     = Some (GatewayResult True)"
proof -
  obtain w1 where first: "sql_gateway_charge quiet_env sample_payment sample_world = (Inr (GatewayResult True), w1)"
    using sql_charge_calm [OF quiet_calm sample_uncharged, of sample_payment]
    by (simp add: drawn_charge_def quiet_env_def default_success_rate_def)
  note ran = hoareD [OF holds_sql_charge [OF quiet_rely] sample_good(1) TrueI first]
  obtain w3 where second: "sql_gateway_charge quiet_env sample_payment w1 = (Inr (GatewayResult True), w3)"
    using sql_charge_again [OF quiet_calm ran(3) [OF refl]] by simp
  have "step w1 w1" by simp
  from gateway_decides_once [OF quiet_rely quiet_rely sample_good(1) ran(1) this refl first second]
  show ?thesis by (simp add: first second sample_pending)
qed

text \<open>Without faults, charging a pending payment for the first time draws the outcome at the success
  rate, records it, and completes the row with the time of the completion; nothing else changes.\<close>

lemma first_charge_effect:
  assumes "calm env" and "good w" and "find_payment (w_db w) i = Some row"
    and "mapper_to_domain row = Inr p" and "p_status p = PENDING" and "row_fits row"
    and "find_charge (w_db w) i = None"
  shows "charge_execute env (sql_gateway_charge env) i w =
    (let ok = e_random env (w_tick w + 8) < 9 / 10; t = e_now env (w_tick w + 16);
         c = \<lparr>ch_payment_id = i, ch_succeeded = ok, ch_created_at = e_now env (w_tick w + 9)\<rparr>
     in (Inr (p\<lparr>p_status := if ok then SUCCEEDED else FAILED, p_processed_at := Some t\<rparr>),
         w\<lparr>w_db := (w_db w)\<lparr>t_charges := t_charges (w_db w) @ [c],
              t_payments := update_rows (\<lambda>r. pr_id r = i) (completed ok t) (t_payments (w_db w))\<rparr>,
           w_session := None, w_tick := w_tick w + 22\<rparr>))"
proof -
  have "payments.unique (w_db w)" "distinct (map pr_key (t_payments (w_db w)))"
    using assms(2) by (simp_all add: good_def tables_inv_def)
  moreover have "\<not> is_terminal p" using assms(5) by (simp add: is_terminal_def)
  ultimately show ?thesis
    using charge_execute_calm [OF assms(1) _ _ assms(3,4) _ assms(6,7)]
    by (simp add: settled_payment_def settled_tables_def outcome_status_def default_success_rate_def Let_def)
qed

lemma first_charge_effect_witness:
  "fst (charge_execute quiet_env (sql_gateway_charge quiet_env) 1 sample_world) = Inr charged_payment"
  using first_charge_effect [OF quiet_calm sample_good(1) sample_found sample_domain sample_pending(1) sample_fits
      sample_uncharged]
  by (simp add: Let_def quiet_env_def charged_payment_def)

end
