(* ===== verification/Frame.thy ===== *)
theory Frame
  imports Gateway Webhooks
begin

text \<open>
  What a program leaves alone. The locale is about a part of the world that neither the database nor the
  broker is part of; it collects the programs that do not touch it, and is interpreted on the log of
  webhook calls, on the settled deliveries and on the metrics.
\<close>

locale frame =
  fixes view :: "world \<Rightarrow> 'v"
  assumes view_tick: "view (w\<lparr>w_tick := n\<rparr>) = view w"
    and view_db: "view (w\<lparr>w_db := d\<rparr>) = view w"
    and view_session: "view (w\<lparr>w_session := s\<rparr>) = view w"
    and view_sent: "view (w\<lparr>w_sent := ms\<rparr>) = view w"
begin

definition keeps :: "'a action \<Rightarrow> bool" where
  "keeps m \<longleftrightarrow> (\<forall>w r w'. m w = (r, w') \<longrightarrow> view w' = view w)"

lemmas view_simps [simp] = view_tick view_db view_session view_sent

lemma keepsI: "(\<And>w r w'. m w = (r, w') \<Longrightarrow> view w' = view w) \<Longrightarrow> keeps m"
  by (simp add: keeps_def)

lemma keepsD: "keeps m \<Longrightarrow> m w = (r, w') \<Longrightarrow> view w' = view w"
  by (simp add: keeps_def)

lemma keeps_andthen: "keeps m \<Longrightarrow> (\<And>x. keeps (f x)) \<Longrightarrow> keeps (andthen m f)"
  by (fastforce simp: keeps_def andthen_def split: prod.splits sum.splits)

lemma keeps_attempt: "keeps m \<Longrightarrow> (\<And>e. keeps (h e)) \<Longrightarrow> (\<And>x. keeps (k x)) \<Longrightarrow> keeps (attempt m h k)"
  by (fastforce simp: keeps_def attempt_def split: prod.splits sum.splits if_splits)

lemma keeps_finally: "keeps m \<Longrightarrow> keeps f \<Longrightarrow> keeps (finally_do m f)"
  by (fastforce simp: keeps_def finally_do_def split: prod.splits sum.splits)

lemma keeps_basic [simp]:
  "keeps (ret x)" "keeps (raise e)" "keeps (lift_exn y)" "keeps (observe f)"
  "keeps (modifies apply_transaction)" "keeps (modifies abandon_changes)"
  "keeps (modifies close_session)" "keeps (modifies (append_sent m))" "keeps require_session"
  "keeps (run_sql q)" "keeps (flush_rows env)" "keeps (session_add r)"
  by (rule keepsI; auto simp: prog_defs observe_def apply_transaction_def abandon_changes_def
      close_session_def append_sent_def require_session_def run_sql_def flush_rows_def session_add_def
      split: option.splits sum.splits prod.splits if_splits)+

lemma keeps_ops [simp]:
  "keeps (may_fail f)" "keeps (clock_now env)" "keeps (uuid4 env)" "keeps (random_random env)"
  "keeps (perf_counter env)" "keeps (statement env)" "keeps (query env g)" "keeps (update env u)"
  "keeps (flush env)" "keeps (commit_transaction env)"
  by (auto simp: may_fail_def clock_now_def uuid4_def random_random_def perf_counter_def statement_def
      query_def update_def flush_def commit_transaction_def intro!: keeps_andthen split: option.split)

lemma keeps_uow [simp]:
  "keeps (uow_commit env)" "keeps (uow_rollback env)" "keeps (uow_exit env b)"
  by (auto simp: uow_commit_def uow_rollback_def uow_exit_def intro!: keeps_andthen)

lemma view_open [simp]: "view (open_session env w) = view w"
  by (cases "e_others env (w_tick w) (w_db w, w_sent w)") (simp add: open_session_def)

lemma keeps_with_session:
  assumes "keeps body" and "\<And>b. keeps (leave b)"
  shows "keeps (with_session env leave body)"
proof (rule keepsI)
  fix w r w'
  assume run: "with_session env leave body w = (r, w')"
  obtain r1 w1 where b: "body (open_session env w) = (r1, w1)" by fastforce
  obtain r2 w2 where l: "leave (isl r1) w1 = (r2, w2)" by fastforce
  have "view w' = view w2"
    using run b l by (auto simp: with_session_def close_session_def split: sum.splits)
  then show "view w' = view w"
    using keepsD [OF assms(1) b] keepsD [OF assms(2) l] by simp
qed

lemma keeps_in_uow: "keeps body \<Longrightarrow> keeps (in_uow env body)"
  unfolding in_uow_def by (rule keeps_with_session) simp_all

lemma keeps_in_session: "keeps body \<Longrightarrow> keeps (in_session env body)"
  unfolding in_session_def by (rule keeps_with_session) simp_all

lemma keeps_begin_block: "keeps body \<Longrightarrow> keeps (begin_block env body)"
  for body :: "'a action"
proof (rule keepsI)
  fix w and r :: "exn + 'a" and w'
  assume body: "keeps body" and run: "begin_block env body w = (r, w')"
  obtain r1 w1 where b: "body w = (r1, w1)" by fastforce
  have commit: "keeps (andthen (commit_transaction env) (\<lambda>_. ret x))" for x :: 'a
    by (intro keeps_andthen) simp_all
  have undo: "keeps (andthen (andthen (statement env) (\<lambda>_. modifies abandon_changes)) (\<lambda>_. raise e :: 'a action))"
    for e by (intro keeps_andthen) simp_all
  have "view w' = view w1"
    using run b keepsD [OF commit] keepsD [OF undo] by (auto simp: begin_block_def split: sum.splits)
  with keepsD [OF body b] show "view w' = view w" by simp
qed

lemma keeps_publish [simp]: "keeps (publisher_publish env k b h x)"
  unfolding publisher_publish_def Let_def
  by (auto intro!: keeps_andthen split: option.split prod.split)

lemma keeps_repositories [simp]:
  "keeps (payments_get env i)" "keeps (payments_get_for_update env i)" "keeps (payments_get_by_key env k)"
  "keeps (inbox_has_message env i)" "keeps (inbox_add env i t)" "keeps (outbox_add env ty pl t)"
  "keeps (payments_save env p)" "keeps (payments_add env p)"
  by (auto simp: payments_get_def payments_get_for_update_def payments_get_by_key_def inbox_has_message_def
      inbox_add_def outbox_add_def payments_save_def payments_add_def
      intro!: keeps_andthen keeps_attempt split: option.split)

lemma keeps_gateway [simp]: "keeps (sql_gateway_charge env p)"
proof -
  have "keeps (sql_cache_get env i)" for i
    unfolding sql_cache_get_def
    by (intro keeps_in_session keeps_andthen) (auto split: option.split)
  moreover have "keeps (sql_cache_put_if_absent env i r)" for i r
    unfolding sql_cache_put_if_absent_def
    by (intro keeps_in_session keeps_andthen keeps_begin_block)
      (auto intro!: keeps_andthen split: option.split)
  moreover have "keeps (delay_wait env d)" "keeps (outcome_is_successful env q)" for d q
    by (auto simp: delay_wait_def asyncio_sleep_def outcome_is_successful_def intro!: keeps_andthen)
  ultimately show ?thesis
    unfolding sql_gateway_charge_def gateway_charge_def
    by (auto intro!: keeps_andthen split: option.split)
qed

end

text \<open>Some parts are not touched by a webhook call either.\<close>

locale frame_posts = frame +
  assumes view_posts: "view (w\<lparr>w_posts := ps\<rparr>) = view w"
begin

lemma keeps_deliver [simp]: "keeps (deliver_webhook env p)"
  by (rule keepsI) (auto simp: deliver_webhook_run view_posts split: sum.splits)

end

interpretation posts: frame w_posts
  by unfold_locales simp_all

interpretation settled: frame_posts w_settled
  by unfold_locales simp_all

interpretation metrics: frame_posts w_metrics
  by unfold_locales simp_all

end
