(* ===== verification/Process.thy ===== *)
theory Process
  imports Charge Frame
begin

text \<open>
  \<open>src/application/payments/inbox.py\<close> and \<open>src/application/use_cases/process_payment.py\<close>: one message is
  processed by charging the payment, calling the webhook and remembering the message. The lemmas show
  what a processed message leaves behind, and that a remembered one has no effect.
\<close>

section \<open>ProcessedMessageInbox\<close>

definition has_seen :: "env \<Rightarrow> uuid \<Rightarrow> bool action" where
  "has_seen env message_id = in_uow env (inbox_has_message env message_id)"

definition remember :: "env \<Rightarrow> uuid \<Rightarrow> unit action" where
  "remember env message_id =
     in_uow env
       (andthen (clock_now env) (\<lambda>now.
        andthen (inbox_add env message_id now) (\<lambda>_. uow_commit env)))"

section \<open>ProcessPayment\<close>

definition process_payment ::
    "env \<Rightarrow> (payment \<Rightarrow> gateway_result action) \<Rightarrow> uuid \<Rightarrow> uuid option \<Rightarrow> unit action" where
  "process_payment env gateway payment_id message_id =
     andthen (case message_id of None \<Rightarrow> ret False | Some m \<Rightarrow> has_seen env m) (\<lambda>seen.
       if seen then ret ()
       else
         andthen (charge_execute env gateway payment_id) (\<lambda>p.
         andthen (deliver_webhook env p) (\<lambda>_.
           case message_id of None \<Rightarrow> ret () | Some m \<Rightarrow> remember env m)))"

section \<open>What they leave alone\<close>

context frame
begin

lemma keeps_charge:
  assumes "\<And>p. keeps (gateway p)"
  shows "keeps (charge_execute env gateway i)"
proof -
  have "keeps (charge_load env i)"
    unfolding charge_load_def
    by (intro keeps_in_uow keeps_andthen) (auto split: option.split)
  moreover have "keeps (complete_current env r p)" for r p
    unfolding complete_current_def by (auto intro!: keeps_andthen)
  then have "keeps (charge_complete env p r)" for p r
    unfolding charge_complete_def by (intro keeps_in_uow keeps_andthen) (auto split: option.split)
  ultimately show ?thesis
    unfolding charge_execute_def charge_and_complete_def
    by (auto intro!: keeps_andthen assms)
qed

lemma keeps_has_seen [simp]: "keeps (has_seen env m)"
  unfolding has_seen_def by (intro keeps_in_uow) simp

lemma keeps_remember [simp]: "keeps (remember env m)"
  unfolding remember_def by (intro keeps_in_uow keeps_andthen) simp_all

end

context frame_posts
begin

lemma keeps_process:
  assumes "\<And>p. keeps (gateway p)"
  shows "keeps (process_payment env gateway i message_id)"
  unfolding process_payment_def
  by (auto intro!: keeps_andthen keeps_charge assms split: option.split)

end

section \<open>What is remembered\<close>

definition remembered :: "uuid \<Rightarrow> world \<Rightarrow> bool" where
  "remembered m w \<longleftrightarrow> find_inbox (w_db w) m \<noteq> None"

lemma remembered_step: "step w w' \<Longrightarrow> remembered m w \<Longrightarrow> remembered m w'"
  by (auto simp: remembered_def step_def shared_def persists_def inbox_persists_def)

lemma holds_has_seen:
  assumes "rely env"
  shows "holds (\<lambda>_. True) (has_seen env m) (\<lambda>b w. b = remembered m w)"
  unfolding has_seen_def inbox_has_message_def
proof (rule holds_in_uow [OF assms])
  show "holds (\<lambda>w. True \<and> fresh_session w) (query env (\<lambda>v. Inr (find_inbox v m \<noteq> None)))
      (\<lambda>b w. b = remembered m w)"
    by (rule holds_query) (auto simp: fresh_session_def sees_def remembered_def)
qed (auto simp: remembered_def)

lemma holds_remember:
  assumes "rely env"
  shows "holds (\<lambda>_. True) (remember env m) (\<lambda>_. remembered m)"
  unfolding remember_def
proof (rule holds_in_uow [OF assms])
  let ?R = "\<lambda>v. find_inbox v m \<noteq> None"
  have add: "holds (\<lambda>_. True) (inbox_add env m t) (\<lambda>_. seen ?R)" for t
    unfolding inbox_add_def update_def
  proof (rule logic.hoare_bind [OF safe_statement], rule holds_run_sql)
    fix w s r v'
    assume w: "good w" "w_session w = Some s" and "(Inr (), insert_inbox m t (s_view s)) = (r, v')"
    then have v': "v' = insert_inbox m t (s_view s)" by simp
    have "tables_inv (s_view s) (w_sent w)" using good_view [OF w] by (simp add: session_good_def)
    then have "allowed (w_sent w) (s_view s) v'" unfolding v' by (rule allowed_insert_inbox)
    moreover have "?R v'"
      using inbox.lookup_append [of "s_view s" "\<lparr>ib_message_id = m, ib_processed_at = t\<rparr>" m]
      by (auto simp: v' insert_inbox_def)
    ultimately show "allowed (w_sent w) (s_view s) v' \<and>
        (\<forall>x. r = Inr x \<longrightarrow> seen ?R (w\<lparr>w_session := Some (s\<lparr>s_view := v'\<rparr>)\<rparr>))"
      by (auto simp: seen_def sees_def)
  qed
  have commit: "holds (seen ?R) (uow_commit env) (\<lambda>_ w. ?R (w_db w))"
    by (rule holds_uow_commit) simp
  have "holds (\<lambda>_. True) (andthen (clock_now env) (\<lambda>now. andthen (inbox_add env m now) (\<lambda>_. uow_commit env)))
      (\<lambda>_ w. ?R (w_db w))"
    by (intro logic.hoare_bind [OF safe_observations(1)] logic.hoare_andthen [OF add commit])
  then show "holds (\<lambda>w. True \<and> fresh_session w)
      (andthen (clock_now env) (\<lambda>now. andthen (inbox_add env m now) (\<lambda>_. uow_commit env))) (\<lambda>_. remembered m)"
    by (rule hoare_weaken) (simp_all add: remembered_def)
qed (simp_all add: remembered_def)

lemma safe_deliver_webhook: "holds P (deliver_webhook env p) (\<lambda>_ _. True)"
  by (rule hoareI) (auto simp: deliver_webhook_run step_cong split: sum.splits)

lemma deliver_Inr:
  assumes "deliver_webhook env p w = (Inr u, w')"
  shows "w' = w\<lparr>w_posts := w_posts w @ [payment_post p], w_tick := w_tick w + 1\<rparr>"
    "\<exists>s. e_post env (w_tick w) = Responded s \<and> 200 \<le> s \<and> s < 300"
  using assms
  by (auto simp: deliver_webhook_run raise_for_status_def split: sum.splits post_outcome.splits if_splits)

lemma safe_process:
  assumes env: "rely env"
    and gateway: "\<And>p. holds (\<lambda>_. True) (gateway p) (\<lambda>r w. charged w (p_id p) = Some r)"
  shows "safe (process_payment env gateway i message_id)"
proof -
  have "safe (has_seen env m)" "safe (remember env m)" for m
    using holds_has_seen [OF env] holds_remember [OF env] by (blast intro: logic.hoare_weak)+
  moreover have "safe (charge_execute env gateway i)"
    using holds_charge_execute [OF env gateway] by (rule logic.hoare_weak)
  ultimately show ?thesis
    unfolding process_payment_def
    by (auto intro!: safe_andthen safe_deliver_webhook split: option.split)
qed

text \<open>What the check sees, and that it only looks: the database as the other processes have left it.\<close>

definition on_record_before :: "env \<Rightarrow> uuid \<Rightarrow> world \<Rightarrow> bool" where
  "on_record_before env m w \<longleftrightarrow> find_inbox (fst (e_others env (w_tick w) (w_db w, w_sent w))) m \<noteq> None"

lemma has_seen_looks:
  assumes "has_seen env m w = (r, w1)"
  shows "(w_db w1, w_sent w1) = e_others env (w_tick w) (w_db w, w_sent w)"
    and "r = Inr b \<Longrightarrow> b = on_record_before env m w"
proof -
  obtain r1 v where b: "query env (\<lambda>v. Inr (find_inbox v m \<noteq> None)) (open_session env w) = (r1, v)" by fastforce
  obtain r2 v' where l: "uow_exit env (isl r1) v = (r2, v')" by fastforce
  obtain d out where opened: "e_others env (w_tick w) (w_db w, w_sent w) = (d, out)" by fastforce
  have "w_db v = d" "w_sent v = out" and found: "isl r1 \<or> r1 = Inr (find_inbox d m \<noteq> None)"
    using b opened by (auto simp: open_session_def query_def andthen_def run_sql_def statement_def may_fail_def
        observe_def ret_def raise_def split: option.splits sum.splits prod.splits)
  moreover have "w_db v' = w_db v" "w_sent v' = w_sent v" using exit_world [OF l] by simp_all
  moreover have w1: "w1 = close_session v'" "r = (case r2 of Inl e \<Rightarrow> Inl e | Inr _ \<Rightarrow> r1)"
    using assms b l
    by (auto simp: has_seen_def inbox_has_message_def in_uow_def with_session_def split: sum.splits)
  ultimately show "(w_db w1, w_sent w1) = e_others env (w_tick w) (w_db w, w_sent w)"
    by (simp add: close_session_def opened)
  show "r = Inr b \<Longrightarrow> b = on_record_before env m w"
    using w1(2) found by (auto simp: on_record_before_def opened split: sum.splits)
qed

lemma process_Inr:
  assumes "rely env" and "good w"
    and "process_payment env (sql_gateway_charge env) i message_id w = (Inr u, w')"
  shows "(\<exists>m. message_id = Some m \<and> on_record_before env m w \<and> w_posts w' = w_posts w \<and>
       (w_db w', w_sent w') = e_others env (w_tick w) (w_db w, w_sent w)) \<or>
    (\<exists>p n s. p_id p = i \<and> is_terminal p \<and> stored p w' \<and> w_posts w' = w_posts w @ [payment_post p] \<and>
       e_post env n = Responded s \<and> s div 100 = 2 \<and>
       (\<forall>m. message_id = Some m \<longrightarrow> \<not> on_record_before env m w \<and> remembered m w'))"
proof -
  let ?check = "case message_id of None \<Rightarrow> ret False | Some m \<Rightarrow> has_seen env m"
  let ?note = "case message_id of None \<Rightarrow> ret () | Some m \<Rightarrow> remember env m"
  obtain b w1 where check: "?check w = (Inr b, w1)" and
    rest: "(if b then ret () else andthen (charge_execute env (sql_gateway_charge env) i) (\<lambda>p.
      andthen (deliver_webhook env p) (\<lambda>_. ?note))) w1 = (Inr u, w')"
    using assms(3) unfolding process_payment_def by (rule andthen_Inr_cases)
  have posts1: "w_posts w1 = w_posts w"
    using check posts.keepsD [OF posts.keeps_has_seen] by (auto simp: ret_def split: option.splits)
  have "holds (\<lambda>_. True) ?check (\<lambda>_ _. True)"
    using holds_has_seen [OF assms(1)] by (cases message_id) (auto simp: hoare_def ret_def)
  note checked = hoareD [OF this assms(2) TrueI check]
  show ?thesis
  proof (cases b)
    case True
    then obtain m where "message_id = Some m" "has_seen env m w = (Inr True, w1)"
      using check by (cases message_id) (auto simp: ret_def)
    moreover from this have "on_record_before env m w" using has_seen_looks(2) by blast
    moreover have "w' = w1" using True rest by (simp add: ret_def)
    ultimately show ?thesis using has_seen_looks(1) posts1 by blast
  next
    case False
    then have "andthen (charge_execute env (sql_gateway_charge env) i) (\<lambda>p.
        andthen (deliver_webhook env p) (\<lambda>_. ?note)) w1 = (Inr u, w')" using rest by simp
    then obtain p w2 x w3 where charge: "charge_execute env (sql_gateway_charge env) i w1 = (Inr p, w2)"
      and post: "deliver_webhook env p w2 = (Inr x, w3)" and "note": "?note w3 = (Inr u, w')"
      by (elim andthen_Inr_cases)
    note charged = hoareD [OF holds_charge_execute [OF assms(1) holds_sql_charge [OF assms(1)]] checked(1) TrueI charge]
    note posted = hoareD [OF safe_deliver_webhook charged(1) TrueI post]
    have "holds (\<lambda>_. True) ?note (\<lambda>_ w. \<forall>m. message_id = Some m \<longrightarrow> remembered m w)"
      using holds_remember [OF assms(1)] by (cases message_id) (auto simp: hoare_def ret_def)
    note noted = hoareD [OF this posted(1) TrueI "note"]
    have "stored p w'"
      using charged(3) stored_step logic.step_trans [OF posted(2) noted(2)] by blast
    moreover have "w_posts w' = w_posts w @ [payment_post p]"
      using posts1 posts.keepsD [OF posts.keeps_charge [OF posts.keeps_gateway] charge] deliver_Inr(1) [OF post]
        "note" posts.keepsD [OF posts.keeps_remember]
      by (auto simp: ret_def split: option.splits)
    moreover obtain s where "e_post env (w_tick w2) = Responded s" "200 \<le> s" "s < 300"
      using deliver_Inr(2) [OF post] by blast
    moreover from this have "s div 100 = 2" by linarith
    moreover have "\<not> on_record_before env m w" if "message_id = Some m" for m
      using has_seen_looks(2) [of env m w "Inr False" w1 False] check False that by simp
    ultimately show ?thesis using charged(3) noted(3) by blast
  qed
qed

section \<open>Without faults\<close>

lemma has_seen_calm:
  "calm env \<Longrightarrow> has_seen env m w = (Inr (remembered m w), w\<lparr>w_session := None, w_tick := w_tick w + 3\<rparr>)"
  by (cases w) (simp add: has_seen_def inbox_has_message_def remembered_def run_defs calmD cong: run_cong)

lemma remember_calm:
  "calm env \<Longrightarrow> remember env m w =
     (Inr (), w\<lparr>w_db := insert_inbox m (e_now env (w_tick w + 1)) (w_db w), w_session := None,
       w_tick := w_tick w + 6\<rparr>)"
  by (cases w) (simp add: remember_def inbox_add_def run_defs calmD eval_nat_numeral cong: run_cong)

text \<open>What a call of the webhook comes to.\<close>

definition post_result :: "post_outcome \<Rightarrow> exn + unit" where
  "post_result outcome =
     (case outcome of
        Timed_out \<Rightarrow> Inl map_timeout
      | Transport_failed \<Rightarrow> Inl map_transport
      | Post_raised e \<Rightarrow> Inl e
      | Responded status_code \<Rightarrow> raise_for_status status_code)"

lemma process_settled_calm:
  assumes env: "calm env" and p: "stored p w" "is_terminal p" and new: "\<not> remembered m w"
    and url: "webhook_url_new (p_webhook_url p) = Inr u"
  shows "process_payment env g (p_id p) (Some m) w =
    (case post_result (e_post env (w_tick w + 6)) of
       Inl e \<Rightarrow>
         (Inl e, w\<lparr>w_session := None, w_posts := w_posts w @ [payment_post p], w_tick := w_tick w + 7\<rparr>)
     | Inr _ \<Rightarrow>
         (Inr (), w\<lparr>w_db := insert_inbox m (e_now env (w_tick w + 8)) (w_db w), w_session := None,
            w_posts := w_posts w @ [payment_post p], w_tick := w_tick w + 13\<rparr>))"
proof -
  obtain row where row: "find_payment (w_db w) (p_id p) = Some row" "mapper_to_domain row = Inr p"
    using p(1) by (auto simp: stored_def)
  let ?w1 = "w\<lparr>w_session := None, w_tick := w_tick w + 3\<rparr>"
  have "find_payment (w_db ?w1) (p_id p) = Some row" using row(1) by simp
  from charge_load_calm [OF env this row(2)]
  have charged: "charge_execute env g (p_id p) ?w1 = (Inr p, w\<lparr>w_session := None, w_tick := w_tick w + 6\<rparr>)"
    by (simp add: charge_execute_def andthen_def p(2) ret_def)
  show ?thesis
    by (simp add: process_payment_def andthen_def has_seen_calm [OF env] new charged deliver_webhook_run url
        remember_calm [OF env] post_result_def add.commute split: sum.split post_outcome.split)
qed

section \<open>An example\<close>

text \<open>The message about the charged payment of \<open>Charge\<close>, processed.\<close>

definition processed_world :: world where
  "processed_world = charged_world\<lparr>w_db := insert_inbox 5 0 (w_db charged_world),
     w_posts := [payment_post charged_payment], w_tick := 43\<rparr>"

lemma charged_is: "p_id charged_payment = 1" "is_terminal charged_payment"
    "w_session charged_world = None" "w_posts charged_world = []" "w_tick charged_world = 30"
  by (simp_all add: charged_payment_def is_terminal_def sample_pending charged_world_def sample_world_def
      empty_world_def)

lemma charged_idle:
  "charged_world\<lparr>w_db := d, w_session := None, w_posts := ps, w_tick := n\<rparr> =
     charged_world\<lparr>w_db := d, w_posts := ps, w_tick := n\<rparr>"
  "charged_world\<lparr>w_session := None, w_posts := ps, w_tick := n\<rparr> =
     charged_world\<lparr>w_posts := ps, w_tick := n\<rparr>"
  using charged_is(3) by (cases charged_world; simp)+

lemma charged_url: "webhook_url_new (p_webhook_url charged_payment) = Inr (p_webhook_url charged_payment)"
  using sample_valid
  by (simp add: charged_payment_def sample_payment_def planned_payment_def payment_create_def valid_command_def)

lemma charged_not_remembered: "\<not> remembered 5 charged_world"
  by (simp add: remembered_def charged_world_def settled_tables_def sample_tables_def empty_tables_def
      find_inbox_def Let_def)

lemma quiet_post: "post_result (e_post quiet_env n) = Inr ()"
  by (simp add: post_result_def quiet_env_def raise_for_status_def)

lemma sample_process:
  "process_payment quiet_env g 1 (Some 5) charged_world = (Inr (), processed_world)"
proof -
  have now: "e_now quiet_env n = 0" for n by (simp add: quiet_env_def)
  show ?thesis
    using process_settled_calm [OF quiet_calm charged_stored charged_is(2) charged_not_remembered charged_url]
    by (simp add: charged_is quiet_post processed_world_def now charged_idle)
qed

lemma processed_facts: "good processed_world" "remembered 5 processed_world"
proof -
  have "safe (process_payment quiet_env (sql_gateway_charge quiet_env) 1 (Some 5))"
    by (rule safe_process [OF quiet_rely holds_sql_charge [OF quiet_rely]])
  from hoareD(1) [OF this charged_good(1) TrueI sample_process] show "good processed_world" .
  have "find_inbox (w_db charged_world) 5 = None" using charged_not_remembered by (simp add: remembered_def)
  then show "remembered 5 processed_world"
    using inbox.lookup_append [of "w_db charged_world" "\<lparr>ib_message_id = 5, ib_processed_at = 0\<rparr>" 5]
    by (simp add: remembered_def processed_world_def insert_inbox_def)
qed

section \<open>Properties\<close>

text \<open>C19: Processing a message that returns has done all there is to do: either the message was on record
  already when the processing looked, and then it has done nothing at all, or it was not, and the payment is
  terminal and stored, its webhook was called exactly once with that payment and answered with a success, and the
  message is on record.\<close>

theorem processed_means_done:
  assumes "rely env" and "good w"
    and "process_payment env (sql_gateway_charge env) i message_id w = (Inr u, w')"
  shows "(\<exists>m. message_id = Some m \<and> on_record_before env m w \<and> w_posts w' = w_posts w \<and>
       (w_db w', w_sent w') = e_others env (w_tick w) (w_db w, w_sent w)) \<or>
    (\<exists>p n s. p_id p = i \<and> is_terminal p \<and> stored p w' \<and> w_posts w' = w_posts w @ [payment_post p] \<and>
       e_post env n = Responded s \<and> s div 100 = 2 \<and>
       (\<forall>m. message_id = Some m \<longrightarrow> \<not> on_record_before env m w \<and> remembered m w'))"
  using assms by (rule process_Inr)

theorem processed_means_done_witness:
  "\<exists>p. is_terminal p \<and> stored p processed_world \<and> w_posts processed_world = [payment_post p]"
proof -
  have "w_posts processed_world \<noteq> w_posts charged_world" by (simp add: processed_world_def charged_is)
  with processed_means_done [OF quiet_rely charged_good(1) sample_process]
  show ?thesis by (auto simp: charged_is)
qed

text \<open>C21: Processing a message that is on record has no effect of its own: it charges nothing, writes
  nothing, publishes nothing and calls no webhook, whether it returns or fails.\<close>

theorem remembered_message_has_no_effect:
  assumes "rely env" and "good w" and "remembered m w"
    and "process_payment env gateway i (Some m) w = (r, w')"
  shows "w_posts w' = w_posts w \<and> (w_db w', w_sent w') = e_others env (w_tick w) (w_db w, w_sent w)"
proof -
  obtain q w1 where check: "has_seen env m w = (q, w1)" by fastforce
  note checked = hoareD [OF holds_has_seen [OF assms(1)] assms(2) TrueI check]
  have "remembered m w1" using assms(3) checked(2) remembered_step by blast
  then have "q = Inr True \<or> isl q" using checked(3) by (cases q) auto
  then have "w' = w1"
    using assms(4) check by (auto simp: process_payment_def andthen_def ret_def split: sum.splits)
  then show ?thesis using posts.keepsD [OF posts.keeps_has_seen check] has_seen_looks(1) [OF check] by simp
qed

theorem remembered_message_has_no_effect_witness:
  "w_posts (snd (process_payment quiet_env (sql_gateway_charge quiet_env) 1 (Some 5) processed_world)) =
     [payment_post charged_payment]"
proof -
  obtain r w' where run: "process_payment quiet_env (sql_gateway_charge quiet_env) 1 (Some 5) processed_world = (r, w')"
    by fastforce
  have "w_posts processed_world = [payment_post charged_payment]" by (simp add: processed_world_def)
  with remembered_message_has_no_effect [OF quiet_rely processed_facts run]
  show ?thesis by (simp add: run)
qed

text \<open>C20: The notification is delivered at least once: when a settled payment's message comes again (the
  webhook failed before), the same payment is posted again without another charge, the outcome of the call
  is the outcome of the processing, and only a successful call puts the message on record.\<close>

theorem redelivery_posts_again:
  assumes "calm env" and "stored p w" and "is_terminal p" and "\<not> remembered m w"
    and "webhook_url_new (p_webhook_url p) = Inr u"
  shows "process_payment env gateway (p_id p) (Some m) w =
    (case post_result (e_post env (w_tick w + 6)) of
       Inl e \<Rightarrow>
         (Inl e, w\<lparr>w_session := None, w_posts := w_posts w @ [payment_post p], w_tick := w_tick w + 7\<rparr>)
     | Inr _ \<Rightarrow>
         (Inr (), w\<lparr>w_db := insert_inbox m (e_now env (w_tick w + 8)) (w_db w), w_session := None,
            w_posts := w_posts w @ [payment_post p], w_tick := w_tick w + 13\<rparr>))"
  using assms by (rule process_settled_calm)

theorem redelivery_posts_again_witness:
  "process_payment (quiet_env\<lparr>e_post := \<lambda>_. Responded 503\<rparr>) (sql_gateway_charge quiet_env) 1 (Some 5) charged_world =
     (Inl (TransientDependencyError ''webhook failed with 503''),
      charged_world\<lparr>w_posts := [payment_post charged_payment], w_tick := 37\<rparr>)"
proof -
  let ?env = "quiet_env\<lparr>e_post := \<lambda>_. Responded 503\<rparr>"
  have env: "calm ?env" by (simp add: calm_def quiet_env_def)
  have "post_result (Responded 503) = Inl (TransientDependencyError ''webhook failed with 503'')"
    by code_simp
  then show ?thesis
    using redelivery_posts_again [OF env charged_stored charged_is(2) charged_not_remembered charged_url]
    by (simp add: charged_is charged_idle)
qed

end
