(* ===== verification/Amqp.thy ===== *)
theory Amqp
  imports Process Outside Retry
begin

text \<open>
  \<open>src/presentation/amqp\<close> and \<open>src/presentation/log_context.py\<close>: a delivery from the queue of new payments is
  read, processed, and settled; a failed one is handed on to the retry queue or to the dead-letter queue.
  The lemmas show that a delivery is settled exactly once, that nothing is lost on the way, and that a
  message is retried a bounded number of times.
\<close>

section \<open>RequestId and LogContext\<close>

definition request_id_ok :: "string \<Rightarrow> bool" where
  "request_id_ok candidate \<longleftrightarrow>
     1 \<le> length candidate \<and> length candidate \<le> 128 \<and> is_ascii candidate \<and> is_printable_ascii candidate"

definition resolve_request_id :: "env \<Rightarrow> string option \<Rightarrow> string action" where
  "resolve_request_id env raw =
     (case raw of
        None \<Rightarrow> andthen (uuid4 env) (\<lambda>u. ret (uuid_str u))
      | Some text \<Rightarrow>
          (let candidate = strip text
           in if request_id_ok candidate then ret candidate
              else andthen (uuid4 env) (\<lambda>u. ret (uuid_str u))))"

text \<open>The values a log context binds: those that are there.\<close>

definition bound_values :: "(string \<times> string option) list \<Rightarrow> (string \<times> string) list" where
  "bound_values values = List.map_filter (\<lambda>(k, v). map_option (Pair k) v) values"

section \<open>The message\<close>

text \<open>What a consumer may be given as a body; FastStream gives bytes.\<close>

datatype raw_body = Body_bytes string | Body_dict pydict | Body_buffer string | Body_other string

definition encode_message_body :: "pyrt \<Rightarrow> raw_body \<Rightarrow> exn + string" where
  "encode_message_body rt body =
     (case body of
        Body_bytes b \<Rightarrow> Inr b
      | Body_dict d \<Rightarrow>
          (case json_dumps rt (PDict d) of
             None \<Rightarrow> Inl (TypeError ''Object of type bytes is not JSON serializable'')
           | Some text \<Rightarrow> Inr text)
      | Body_buffer b \<Rightarrow> Inr b
      | Body_other ty \<Rightarrow> Inl (TypeError (''unsupported message body: '' @ ty)))"

record inbound =
  in_body :: raw_body
  in_headers :: "pydict option"

definition headers_of :: "pydict option \<Rightarrow> pydict" where
  "headers_of headers = (case headers of None \<Rightarrow> [] | Some h \<Rightarrow> h)"

text \<open>\<open>message.ack()\<close> and \<open>message.reject(requeue=...)\<close>: one that raises may have reached the broker all the same.\<close>

definition settle :: "env \<Rightarrow> settlement \<Rightarrow> unit action" where
  "settle env s =
     (let note_settled = modifies (\<lambda>w. w\<lparr>w_settled := w_settled w @ [s]\<rparr>)
      in andthen (observe (e_ack env)) (\<lambda>outcome.
           case outcome of
             None \<Rightarrow> note_settled
           | Some (reached, e) \<Rightarrow> andthen (if reached then note_settled else ret ()) (\<lambda>_. raise e)))"

section \<open>InboundPaymentMessage\<close>

definition RETRY_COUNT_HEADER :: string where "RETRY_COUNT_HEADER = ''x-retry-count''"
definition REQUEST_ID_HEADER :: string where "REQUEST_ID_HEADER = ''x-request-id''"

definition parse_payment_id :: "pyrt \<Rightarrow> pydict \<Rightarrow> exn + uuid" where
  "parse_payment_id rt body =
     (case extract_payment_id rt body of
        None \<Rightarrow> Inl (PermanentProcessingError ''message missing payment_id'')
      | Some raw \<Rightarrow>
          (case parse_uuid raw of
             None \<Rightarrow> Inl (PermanentProcessingError ''invalid payment_id'')
           | Some i \<Rightarrow> Inr i))"

definition parse_outbox_id :: "pyrt \<Rightarrow> pydict \<Rightarrow> pydict option \<Rightarrow> uuid option" where
  "parse_outbox_id rt body headers = extract_outbox_id rt body headers"

definition parse_retry_count :: "pydict option \<Rightarrow> exn + int" where
  "parse_retry_count headers =
     (case map_of (headers_of headers) RETRY_COUNT_HEADER of
        None \<Rightarrow> Inr 0
      | Some raw \<Rightarrow>
          (case py_int raw of
             Inl (TypeError m) \<Rightarrow> Inr 0
           | Inl (ValueError m) \<Rightarrow> Inr 0
           | r \<Rightarrow> r))"

definition parse_request_id :: "env \<Rightarrow> pydict option \<Rightarrow> string action" where
  "parse_request_id env headers =
     (let h = headers_of headers;
          raw = (if dict_get h REQUEST_ID_HEADER = PNone then dict_get h ''X-Request-ID''
                 else dict_get h REQUEST_ID_HEADER);
          raw' = (case raw of PBytes b \<Rightarrow> PStr (decode_utf8 (e_rt env) b) | _ \<Rightarrow> raw)
      in resolve_request_id env (if raw' = PNone then None else Some (py_str (e_rt env) raw')))"

section \<open>PaymentMessageHandler\<close>

text \<open>\<open>bool(value)\<close>.\<close>

fun truthy :: "pyval \<Rightarrow> bool" where
  "truthy PNone = False"
| "truthy (PBool b) = b"
| "truthy (PInt i) = (i \<noteq> 0)"
| "truthy (PFloat f) = (f \<noteq> Finite 0)"
| "truthy (PStr s) = (s \<noteq> [])"
| "truthy (PBytes s) = (s \<noteq> [])"
| "truthy (PList xs) = (xs \<noteq> [])"
| "truthy (PDict d) = (d \<noteq> [])"

text \<open>The context of the log lines written while \<open>body\<close> is handled; nothing else reads it.\<close>

definition handler_context :: "pyrt \<Rightarrow> string \<Rightarrow> pydict \<Rightarrow> (string \<times> string) list" where
  "handler_context rt request_id body =
     bound_values
       [(''request_id'', Some request_id),
        (''payment_id'', if truthy (dict_get body ''payment_id'')
                         then Some (py_str rt (dict_get body ''payment_id'')) else None)]"

definition handle_message ::
    "env \<Rightarrow> (payment \<Rightarrow> gateway_result action) \<Rightarrow> pydict \<Rightarrow> pydict option \<Rightarrow> unit action" where
  "handle_message env gateway body headers =
     andthen (parse_request_id env headers) (\<lambda>request_id.
     andthen (lift_exn (parse_payment_id (e_rt env) body)) (\<lambda>parsed_id.
       process_payment env gateway parsed_id (parse_outbox_id (e_rt env) body headers)))"

section \<open>FailureRouter\<close>

definition retry_headers :: "pydict option \<Rightarrow> int \<Rightarrow> pydict" where
  "retry_headers headers retry_count =
     dict_set (headers_of headers) RETRY_COUNT_HEADER (PInt (retry_count + 1))"

definition schedule_retry ::
    "env \<Rightarrow> retry_policy \<Rightarrow> string \<Rightarrow> pydict option \<Rightarrow> int \<Rightarrow> unit action" where
  "schedule_retry env policy body headers retry_count =
     andthen (if d_jitter (rp_delay policy) then random_random env else ret 0) (\<lambda>u.
     andthen (lift_exn (compute_delay_seconds policy u retry_count)) (\<lambda>delay.
       publisher_publish env RETRY_ROUTING_KEY body (Some (retry_headers headers retry_count)) (Some delay)))"

definition to_dlq :: "env \<Rightarrow> string \<Rightarrow> pydict option \<Rightarrow> unit action" where
  "to_dlq env body headers = publisher_publish env DLQ_ROUTING_KEY body headers None"

definition route_message ::
    "env \<Rightarrow> retry_policy \<Rightarrow> string \<Rightarrow> pydict option \<Rightarrow> int \<Rightarrow> exn \<Rightarrow> unit action" where
  "route_message env policy body headers retry_count error =
     (case decide_action policy retry_count error of
        DLQ \<Rightarrow> to_dlq env body headers
      | RETRY \<Rightarrow> schedule_retry env policy body headers retry_count)"

section \<open>PaymentMessageDispatcher\<close>

definition route_failure ::
    "env \<Rightarrow> retry_policy \<Rightarrow> string \<Rightarrow> inbound \<Rightarrow> exn \<Rightarrow> unit action" where
  "route_failure env policy raw_body message error =
     attempt
       (andthen (lift_exn (parse_retry_count (in_headers message))) (\<lambda>retry_count.
          route_message env policy raw_body (in_headers message) retry_count error))
       (\<lambda>_. settle env (Reject False))
       (\<lambda>_. settle env Ack)"

definition dispatch ::
    "env \<Rightarrow> retry_policy \<Rightarrow> (payment \<Rightarrow> gateway_result action) \<Rightarrow> pydict \<Rightarrow> inbound \<Rightarrow> unit action" where
  "dispatch env policy gateway body message =
     andthen (lift_exn (encode_message_body (e_rt env) (in_body message))) (\<lambda>raw_body.
       attempt (handle_message env gateway body (in_headers message))
         (\<lambda>exc. route_failure env policy raw_body message exc)
         (\<lambda>_. settle env Ack))"

section \<open>PaymentQueueSubscriber\<close>

record subscription =
  sb_queue :: queue_def
  sb_exchange :: exchange_def
  sb_no_ack :: bool
  sb_prefetch_count :: int
  sb_retry :: bool
  sb_handler :: "pydict \<Rightarrow> inbound \<Rightarrow> unit action"

text \<open>With \<open>no_ack=True\<close> FastStream leaves the settlement to the handler.\<close>

definition register_subscriber ::
    "(pydict \<Rightarrow> inbound \<Rightarrow> unit action) \<Rightarrow> queue_def \<Rightarrow> exchange_def \<Rightarrow> subscription" where
  "register_subscriber dispatcher queue exchange =
     \<lparr>sb_queue = queue, sb_exchange = exchange, sb_no_ack = True, sb_prefetch_count = 1, sb_retry = False,
      sb_handler = dispatcher\<rparr>"

section \<open>Request ids\<close>

lemma uuid_request_id: "request_id_ok (uuid_str u)"
proof -
  have "c \<in> insert (CHR ''-'') hex_digits \<Longrightarrow> 32 \<le> code c \<and> code c \<le> 126" for c
    by (auto simp: hex_digits_def)
  then have "is_printable_ascii (uuid_str u)"
    using set_uuid_str [of u] by (auto simp: is_printable_ascii_def list_all_iff)
  then show ?thesis by (simp add: request_id_ok_def is_ascii_uuid_str)
qed

lemma resolve_run:
  "\<exists>s n. resolve_request_id env raw w = (Inr s, w\<lparr>w_tick := n\<rparr>) \<and> request_id_ok s \<and>
     (\<forall>text. raw = Some text \<longrightarrow> request_id_ok (strip text) \<longrightarrow> s = strip text)"
proof (cases raw)
  case None
  then show ?thesis
    by (auto simp: resolve_request_id_def uuid4_def run_defs uuid_request_id)
next
  case (Some t)
  show ?thesis
  proof (cases "request_id_ok (strip t)")
    case True
    then show ?thesis
      by (auto simp: Some resolve_request_id_def Let_def ret_def intro!: exI [of _ "w_tick w"])
  next
    case False
    then show ?thesis
      by (auto simp: Some resolve_request_id_def Let_def uuid4_def run_defs uuid_request_id)
  qed
qed

lemma parse_request_id_run: "\<exists>s n. parse_request_id env headers w = (Inr s, w\<lparr>w_tick := n\<rparr>)"
  unfolding parse_request_id_def Let_def using resolve_run by blast

section \<open>The settlement\<close>

lemma settle_run:
  "settle env s w =
     (case e_ack env (w_tick w) of
        None \<Rightarrow> (Inr (), w\<lparr>w_tick := w_tick w + 1, w_settled := w_settled w @ [s]\<rparr>)
      | Some (reached, e) \<Rightarrow>
          (Inl e, w\<lparr>w_tick := w_tick w + 1, w_settled := if reached then w_settled w @ [s] else w_settled w\<rparr>))"
  by (auto simp: settle_def run_defs Let_def split: option.split)

lemma sound_settle: "sound (settle env s)"
  by (rule hoareI) (auto simp: settle_run idle_def step_cong split: option.splits)

context frame
begin

lemma keeps_resolve [simp]: "keeps (resolve_request_id env raw)"
  by (auto simp: resolve_request_id_def Let_def intro!: keeps_andthen split: option.split)

lemma keeps_parse_request_id [simp]: "keeps (parse_request_id env headers)"
  by (simp add: parse_request_id_def Let_def)

lemma keeps_route [simp]: "keeps (route_message env policy body headers rc error)"
  unfolding route_message_def schedule_retry_def to_dlq_def
  by (auto intro!: keeps_andthen split: dispatch_action.split)

end

context frame_posts
begin

lemma keeps_handle: "(\<And>p. keeps (gateway p)) \<Longrightarrow> keeps (handle_message env gateway body headers)"
  unfolding handle_message_def by (intro keeps_andthen keeps_process) simp_all

end

lemma attempt_cases:
  assumes "attempt m h k s = (r, s')"
  obtains x s1 where "m s = (Inr x, s1)" "k x s1 = (r, s')"
    | e s1 where "m s = (Inl e, s1)" "is_exception e" "h e s1 = (r, s')"
    | e where "m s = (Inl e, s')" "\<not> is_exception e" "r = Inl e"
  using assms by (auto simp: attempt_def split: prod.splits sum.splits if_splits)

lemma settle_once:
  "settle env s w = (r, w') \<Longrightarrow>
   w_settled w' = w_settled w @ [s] \<or> isl r \<and> w_settled w' = w_settled w"
  by (auto simp: settle_run split: option.splits)

text \<open>What has become of a delivery: settled once, or not at all by a call that has failed.\<close>

definition settled_once :: "world \<Rightarrow> (exn + 'a) \<times> world \<Rightarrow> bool" where
  "settled_once w result \<longleftrightarrow>
     (case result of (r, w') \<Rightarrow>
        w_settled w' = w_settled w @ [Ack] \<or> w_settled w' = w_settled w @ [Reject False] \<or>
        isl r \<and> w_settled w' = w_settled w)"

lemma settled_once_after:
  "w_settled w1 = w_settled w \<Longrightarrow> settled_once w1 result \<Longrightarrow> settled_once w result"
  by (simp add: settled_once_def split: prod.splits)

lemma settle_settles: "s = Ack \<or> s = Reject False \<Longrightarrow> settled_once w (settle env s w)"
  using settle_once [of env s w] by (auto simp: settled_once_def split: prod.split)

lemma attempt_settles:
  assumes "settled.keeps m" and "\<And>e w. settled_once w (h e w)" and "\<And>x w. settled_once w (k x w)"
  shows "settled_once w (attempt m h k w)"
proof -
  obtain r w' where run: "attempt m h k w = (r, w')" by fastforce
  from run show ?thesis
  proof (cases rule: attempt_cases)
    case (1 x s1)
    then show ?thesis using settled_once_after [OF settled.keepsD [OF assms(1) 1(1)]] assms(3) [of s1 x] run by simp
  next
    case (2 e s1)
    then show ?thesis using settled_once_after [OF settled.keepsD [OF assms(1) 2(1)]] assms(2) [of s1 e] run by simp
  next
    case (3 e)
    then show ?thesis using settled.keepsD [OF assms(1) 3(1)] run by (simp add: settled_once_def)
  qed
qed

lemma route_failure_once: "settled_once w (route_failure env policy raw message error w)"
  unfolding route_failure_def
  by (intro attempt_settles settled.keeps_andthen settle_settles) simp_all

section \<open>The guarantee\<close>

lemma closes_gateway: "closes (sql_gateway_charge env p)"
proof -
  have "closes (delay_wait env d)" "closes (outcome_is_successful env q)" for d q
    by (auto simp: delay_wait_def asyncio_sleep_def outcome_is_successful_def intro!: closes_andthen)
  moreover have "closes (sql_cache_get env i)" "closes (sql_cache_put_if_absent env i r)" for i r
    by (auto simp: sql_cache_get_def sql_cache_put_if_absent_def intro!: closes_andthen)
  ultimately show ?thesis
    unfolding sql_gateway_charge_def gateway_charge_def by (auto intro!: closes_andthen split: option.split)
qed

lemma closes_process:
  assumes "\<And>p. closes (gateway p)"
  shows "closes (process_payment env gateway i message_id)"
proof -
  have "closes (deliver_webhook env p)" for p
    by (auto simp: closes_def deliver_webhook_run split: sum.splits)
  moreover have "closes (charge_execute env gateway i)" for i
    unfolding charge_execute_def charge_load_def charge_and_complete_def charge_complete_def
    by (auto intro!: closes_andthen assms)
  ultimately show ?thesis
    unfolding process_payment_def has_seen_def remember_def
    by (auto intro!: closes_andthen split: option.split)
qed

lemma sound_process: "rely env \<Longrightarrow> sound (process_payment env (sql_gateway_charge env) i message_id)"
  by (rule sound_holds [OF safe_process [OF _ holds_sql_charge] closes_process [OF closes_gateway]])

lemma sound_parse_request_id [simp]: "sound (parse_request_id env headers)"
  by (auto simp: parse_request_id_def resolve_request_id_def Let_def intro!: sound_andthen split: option.split)

lemma sound_handle: "rely env \<Longrightarrow> sound (handle_message env (sql_gateway_charge env) body headers)"
  unfolding handle_message_def by (intro sound_andthen sound_process) simp_all

lemma sound_route: "sound (route_message env policy body headers rc error)"
  unfolding route_message_def schedule_retry_def to_dlq_def
  by (auto intro!: sound_andthen sound_publish split: dispatch_action.split)

lemma sound_route_failure: "sound (route_failure env policy raw message error)"
  unfolding route_failure_def
  by (intro sound_attempt sound_andthen sound_settle sound_route) simp_all

lemma sound_dispatch: "rely env \<Longrightarrow> sound (dispatch env policy (sql_gateway_charge env) body message)"
  unfolding dispatch_def
  by (intro sound_andthen sound_attempt sound_handle sound_route_failure sound_settle) simp_all

section \<open>Where a failed message goes\<close>

text \<open>The message a failure is handed on as.\<close>

definition retry_message :: "string \<Rightarrow> pydict option \<Rightarrow> int \<Rightarrow> int \<Rightarrow> message" where
  "retry_message body headers retry_count delay =
     publisher_message (x_name PAYMENTS_EXCHANGE) RETRY_ROUTING_KEY body
       (Some (retry_headers headers retry_count)) (Some delay)"

definition dlq_message :: "string \<Rightarrow> pydict option \<Rightarrow> message" where
  "dlq_message body headers = publisher_message (x_name PAYMENTS_EXCHANGE) DLQ_ROUTING_KEY body headers None"

lemma route_Inr:
  assumes "route_message env policy body headers rc error w = (Inr u, w')"
  shows "(\<exists>d. retry_message body headers rc d \<in> set (w_sent w')) \<or> dlq_message body headers \<in> set (w_sent w')"
  using assms publish_Inr [of env]
  by (auto simp: route_message_def schedule_retry_def to_dlq_def retry_message_def dlq_message_def
      append_sent_def elim!: andthen_Inr_cases split: dispatch_action.splits dest!: publish_Inr)

lemma route_default_calm:
  assumes "calm env"
  shows "route_message env default_policy body headers rc e w =
    (Inr (), append_sent
       (if is_retryable e \<and> rc \<le> 1 then retry_message body headers rc (if rc \<le> 0 then 1 else 2)
        else dlq_message body headers) (w\<lparr>w_tick := w_tick w + 1\<rparr>))"
proof (cases "decide_action default_policy rc e")
  case RETRY
  then have r: "is_retryable e \<and> rc \<le> 1" by (simp add: decide_action_default)
  have j: "d_jitter (rp_delay default_policy) = False" by (simp add: default_policy_def)
  show ?thesis
    using retry_delay_default [OF RETRY, of 0] r
    by (auto simp: route_message_def RETRY schedule_retry_def j publisher_publish_def retry_message_def run_defs
        calmD [OF assms] Let_def)
next
  case DLQ
  then have "\<not> (is_retryable e \<and> rc \<le> 1)"
    using decide_action_default [of rc e] by auto
  then show ?thesis
    by (auto simp: route_message_def DLQ to_dlq_def publisher_publish_def dlq_message_def run_defs
        calmD [OF assms] Let_def)
qed

lemma parse_retry_headers: "parse_retry_count (Some (retry_headers headers rc)) = Inr (rc + 1)"
  by (simp add: parse_retry_count_def retry_headers_def headers_of_def map_of_dict_set)

text \<open>A delivery that fails, and the one the broker makes of the message scheduled then.\<close>

inductive retried :: "pydict option \<Rightarrow> pydict option \<Rightarrow> bool" where
  retried: "parse_retry_count headers = Inr rc \<Longrightarrow> decide_action default_policy rc error = RETRY \<Longrightarrow>
    retried headers (Some (retry_headers headers rc))"

inductive_cases retried_cases: "retried headers headers'"

lemma retried_bound:
  assumes "(retried ^^ n) headers headers'" and "parse_retry_count headers = Inr rc"
  shows "int n \<le> max 0 (2 - rc)"
  using assms
proof (induction n arbitrary: headers rc)
  case (Suc n)
  from relpowp_Suc_D2 [OF Suc.prems(1)]
  obtain h where h: "retried headers h" "(retried ^^ n) h headers'" by blast
  from h(1) obtain error where "decide_action default_policy rc error = RETRY"
    and next_h: "h = Some (retry_headers headers rc)"
    using Suc.prems(2) by (auto elim!: retried_cases)
  then have "rc \<le> 1" by (simp add: decide_action_default)
  moreover have "int n \<le> max 0 (2 - (rc + 1))"
    using Suc.IH [OF h(2)] parse_retry_headers by (simp add: next_h)
  ultimately show ?case by simp
qed simp

section \<open>What an acknowledged delivery leaves\<close>

definition handed_on :: "string \<Rightarrow> pydict option \<Rightarrow> world \<Rightarrow> bool" where
  "handed_on raw headers w \<longleftrightarrow>
     (\<exists>rc. parse_retry_count headers = Inr rc \<and>
        ((\<exists>d. retry_message raw headers rc d \<in> set (w_sent w)) \<or> dlq_message raw headers \<in> set (w_sent w)))"

text \<open>
  A message was processed in a run from \<open>w\<close> to \<open>w'\<close>: other processes had put it on record before, and the run has
  done nothing; or its payment is settled, and the run has posted it.
\<close>

definition was_processed :: "env \<Rightarrow> world \<Rightarrow> uuid \<Rightarrow> uuid option \<Rightarrow> world \<Rightarrow> bool" where
  "was_processed env w i message_id w' \<longleftrightarrow>
     (\<exists>m n. message_id = Some m \<and> find_inbox (w_db w') m \<noteq> None \<and>
        (w_db w', w_sent w') = e_others env n (w_db w, w_sent w) \<and> w_posts w' = w_posts w) \<or>
     (\<exists>p. p_id p = i \<and> is_terminal p \<and> stored p w' \<and> w_posts w' = w_posts w @ [payment_post p])"

lemma settle_same:
  "settle env s w = (r, w') \<Longrightarrow> w_db w' = w_db w \<and> w_sent w' = w_sent w \<and> w_posts w' = w_posts w"
  by (auto simp: settle_run split: option.splits)

lemma handled:
  assumes env: "rely env" and w: "idle w"
    and run: "handle_message env (sql_gateway_charge env) body headers w = (Inr u, w')"
  shows "\<exists>i. parse_payment_id (e_rt env) body = Inr i \<and> was_processed env w i (parse_outbox_id (e_rt env) body headers) w'"
proof -
  obtain s n where id: "parse_request_id env headers w = (Inr s, w\<lparr>w_tick := n\<rparr>)" using parse_request_id_run by blast
  obtain i where i: "parse_payment_id (e_rt env) body = Inr i"
    and processed: "process_payment env (sql_gateway_charge env) i (parse_outbox_id (e_rt env) body headers) (w\<lparr>w_tick := n\<rparr>) = (Inr u, w')"
    using run by (auto simp: handle_message_def andthen_def id lift_exn_def split: sum.splits)
  have "good (w\<lparr>w_tick := n\<rparr>)" using w by (simp add: idle_def)
  from process_Inr [OF env this processed]
  have "was_processed env w i (parse_outbox_id (e_rt env) body headers) w'"
  proof (elim disjE exE conjE)
    fix m
    assume m: "parse_outbox_id (e_rt env) body headers = Some m" "on_record_before env m (w\<lparr>w_tick := n\<rparr>)"
      "w_posts w' = w_posts (w\<lparr>w_tick := n\<rparr>)"
      "(w_db w', w_sent w') = e_others env (w_tick (w\<lparr>w_tick := n\<rparr>)) (w_db (w\<lparr>w_tick := n\<rparr>), w_sent (w\<lparr>w_tick := n\<rparr>))"
    then have "find_inbox (w_db w') m \<noteq> None" by (simp add: on_record_before_def) (metis fst_conv)
    with m show ?thesis by (auto simp: was_processed_def)
  qed (auto simp: was_processed_def)
  with i show ?thesis by blast
qed

lemma route_failure_Inr:
  assumes "route_failure env policy raw message error w = (Inr u, w')"
  shows "w_settled w' = w_settled w @ [Reject False] \<or>
    w_settled w' = w_settled w @ [Ack] \<and> handed_on raw (in_headers message) w'"
proof -
  have "settled.keeps (andthen (lift_exn (parse_retry_count (in_headers message))) (\<lambda>retry_count.
      route_message env policy raw (in_headers message) retry_count error))"
    by (intro settled.keeps_andthen) simp_all
  note kept = settled.keepsD [OF this]
  from assms show ?thesis
    unfolding route_failure_def
  proof (cases rule: attempt_cases)
    case (1 x s1)
    then have "handed_on raw (in_headers message) s1"
      using route_Inr by (fastforce simp: handed_on_def lift_exn_def elim!: andthen_Inr_cases)
    then show ?thesis
      using kept [OF 1(1)] settle_once [OF 1(2)] settle_same [OF 1(2)] by (auto simp: handed_on_def)
  next
    case (2 e s1)
    then show ?thesis using kept [OF 2(1)] settle_once [OF 2(3)] by auto
  qed simp
qed

section \<open>An example\<close>

text \<open>The message about the charged payment of \<open>Charge\<close>.\<close>

definition sample_body :: pydict where
  "sample_body = event_body 5 PAYMENT_CREATED (payment_created_payload 1)"

definition sample_inbound :: inbound where
  "sample_inbound = \<lparr>in_body = Body_bytes ''event'', in_headers = Some (event_headers 5 PAYMENT_CREATED)\<rparr>"

lemma sample_ids:
  "parse_payment_id rt sample_body = Inr 1" "parse_outbox_id rt sample_body h = Some 5"
  by (simp_all add: parse_payment_id_def parse_outbox_id_def sample_body_def extract_payment_id_event
      payment_created_payload_def dict_get_def parse_uuid_str)

lemma sample_dispatch:
  "\<exists>w'. dispatch quiet_env policy gateway sample_body sample_inbound charged_world = (Inr (), w') \<and>
     w_settled w' = w_settled charged_world @ [Ack]"
proof -
  obtain rid n where rid: "parse_request_id quiet_env (in_headers sample_inbound) charged_world =
      (Inr rid, charged_world\<lparr>w_tick := n\<rparr>)"
    using parse_request_id_run by blast
  let ?w = "charged_world\<lparr>w_tick := n\<rparr>"
  have st: "stored charged_payment ?w" "\<not> remembered 5 ?w"
    using charged_stored charged_not_remembered by (simp_all add: stored_def remembered_def)
  obtain w1 where run: "process_payment quiet_env gateway 1 (Some 5) ?w = (Inr (), w1)"
    and kept: "w_settled w1 = w_settled charged_world"
    using process_settled_calm [OF quiet_calm st(1) charged_is(2) st(2) charged_url]
    by (simp add: charged_is quiet_post)
  have "handle_message quiet_env gateway sample_body (in_headers sample_inbound) charged_world = (Inr (), w1)"
    by (simp add: handle_message_def andthen_def rid lift_exn_def sample_ids run)
  then show ?thesis
    by (simp add: dispatch_def andthen_def lift_exn_def encode_message_body_def sample_inbound_def attempt_def
        settle_run calmD [OF quiet_calm] kept)
qed

section \<open>Properties\<close>

text \<open>C26: A delivery is settled at most once, and exactly once by a dispatch that returns, whatever fails: it is then
  acknowledged or rejected without requeueing. A dispatch that raises, for instance when the
  settlement itself fails or it is cancelled, has settled the delivery once or not at all; what is not settled the
  broker delivers again.\<close>

theorem settled_exactly_once:
  "case dispatch env policy (sql_gateway_charge env) body message w of
     (Inr u, w') \<Rightarrow> w_settled w' \<in> {w_settled w @ [Ack], w_settled w @ [Reject False]}
   | (Inl e, w') \<Rightarrow> w_settled w' \<in> {w_settled w, w_settled w @ [Ack], w_settled w @ [Reject False]}"
proof -
  have "settled_once w (attempt (handle_message env (sql_gateway_charge env) body (in_headers message))
      (\<lambda>exc. route_failure env policy raw message exc) (\<lambda>_. settle env Ack) w)" for raw w
    by (intro attempt_settles settled.keeps_handle settled.keeps_gateway route_failure_once settle_settles) simp
  then have "settled_once w (dispatch env policy (sql_gateway_charge env) body message w)"
    by (cases "encode_message_body (e_rt env) (in_body message)")
      (simp_all add: dispatch_def andthen_def lift_exn_def, simp add: settled_once_def)
  then show ?thesis by (auto simp: settled_once_def split: prod.split sum.split)
qed



text \<open>C28: Where a failed message goes: a transient or unknown error sends it to the retry queue with the next
  attempt's number, for one second after the first attempt and two after the second; a third failure, and
  any error of the domain or the application, sends it to the dead-letter queue as it came.\<close>

theorem failure_routing:
  assumes "calm env"
  shows "route_message env default_policy body headers rc e w =
    (Inr (), w\<lparr>w_tick := w_tick w + 1, w_sent := w_sent w @
       [if ((\<exists>m. e = TransientDependencyError m) \<or> \<not> is_application_error e \<and> \<not> is_domain_error e) \<and> rc \<le> 1
        then publisher_message ''payments'' ''payments.new.retry'' body
               (Some (dict_set (headers_of headers) ''x-retry-count'' (PInt (rc + 1))))
               (Some (if rc \<le> 0 then 1 else 2))
        else publisher_message ''payments'' ''payments.new.dlq'' body headers None]\<rparr>)"
  unfolding route_default_calm [OF assms]
  by (simp add: append_sent_def retry_message_def dlq_message_def retry_headers_def PAYMENTS_EXCHANGE_def
      PAYMENTS_EXCHANGE_NAME_def RETRY_ROUTING_KEY_def DLQ_ROUTING_KEY_def RETRY_COUNT_HEADER_def is_retryable_def)

theorem failure_routing_witness:
  "w_sent (snd (route_message quiet_env default_policy ''m'' None 2 (TransientDependencyError ''webhook timeout'') empty_world)) =
     [publisher_message ''payments'' ''payments.new.dlq'' ''m'' None None]"
  by (simp add: failure_routing [OF quiet_calm] empty_world_def)

text \<open>C29: A message is attempted at most three times: from a delivery whose retry count is \<open>rc\<close>, however
  often it fails and with whatever errors, it is scheduled again at most \<open>2 - rc\<close> times.\<close>

theorem attempts_are_bounded:
  assumes "(retried ^^ n) headers headers'" and "parse_retry_count headers = Inr rc"
  shows "int n \<le> max 0 (2 - rc)"
  using assms by (rule retried_bound)

theorem attempts_are_bounded_witness:
  "\<exists>h. (retried ^^ 2) None h \<and> int 2 \<le> max 0 (2 - 0)"
proof -
  have none: "parse_retry_count None = Inr 0" by (simp add: parse_retry_count_def headers_of_def)
  have retry: "decide_action default_policy rc (TransientDependencyError []) = RETRY" if "rc \<le> 1" for rc
    using that by (simp add: decide_action_default is_retryable_def)
  let ?h1 = "Some (retry_headers None 0)"
  let ?h2 = "Some (retry_headers ?h1 1)"
  have "retried None ?h1" by (rule retried.retried [OF none retry]) simp
  moreover have "retried ?h1 ?h2" by (rule retried.retried [OF _ retry]) (simp_all add: parse_retry_headers)
  ultimately have "(retried ^^ 2) None ?h2" by (auto simp: numeral_2_eq_2)
  from attempts_are_bounded [OF this none] this show ?thesis by blast
qed

text \<open>A message that names no payment is dead-lettered at once: without faults nothing is charged, written
  or posted for it, whatever its retry count.\<close>

lemma malformed_goes_to_dlq:
  assumes "calm env" and "encode_message_body (e_rt env) (in_body message) = Inr raw"
    and "parse_payment_id (e_rt env) body = Inl e" and "parse_retry_count (in_headers message) = Inr rc"
  shows "\<exists>n. dispatch env default_policy gateway body message w =
    (Inr (), w\<lparr>w_tick := n, w_sent := w_sent w @
       [publisher_message ''payments'' ''payments.new.dlq'' raw (in_headers message) None],
       w_settled := w_settled w @ [Ack]\<rparr>)"
proof -
  have e: "\<exists>m. e = PermanentProcessingError m"
    using assms(3) by (auto simp: parse_payment_id_def split: option.splits)
  then have exc: "is_exception e" "\<not> is_retryable e" by (auto simp: is_exception_def is_retryable_def)
  obtain rid n where rid: "parse_request_id env (in_headers message) w = (Inr rid, w\<lparr>w_tick := n\<rparr>)"
    using parse_request_id_run by blast
  have "handle_message env gateway body (in_headers message) w = (Inl e, w\<lparr>w_tick := n\<rparr>)"
    by (simp add: handle_message_def andthen_def rid lift_exn_def assms(3))
  moreover have "route_failure env default_policy raw message e (w\<lparr>w_tick := n\<rparr>) =
      (Inr (), w\<lparr>w_tick := n + 2, w_sent := w_sent w @ [dlq_message raw (in_headers message)],
         w_settled := w_settled w @ [Ack]\<rparr>)"
    by (simp add: route_failure_def attempt_def andthen_def lift_exn_def assms(4) route_default_calm [OF assms(1)]
        exc settle_run calmD [OF assms(1)] append_sent_def)
  ultimately show ?thesis
    using exc
    by (auto simp: dispatch_def andthen_def lift_exn_def assms(2) attempt_def dlq_message_def PAYMENTS_EXCHANGE_def
        PAYMENTS_EXCHANGE_NAME_def DLQ_ROUTING_KEY_def)
qed

lemma malformed_goes_to_dlq_witness:
  "w_sent (snd (dispatch quiet_env default_policy (sql_gateway_charge quiet_env) [] \<lparr>in_body = Body_bytes ''m'', in_headers = None\<rparr> empty_world)) =
     [publisher_message ''payments'' ''payments.new.dlq'' ''m'' None None]"
proof -
  let ?m = "\<lparr>in_body = Body_bytes ''m'', in_headers = None\<rparr>"
  have "encode_message_body (e_rt quiet_env) (in_body ?m) = Inr ''m''" by (simp add: encode_message_body_def)
  moreover have "parse_payment_id (e_rt quiet_env) [] = Inl (PermanentProcessingError ''message missing payment_id'')"
    by (simp add: parse_payment_id_def extract_payment_id_def dict_get_def to_text_def)
  moreover have "parse_retry_count (in_headers ?m) = Inr 0" by (simp add: parse_retry_count_def headers_of_def)
  ultimately obtain n where "dispatch quiet_env default_policy (sql_gateway_charge quiet_env) [] ?m empty_world =
    (Inr (), empty_world\<lparr>w_tick := n, w_sent := w_sent empty_world @
       [publisher_message ''payments'' ''payments.new.dlq'' ''m'' (in_headers ?m) None],
       w_settled := w_settled empty_world @ [Ack]\<rparr>)"
    using malformed_goes_to_dlq [OF quiet_calm, of ?m] by blast
  then show ?thesis by (simp add: empty_world_def)
qed

text \<open>The request id of every log line is safe: whatever a client or a message sends, the id is of 1 to 128
  printable ASCII characters; an id that is so already (up to surrounding blanks) is kept, any other is
  replaced by a fresh UUID.\<close>

lemma request_ids_are_safe:
  "\<exists>s n. resolve_request_id env raw w = (Inr s, w\<lparr>w_tick := n\<rparr>) \<and> request_id_ok s \<and>
     s = (case raw of
            None \<Rightarrow> uuid_str (e_uuid env (w_tick w))
          | Some text \<Rightarrow> if request_id_ok (strip text) then strip text else uuid_str (e_uuid env (w_tick w)))"
proof (cases raw)
  case None
  then show ?thesis by (auto simp: resolve_request_id_def uuid4_def run_defs uuid_request_id)
next
  case (Some t)
  then show ?thesis
    by (cases "request_id_ok (strip t)")
      (auto simp: resolve_request_id_def uuid4_def run_defs uuid_request_id intro: exI [of _ "w_tick w"])
qed

end
