(* ===== verification/Lifecycle.thy ===== *)
theory Lifecycle
  imports Relay Amqp
begin

text \<open>
  \<open>src/infrastructure/resources.py\<close>, \<open>src/runtime.py\<close>, \<open>src/infrastructure/messaging/consumer.py\<close> and the life cycles of
  \<open>src/presentation/api.py\<close>, \<open>publisher.py\<close> and \<open>consumer.py\<close>: what is opened when a process starts and what
  is closed when it ends. The lemmas show that a shutdown attempts every step once, whatever fails.
\<close>

section \<open>Resources\<close>

text \<open>The calls of the libraries, in the order they are made.\<close>

datatype resource_call = Broker_connect | Declare_topology | Client_aclose | Broker_stop | Engine_dispose

record resources =
  rs_owns_broker :: bool
  rs_is_started :: bool
  rs_is_closed :: bool
  rs_calls :: "resource_call list"

type_synonym 'a managed = "(resources, 'a) prog"

text \<open>
  \<open>fault n c\<close> is what the call \<open>c\<close> raises, if it does, as the \<open>n\<close>th of the process; every call is logged.
\<close>

type_synonym faults = "nat \<Rightarrow> resource_call \<Rightarrow> exn option"

definition resource_call :: "faults \<Rightarrow> resource_call \<Rightarrow> unit managed" where
  "resource_call fault c s =
     (case fault (length (rs_calls s)) c of
        None \<Rightarrow> (Inr (), s\<lparr>rs_calls := rs_calls s @ [c]\<rparr>)
      | Some e \<Rightarrow> (Inl e, s\<lparr>rs_calls := rs_calls s @ [c]\<rparr>))"

definition resources_start :: "faults \<Rightarrow> unit managed" where
  "resources_start fault s =
     (if rs_is_started s then (Inr (), s)
      else andthen (modifies (\<lambda>s. s\<lparr>rs_is_closed := False\<rparr>)) (\<lambda>_.
           andthen (resource_call fault Broker_connect) (\<lambda>_.
           andthen (resource_call fault Declare_topology) (\<lambda>_.
             modifies (\<lambda>s. s\<lparr>rs_is_started := True\<rparr>)))) s)"

text \<open>\<open>ResourceCleanup.run\<close>: the exceptions of the steps are collected; a cancellation passes.\<close>

fun cleanup_run :: "unit managed list \<Rightarrow> exn list managed" where
  "cleanup_run [] = ret []"
| "cleanup_run (job # jobs) =
     andthen (attempt job (\<lambda>exc. ret [exc]) (\<lambda>_. ret [])) (\<lambda>errors.
     andthen (cleanup_run jobs) (\<lambda>more. ret (errors @ more)))"

definition shutdown_calls :: "resources \<Rightarrow> resource_call list" where
  "shutdown_calls s = [Client_aclose] @ (if rs_owns_broker s then [Broker_stop] else []) @ [Engine_dispose]"

definition exception_group :: "exn list \<Rightarrow> exn" where
  "exception_group errors = ExceptionGroup ''Failed to gracefully shutdown resources'' errors"

definition resources_close :: "faults \<Rightarrow> unit managed" where
  "resources_close fault s =
     (if rs_is_closed s then (Inr (), s)
      else andthen (modifies (\<lambda>s. s\<lparr>rs_is_closed := True\<rparr>)) (\<lambda>_.
           andthen (cleanup_run (map (resource_call fault) (shutdown_calls s))) (\<lambda>errors.
           andthen (modifies (\<lambda>s. s\<lparr>rs_is_started := False\<rparr>)) (\<lambda>_.
             if errors \<noteq> [] then raise (exception_group errors) else ret ()))) s)"

definition resources_new :: "bool \<Rightarrow> resources" where
  "resources_new owns_broker =
     \<lparr>rs_owns_broker = owns_broker, rs_is_started = False, rs_is_closed = False, rs_calls = []\<rparr>"

section \<open>Runtime and the processes\<close>

definition runtime_start :: "faults \<Rightarrow> unit managed" where "runtime_start fault = resources_start fault"
definition runtime_close :: "faults \<Rightarrow> unit managed" where "runtime_close fault = resources_close fault"

text \<open>\<open>async with runtime\<close> and the \<open>lifespan\<close> of the API: an exception of the close replaces that of the body.\<close>

definition runtime_scope :: "faults \<Rightarrow> 'a managed \<Rightarrow> 'a managed" where
  "runtime_scope fault body =
     andthen (runtime_start fault) (\<lambda>_. finally_do body (runtime_close fault))"

text \<open>The outbox publisher: its resources and its relay's loop.\<close>

type_synonym publisher_process = "resources \<times> worker_loop"

definition on_resources :: "'a managed \<Rightarrow> (publisher_process, 'a) prog" where
  "on_resources m s = (case m (fst s) of (r, x) \<Rightarrow> (r, (x, snd s)))"

definition on_loop :: "(worker_loop, 'a) prog \<Rightarrow> (publisher_process, 'a) prog" where
  "on_loop m s = (case m (snd s) of (r, l) \<Rightarrow> (r, (fst s, l)))"

definition publisher_start :: "faults \<Rightarrow> (publisher_process, unit) prog" where
  "publisher_start fault =
     andthen (on_resources (runtime_start fault)) (\<lambda>_. on_loop (modifies worker_start))"

definition publisher_close :: "faults \<Rightarrow> exn option \<Rightarrow> bool \<Rightarrow> (publisher_process, unit) prog" where
  "publisher_close fault outcome caller_cancelled =
     finally_do (on_loop (worker_stop outcome caller_cancelled)) (on_resources (runtime_close fault))"

definition publisher_lifespan ::
    "faults \<Rightarrow> exn option \<Rightarrow> bool \<Rightarrow> (publisher_process, 'a) prog \<Rightarrow> (publisher_process, 'a) prog" where
  "publisher_lifespan fault outcome caller_cancelled body =
     andthen (publisher_start fault) (\<lambda>_. finally_do body (publisher_close fault outcome caller_cancelled))"

text \<open>\<open>FastStreamAppFactory.create\<close>: the hooks of the application.\<close>

definition faststream_startup :: "faults \<Rightarrow> unit managed option \<Rightarrow> unit managed" where
  "faststream_startup fault on_startup =
     (case on_startup of
        Some hook \<Rightarrow> hook
      | None \<Rightarrow> andthen (resource_call fault Broker_connect) (\<lambda>_. resource_call fault Declare_topology))"

definition faststream_shutdown :: "unit managed option \<Rightarrow> unit managed" where
  "faststream_shutdown after_shutdown = (case after_shutdown of None \<Rightarrow> ret () | Some hook \<Rightarrow> hook)"

text \<open>The consumer: the broker belongs to FastStream, and it subscribes to the queue of new payments.\<close>

definition consumer_resources :: resources where "consumer_resources = resources_new False"

definition consumer_subscription ::
    "env \<Rightarrow> (payment \<Rightarrow> gateway_result action) \<Rightarrow> subscription" where
  "consumer_subscription env gateway =
     register_subscriber (dispatch env default_policy gateway) NEW_QUEUE PAYMENTS_EXCHANGE"

definition consumer_startup :: "faults \<Rightarrow> unit managed" where
  "consumer_startup fault = faststream_startup fault (Some (runtime_start fault))"

definition consumer_shutdown :: "faults \<Rightarrow> unit managed" where
  "consumer_shutdown fault = faststream_shutdown (Some (runtime_close fault))"

section \<open>Facts\<close>

definition no_cancellation :: "faults \<Rightarrow> bool" where
  "no_cancellation fault \<longleftrightarrow> (\<forall>n c. fault n c \<noteq> Some CancelledError)"

text \<open>What the calls raise, made one after the other from the \<open>n\<close>th on.\<close>

fun raised :: "faults \<Rightarrow> nat \<Rightarrow> resource_call list \<Rightarrow> exn list" where
  "raised fault n [] = []"
| "raised fault n (c # cs) = (case fault n c of None \<Rightarrow> [] | Some e \<Rightarrow> [e]) @ raised fault (Suc n) cs"

lemma cleanup_run_all:
  assumes "no_cancellation fault"
  shows "cleanup_run (map (resource_call fault) cs) s =
    (Inr (raised fault (length (rs_calls s)) cs), s\<lparr>rs_calls := rs_calls s @ cs\<rparr>)"
proof (induction cs arbitrary: s)
  case Nil
  then show ?case by (simp add: ret_def)
next
  case (Cons c cs)
  let ?s1 = "s\<lparr>rs_calls := rs_calls s @ [c]\<rparr>"
  note rest = Cons.IH [of ?s1]
  show ?case
  proof (cases "fault (length (rs_calls s)) c")
    case None
    then have "resource_call fault c s = (Inr (), ?s1)" by (simp add: resource_call_def)
    then show ?thesis
      using rest None by (simp add: andthen_def attempt_def ret_def)
  next
    case (Some e)
    then have "resource_call fault c s = (Inl e, ?s1)" by (simp add: resource_call_def)
    moreover from Some have "is_exception e" using assms by (auto simp: no_cancellation_def is_exception_def)
    ultimately show ?thesis
      using rest Some by (simp add: andthen_def attempt_def ret_def)
  qed
qed

lemma close_run:
  assumes "no_cancellation fault" and "\<not> rs_is_closed s"
  shows "resources_close fault s =
    (case raised fault (length (rs_calls s)) (shutdown_calls s) of
       [] \<Rightarrow> Inr ()
     | errors \<Rightarrow> Inl (ExceptionGroup ''Failed to gracefully shutdown resources'' errors),
     s\<lparr>rs_is_closed := True, rs_is_started := False, rs_calls := rs_calls s @ shutdown_calls s\<rparr>)"
  using assms(2) cleanup_run_all [OF assms(1), of "shutdown_calls s" "s\<lparr>rs_is_closed := True\<rparr>"]
  by (cases s)
    (simp add: resources_close_def andthen_def modifies_def raise_def ret_def exception_group_def split: list.split)

lemma close_again: "rs_is_closed s \<Longrightarrow> resources_close fault s = (Inr (), s)"
  by (simp add: resources_close_def)

lemma start_again: "rs_is_started s \<Longrightarrow> resources_start fault s = (Inr (), s)"
  by (simp add: resources_start_def)

lemma start_run:
  assumes "\<not> rs_is_started s"
  shows "resources_start fault s =
    (case fault (length (rs_calls s)) Broker_connect of
       Some e \<Rightarrow> (Inl e, s\<lparr>rs_is_closed := False, rs_calls := rs_calls s @ [Broker_connect]\<rparr>)
     | None \<Rightarrow>
         (case fault (length (rs_calls s) + 1) Declare_topology of
            Some e \<Rightarrow> (Inl e, s\<lparr>rs_is_closed := False, rs_calls := rs_calls s @ [Broker_connect, Declare_topology]\<rparr>)
          | None \<Rightarrow> (Inr (), s\<lparr>rs_is_closed := False, rs_is_started := True,
                               rs_calls := rs_calls s @ [Broker_connect, Declare_topology]\<rparr>)))"
  using assms
  by (cases s) (simp add: resources_start_def andthen_def modifies_def resource_call_def split: option.split)

text \<open>
  The scope of a runtime: whatever the body does, once started the resources are closed, and their
  shutdown steps attempted.
\<close>

lemma scope_closes:
  assumes "no_cancellation fault" and "runtime_start fault s = (Inr (), s1)"
    and "body s1 = (r, s2)" and "\<not> rs_is_closed s2"
  shows "\<exists>q. runtime_scope fault body s =
    (q, s2\<lparr>rs_is_closed := True, rs_is_started := False, rs_calls := rs_calls s2 @ shutdown_calls s2\<rparr>) \<and>
    (q = r \<or> (\<exists>errors. q = Inl (ExceptionGroup ''Failed to gracefully shutdown resources'' errors)))"
  using assms
  by (auto simp: runtime_scope_def andthen_def finally_do_def runtime_close_def close_run split: list.split)

section \<open>Properties\<close>

text \<open>C32: A shutdown attempts every step, once, whatever fails: the HTTP client is closed, the broker is
  stopped when the process owns it, the engine is disposed of, in this order; what the steps raise is
  reported at the end, all of it and in this order, the resources count as closed and no longer as
  started, and closing them again does nothing.\<close>

theorem shutdown_attempts_every_step:
  assumes "no_cancellation fault" and "\<not> rs_is_closed s" and "resources_close fault s = (r, s')"
  shows "rs_calls s' = rs_calls s @ [Client_aclose] @ (if rs_owns_broker s then [Broker_stop] else []) @ [Engine_dispose] \<and>
    r = (case raised fault (length (rs_calls s)) (drop (length (rs_calls s)) (rs_calls s')) of
           [] \<Rightarrow> Inr ()
         | errors \<Rightarrow> Inl (ExceptionGroup ''Failed to gracefully shutdown resources'' errors)) \<and>
    rs_is_closed s' \<and> \<not> rs_is_started s' \<and> resources_close fault s' = (Inr (), s')"
proof -
  have r: "r = (case raised fault (length (rs_calls s)) (shutdown_calls s) of
       [] \<Rightarrow> Inr ()
     | errors \<Rightarrow> Inl (ExceptionGroup ''Failed to gracefully shutdown resources'' errors))"
    and s': "s' = s\<lparr>rs_is_closed := True, rs_is_started := False, rs_calls := rs_calls s @ shutdown_calls s\<rparr>"
    using assms(3) by (simp_all add: close_run [OF assms(1,2)])
  show ?thesis using close_again [of s' fault] by (simp add: r s') (simp add: shutdown_calls_def)
qed

theorem shutdown_attempts_every_step_witness:
  "\<exists>s'. resources_close (\<lambda>n c. if c = Client_aclose then Some (RuntimeError ''client'') else None) (resources_new True) =
     (Inl (ExceptionGroup ''Failed to gracefully shutdown resources'' [RuntimeError ''client'']), s') \<and>
   rs_calls s' = [Client_aclose, Broker_stop, Engine_dispose]"
proof -
  let ?fault = "\<lambda>(n::nat) c. if c = Client_aclose then Some (RuntimeError ''client'') else None"
  obtain r s' where run: "resources_close ?fault (resources_new True) = (r, s')" by fastforce
  have "no_cancellation ?fault" by (simp add: no_cancellation_def)
  moreover have "\<not> rs_is_closed (resources_new True)" "rs_calls (resources_new True) = []"
    "rs_owns_broker (resources_new True)" by (simp_all add: resources_new_def)
  ultimately show ?thesis using shutdown_attempts_every_step [OF _ _ run] by (simp add: run)
qed

end
