(* ===== verification/Http.thy ===== *)
theory Http
  imports CreatePayment Amqp
begin

text \<open>
  \<open>src/presentation/http\<close> and \<open>src/infrastructure/observability/health.py\<close>: authentication, the request and
  response schemas, the endpoints, the mapping of errors to responses, and the middleware around them. What
  FastAPI and pydantic do with the bytes of a request is a parameter, the record \<open>http_rt\<close>. The lemmas
  show that every request is answered, and how, and that an unauthorised one has no effect.
\<close>

section \<open>Requests and responses\<close>

text \<open>
  The body of a creation after pydantic has checked its fields, before the validator of the URL;
  \<open>cq_webhook_url\<close> is the normalised text of the \<open>HttpUrl\<close>.
\<close>

record create_request =
  cq_amount :: decimal
  cq_currency :: currency
  cq_description :: string
  cq_metadata :: pydict
  cq_webhook_url :: string

text \<open>
  \<open>h_validate\<close> is pydantic on the parsed body, \<open>h_path_uuid\<close> on the id in the path; \<open>h_decimal\<close> and \<open>h_time\<close>
  print a decimal and a moment in a response; \<open>h_detail\<close> describes a request that fails validation.
\<close>

record http_rt =
  h_validate :: "pyval \<Rightarrow> create_request option"
  h_path_uuid :: "string \<Rightarrow> uuid option"
  h_decimal :: "decimal \<Rightarrow> pyval"
  h_time :: "time \<Rightarrow> pyval"
  h_detail :: pyval

text \<open>
  What FastAPI makes of the bytes of a body: a value, a \<open>JSONDecodeError\<close>, or any other error of reading or
  parsing it (bytes that are no UTF-8, lists nested too deep, a client that is gone).
\<close>

datatype request_body = Parsed pyval | Not_json | Unreadable

datatype http_body = Json pyval | Plain_text string

record http_response =
  rp_status :: int
  rp_body :: http_body
  rp_request_id :: "string option"

text \<open>
  The endpoints. \<open>Framework\<close> is a request FastAPI answers itself, without a call of the application's code: a
  path or a method that has no route (404, 405), a redirect to the path without its slash (307), the pages of
  its documentation. What it answers is a parameter; the middleware runs around it as around any other.
\<close>

datatype endpoint =
    Post_payment request_body
  | Read_payment string
  | Health
  | Ready
  | Metrics_text
  | Framework http_response

record http_request =
  rq_method :: string
  rq_path :: string
  rq_endpoint :: endpoint
  rq_api_key :: "string option"
  rq_key :: "string option"
  rq_request_id :: "string option"

definition json_response :: "int \<Rightarrow> pydict \<Rightarrow> http_response" where
  "json_response status content = \<lparr>rp_status = status, rp_body = Json (PDict content), rp_request_id = None\<rparr>"

section \<open>ApiKeyAuthenticator\<close>

text \<open>\<open>hmac.compare_digest\<close> of two texts takes ASCII only.\<close>

definition compare_digest :: "string \<Rightarrow> string \<Rightarrow> exn + bool" where
  "compare_digest a b =
     (if is_ascii a \<and> is_ascii b then Inr (a = b)
      else Inl (TypeError ''comparing strings with non-ASCII characters is not supported''))"

text \<open>\<open>verify\<close>: \<open>Inr (Some r)\<close> is the \<open>HTTPException\<close>, which FastAPI answers with \<open>r\<close>.\<close>

definition verify_api_key :: "string option \<Rightarrow> string \<Rightarrow> exn + http_response option" where
  "verify_api_key provided expected =
     (let refused = Inr (Some (json_response 401 [(''detail'', PStr ''Unauthorized'')]))
      in case provided of
           None \<Rightarrow> refused
         | Some p \<Rightarrow> bind_exn (compare_digest p expected) (\<lambda>same. if \<not> same then refused else Inr None))"

section \<open>Schemas\<close>

definition public_webhook_url :: "string \<Rightarrow> exn + string" where
  "public_webhook_url url = bind_exn (webhook_url_new url) (\<lambda>_. Inr url)"

text \<open>pydantic turns a \<open>ValueError\<close> of the validator into a validation error, any other error passes.\<close>

definition validate_create :: "http_rt \<Rightarrow> pyval \<Rightarrow> exn + create_request option" where
  "validate_create h body =
     (case h_validate h body of
        None \<Rightarrow> Inr None
      | Some req \<Rightarrow>
          (case public_webhook_url (cq_webhook_url req) of
             Inl (ValueError _) \<Rightarrow> Inr None
           | Inl e \<Rightarrow> Inl e
           | Inr _ \<Rightarrow> Inr (Some req)))"

definition to_input :: "create_request \<Rightarrow> string \<Rightarrow> create_input" where
  "to_input req idempotency_key =
     \<lparr>ci_amount = ADecimal (cq_amount req), ci_currency = currency_value (cq_currency req),
      ci_description = cq_description req, ci_metadata = cq_metadata req,
      ci_webhook_url = cq_webhook_url req, ci_key = idempotency_key\<rparr>"

definition create_response :: "http_rt \<Rightarrow> payment_output \<Rightarrow> pydict" where
  "create_response h out =
     [(''payment_id'', PStr (uuid_str (po_payment_id out))), (''status'', PStr (po_status out)),
      (''created_at'', h_time h (po_created_at out))]"

definition payment_response :: "http_rt \<Rightarrow> payment_output \<Rightarrow> pydict" where
  "payment_response h out =
     [(''payment_id'', PStr (uuid_str (po_payment_id out))), (''amount'', h_decimal h (po_amount out)),
      (''currency'', PStr (po_currency out)), (''description'', PStr (po_description out)),
      (''metadata'', PDict (po_metadata out)), (''status'', PStr (po_status out)),
      (''idempotency_key'', PStr (po_key out)), (''webhook_url'', PStr (po_webhook_url out)),
      (''created_at'', h_time h (po_created_at out)),
      (''processed_at'', case po_processed_at out of None \<Rightarrow> PNone | Some t \<Rightarrow> h_time h t)]"

section \<open>The payments router\<close>

definition invalid_request :: "http_rt \<Rightarrow> http_response" where
  "invalid_request h = json_response 422 [(''detail'', h_detail h)]"

text \<open>The dependency of the router runs before the endpoint; what it raises as \<open>HTTPException\<close> is the answer.\<close>

definition require_api_key ::
    "string \<Rightarrow> http_request \<Rightarrow> http_response action \<Rightarrow> http_response action" where
  "require_api_key api_key rq endpoint =
     andthen (lift_exn (verify_api_key (rq_api_key rq) api_key)) (\<lambda>refused.
       case refused of Some response \<Rightarrow> ret response | None \<Rightarrow> endpoint)"

text \<open>
  FastAPI parses the body first, then runs the dependencies, then validates. A body that is no JSON is an invalid
  request, one it fails to read for another reason a bad one.
\<close>

definition unreadable_body :: http_response where
  "unreadable_body = json_response 400 [(''detail'', PStr ''There was an error parsing the body'')]"

definition post_payment ::
    "env \<Rightarrow> http_rt \<Rightarrow> string \<Rightarrow> http_request \<Rightarrow> request_body \<Rightarrow> http_response action" where
  "post_payment env h api_key rq body =
     (case body of
        Not_json \<Rightarrow> ret (invalid_request h)
      | Unreadable \<Rightarrow> ret unreadable_body
      | Parsed b \<Rightarrow>
          require_api_key api_key rq
            (andthen (lift_exn (validate_create h b)) (\<lambda>valid.
               case (valid, rq_key rq) of
                 (Some req, Some key) \<Rightarrow>
                   andthen (create_payment env (to_input req key)) (\<lambda>result.
                     ret (json_response 202 (create_response h result)))
               | _ \<Rightarrow> ret (invalid_request h))))"

definition read_payment ::
    "env \<Rightarrow> http_rt \<Rightarrow> string \<Rightarrow> http_request \<Rightarrow> string \<Rightarrow> http_response action" where
  "read_payment env h api_key rq payment_id =
     require_api_key api_key rq
       (case h_path_uuid h payment_id of
          None \<Rightarrow> ret (invalid_request h)
        | Some i \<Rightarrow>
            andthen (get_payment env i) (\<lambda>result. ret (json_response 200 (payment_response h result))))"

section \<open>InfrastructureReadiness and OpsRouter\<close>

text \<open>\<open>connect\<close>, \<open>SELECT 1\<close> and the return of the connection may fail; so may the ping of the broker.\<close>

definition is_ready :: "env \<Rightarrow> (nat \<Rightarrow> exn + bool) \<Rightarrow> bool action" where
  "is_ready env ping =
     attempt
       (andthen (statement env) (\<lambda>_. andthen (statement env) (\<lambda>_. andthen (statement env) (\<lambda>_.
        andthen (observe ping) (\<lambda>answer. lift_exn answer)))))
       (\<lambda>_. ret False) ret"

record ops =
  op_metrics_text :: "(world \<Rightarrow> string) option"
  op_readiness :: "bool action option"

definition ops_endpoint :: "ops \<Rightarrow> endpoint \<Rightarrow> http_response action" where
  "ops_endpoint cfg endpoint =
     (case endpoint of
        Ready \<Rightarrow>
          (case op_readiness cfg of
             None \<Rightarrow> ret (json_response 200 [(''status'', PStr ''ok'')])
           | Some check \<Rightarrow>
               andthen check (\<lambda>ready.
                 if ready then ret (json_response 200 [(''status'', PStr ''ok'')])
                 else ret (json_response 503 [(''status'', PStr ''not_ready'')])))
      | Metrics_text \<Rightarrow>
          andthen (case op_metrics_text cfg of None \<Rightarrow> ret [] | Some text \<Rightarrow> reads text) (\<lambda>body.
            ret \<lparr>rp_status = 200, rp_body = Plain_text body, rp_request_id = None\<rparr>)
      | _ \<Rightarrow> ret (json_response 200 [(''status'', PStr ''ok'')]))"

section \<open>HttpErrorBoundary\<close>

text \<open>\<open>str(exc)\<close> of the errors of the domain.\<close>

fun domain_message :: "exn \<Rightarrow> string" where
  "domain_message (DomainError m) = m"
| "domain_message (InvalidMoneyError m) = m"
| "domain_message (InvalidCurrencyError m) = m"
| "domain_message (InvalidIdempotencyKeyError m) = m"
| "domain_message (InvalidPaymentIdError m) = m"
| "domain_message (InvalidWebhookUrlError m) = m"
| "domain_message (IllegalStatusTransitionError current target) =
     ''cannot transition from '' @ current @ '' to '' @ target"
| "domain_message _ = []"

fun is_idempotency_error :: "exn \<Rightarrow> bool" where
  "is_idempotency_error (IdempotencyConflict _) = True"
| "is_idempotency_error _ = False"

fun is_not_found :: "exn \<Rightarrow> bool" where
  "is_not_found (PaymentNotFound _) = True"
| "is_not_found _ = False"

definition error_responses :: "((exn \<Rightarrow> bool) \<times> int \<times> string option) list" where
  "error_responses =
     [(is_idempotency_error, 409, Some ''Idempotency key conflict''),
      (\<lambda>e. e = DuplicateIdempotencyKey, 409, Some ''Idempotency key conflict''),
      (is_not_found, 404, Some ''Payment not found''),
      (is_domain_error, 422, None)]"

definition error_handler :: "int \<Rightarrow> string option \<Rightarrow> exn \<Rightarrow> http_response" where
  "error_handler status detail exc =
     json_response status [(''detail'', PStr (case detail of Some d \<Rightarrow> d | None \<Rightarrow> domain_message exc))]"

text \<open>The handlers registered with the application: an error no class of which is listed passes.\<close>

definition registered_handlers :: "http_response action \<Rightarrow> http_response action" where
  "registered_handlers m =
     attempt m
       (\<lambda>exc. case find (\<lambda>(matches, _). matches exc) error_responses of
                None \<Rightarrow> raise exc
              | Some (_, status, detail) \<Rightarrow> ret (error_handler status detail exc))
       ret"

definition error_boundary :: "string \<Rightarrow> http_response action \<Rightarrow> http_response action" where
  "error_boundary request_id m =
     attempt m
       (\<lambda>_. ret ((json_response 500 [(''detail'', PStr ''Internal Server Error'')])
                   \<lparr>rp_request_id := if request_id \<noteq> [] then Some request_id else None\<rparr>))
       ret"

section \<open>AccessLogPolicy and AccessLogMiddleware\<close>

definition SKIP_SUCCESS_PATHS :: "string list" where
  "SKIP_SUCCESS_PATHS = [''/health'', ''/ready'', ''/docs'', ''/redoc'', ''/openapi.json'']"

definition LOG_INFO :: int where "LOG_INFO = 20"
definition LOG_WARNING :: int where "LOG_WARNING = 30"
definition LOG_ERROR :: int where "LOG_ERROR = 40"

definition choose_log_level :: "int \<Rightarrow> int" where
  "choose_log_level status_code =
     (if 500 \<le> status_code then LOG_ERROR else if 400 \<le> status_code then LOG_WARNING else LOG_INFO)"

definition should_log :: "string \<Rightarrow> int \<Rightarrow> bool" where
  "should_log path status_code =
     (if path \<in> set SKIP_SUCCESS_PATHS \<and> status_code < 400 then False else True)"

record access_entry =
  ae_level :: int
  ae_method :: string
  ae_path :: string
  ae_status :: int
  ae_duration_ms :: rat

text \<open>\<open>round(seconds * 1000, 2)\<close>.\<close>

definition elapsed_ms :: "rat \<Rightarrow> rat \<Rightarrow> rat" where
  "elapsed_ms started ended = of_int (round_half_even ((ended - started) * 1000 * 100)) / 100"

definition log_access :: "http_request \<Rightarrow> int \<Rightarrow> rat \<Rightarrow> access_entry option" where
  "log_access rq status_code duration =
     (if \<not> should_log (rq_path rq) status_code then None
      else Some \<lparr>ae_level = choose_log_level status_code, ae_method = rq_method rq, ae_path = rq_path rq,
                 ae_status = status_code, ae_duration_ms = duration\<rparr>)"

text \<open>The response, and the line of the access log it leaves. \<open>call_next\<close> is given the request's id.\<close>

definition access_log ::
    "env \<Rightarrow> http_request \<Rightarrow> (string \<Rightarrow> http_response action) \<Rightarrow> (http_response \<times> access_entry option) action" where
  "access_log env rq call_next =
     andthen (resolve_request_id env (rq_request_id rq)) (\<lambda>request_id.
     andthen (perf_counter env) (\<lambda>started.
     andthen (call_next request_id) (\<lambda>response.
     andthen (perf_counter env) (\<lambda>ended.
       ret (response\<lparr>rp_request_id := Some request_id\<rparr>,
            log_access rq (rp_status response) (elapsed_ms started ended))))))"

section \<open>HttpAppFactory\<close>

record http_app =
  app_rt :: http_rt
  app_api_key :: string
  app_ops :: ops

definition route_request :: "env \<Rightarrow> http_app \<Rightarrow> http_request \<Rightarrow> http_response action" where
  "route_request env app rq =
     (case rq_endpoint rq of
        Post_payment body \<Rightarrow> post_payment env (app_rt app) (app_api_key app) rq body
      | Read_payment i \<Rightarrow> read_payment env (app_rt app) (app_api_key app) rq i
      | Framework answer \<Rightarrow> ret answer
      | other \<Rightarrow> ops_endpoint (app_ops app) other)"

text \<open>The middleware added last is the outermost.\<close>

definition serve :: "env \<Rightarrow> http_app \<Rightarrow> http_request \<Rightarrow> (http_response \<times> access_entry option) action" where
  "serve env app rq =
     access_log env rq (\<lambda>request_id.
       error_boundary request_id (registered_handlers (route_request env app rq)))"

section \<open>What a request comes to\<close>

lemma serve_run:
  "\<exists>rid n. request_id_ok rid \<and>
     serve env app rq w =
       (case error_boundary rid (registered_handlers (route_request env app rq)) (w\<lparr>w_tick := n + 1\<rparr>) of
          (Inl e, w1) \<Rightarrow> (Inl e, w1)
        | (Inr resp, w1) \<Rightarrow>
            (Inr (resp\<lparr>rp_request_id := Some rid\<rparr>,
                  log_access rq (rp_status resp) (elapsed_ms (e_perf env n) (e_perf env (w_tick w1)))),
             w1\<lparr>w_tick := w_tick w1 + 1\<rparr>))"
proof -
  obtain rid n where "resolve_request_id env (rq_request_id rq) w = (Inr rid, w\<lparr>w_tick := n\<rparr>)" "request_id_ok rid"
    using resolve_run by blast
  then show ?thesis
    by (intro exI [of _ rid] exI [of _ n])
      (simp add: serve_def access_log_def andthen_def perf_counter_def observe_def ret_def split: prod.split sum.split)
qed

text \<open>
  The answer to an error, as the API states it: the class of the error alone decides, and only the errors of the
  domain show their own text.
\<close>

definition error_answer :: "exn \<Rightarrow> int \<times> string" where
  "error_answer e =
     (case e of
        DuplicateIdempotencyKey \<Rightarrow> (409, ''Idempotency key conflict'')
      | IdempotencyConflict _ \<Rightarrow> (409, ''Idempotency key conflict'')
      | PaymentNotFound _ \<Rightarrow> (404, ''Payment not found'')
      | _ \<Rightarrow> if is_domain_error e then (422, domain_message e) else (500, ''Internal Server Error''))"

text \<open>Status and body of the answer to an endpoint that returned or raised.\<close>

definition expected_answer :: "exn + http_response \<Rightarrow> int \<times> http_body" where
  "expected_answer r =
     (case r of
        Inr resp \<Rightarrow> (rp_status resp, rp_body resp)
      | Inl e \<Rightarrow> (fst (error_answer e), Json (PDict [(''detail'', PStr (snd (error_answer e)))])))"

lemma boundary_run:
  assumes "route_request env app rq w = (q, w1)" and "q \<noteq> Inl CancelledError"
  shows "\<exists>resp. error_boundary rid (registered_handlers (route_request env app rq)) w = (Inr resp, w1) \<and>
    (rp_status resp, rp_body resp) = expected_answer q"
proof (cases q)
  case (Inr x)
  then show ?thesis
    using assms(1) by (simp add: error_boundary_def registered_handlers_def attempt_def ret_def expected_answer_def)
next
  case (Inl e)
  have "is_exception e" using assms(2) Inl by (simp add: is_exception_def)
  then show ?thesis
    using assms(1) Inl
    by (cases e) (simp_all add: error_boundary_def registered_handlers_def attempt_def raise_def ret_def
        expected_answer_def error_answer_def error_responses_def error_handler_def json_response_def)
qed

text \<open>A request whose endpoint was run: answered, unless it was cancelled.\<close>

lemma serve_route:
  obtains n where "\<And>q w1. route_request env app rq (w\<lparr>w_tick := n\<rparr>) = (q, w1) \<Longrightarrow> q \<noteq> Inl CancelledError \<Longrightarrow>
    \<exists>resp entry rid. serve env app rq w = (Inr (resp, entry), w1\<lparr>w_tick := w_tick w1 + 1\<rparr>) \<and>
      (rp_status resp, rp_body resp) = expected_answer q \<and> rp_request_id resp = Some rid \<and> request_id_ok rid"
    and "\<And>w1. route_request env app rq (w\<lparr>w_tick := n\<rparr>) = (Inl CancelledError, w1) \<Longrightarrow>
      serve env app rq w = (Inl CancelledError, w1)"
proof -
  obtain rid n where rid: "request_id_ok rid" and run: "serve env app rq w =
       (case error_boundary rid (registered_handlers (route_request env app rq)) (w\<lparr>w_tick := n + 1\<rparr>) of
          (Inl e, w1) \<Rightarrow> (Inl e, w1)
        | (Inr resp, w1) \<Rightarrow>
            (Inr (resp\<lparr>rp_request_id := Some rid\<rparr>,
                  log_access rq (rp_status resp) (elapsed_ms (e_perf env n) (e_perf env (w_tick w1)))),
             w1\<lparr>w_tick := w_tick w1 + 1\<rparr>))"
    using serve_run by blast
  show ?thesis
  proof (rule that [of "n + 1"])
    fix q w1
    assume q: "route_request env app rq (w\<lparr>w_tick := n + 1\<rparr>) = (q, w1)" "q \<noteq> Inl CancelledError"
    from boundary_run [OF q, of rid] obtain resp where
      "error_boundary rid (registered_handlers (route_request env app rq)) (w\<lparr>w_tick := n + 1\<rparr>) = (Inr resp, w1)"
      "(rp_status resp, rp_body resp) = expected_answer q"
      by blast
    then show "\<exists>resp entry rid. serve env app rq w = (Inr (resp, entry), w1\<lparr>w_tick := w_tick w1 + 1\<rparr>) \<and>
      (rp_status resp, rp_body resp) = expected_answer q \<and> rp_request_id resp = Some rid \<and> request_id_ok rid"
      using run rid by auto
  next
    fix w1
    assume "route_request env app rq (w\<lparr>w_tick := n + 1\<rparr>) = (Inl CancelledError, w1)"
    then show "serve env app rq w = (Inl CancelledError, w1)"
      by (simp add: run error_boundary_def registered_handlers_def attempt_def is_exception_def)
  qed
qed

definition needs_key :: "endpoint \<Rightarrow> bool" where
  "needs_key e \<longleftrightarrow> (case e of Post_payment _ \<Rightarrow> True | Read_payment _ \<Rightarrow> True | _ \<Rightarrow> False)"

text \<open>The status a request with a wrong key gets.\<close>

definition refusal :: "http_app \<Rightarrow> http_request \<Rightarrow> int" where
  "refusal app rq =
     (if rq_endpoint rq = Post_payment Not_json then 422
      else if rq_endpoint rq = Post_payment Unreadable then 400
      else case rq_api_key rq of
             None \<Rightarrow> 401
           | Some p \<Rightarrow> if is_ascii p \<and> is_ascii (app_api_key app) then 401 else 500)"

lemma require_refuses:
  assumes "rq_api_key rq \<noteq> Some x"
  shows "\<exists>q. require_api_key x rq m w = (q, w) \<and> q \<noteq> Inl CancelledError \<and>
    fst (expected_answer q) = (case rq_api_key rq of None \<Rightarrow> 401 | Some p \<Rightarrow> if is_ascii p \<and> is_ascii x then 401 else 500)"
  using assms
  by (auto simp: require_api_key_def verify_api_key_def compare_digest_def andthen_def lift_exn_def ret_def Let_def
      expected_answer_def error_answer_def json_response_def split: option.split)

lemma refused:
  assumes "needs_key (rq_endpoint rq)" and "rq_api_key rq \<noteq> Some (app_api_key app)"
  shows "\<exists>resp entry n. serve env app rq w = (Inr (resp, entry), w\<lparr>w_tick := n\<rparr>) \<and> rp_status resp = refusal app rq"
proof -
  obtain n where n: "\<And>q w1. route_request env app rq (w\<lparr>w_tick := n\<rparr>) = (q, w1) \<Longrightarrow> q \<noteq> Inl CancelledError \<Longrightarrow>
    \<exists>resp entry rid. serve env app rq w = (Inr (resp, entry), w1\<lparr>w_tick := w_tick w1 + 1\<rparr>) \<and>
      (rp_status resp, rp_body resp) = expected_answer q \<and> rp_request_id resp = Some rid \<and> request_id_ok rid"
    using serve_route [of env app rq w] by metis
  have "\<exists>q. route_request env app rq (w\<lparr>w_tick := n\<rparr>) = (q, w\<lparr>w_tick := n\<rparr>) \<and> q \<noteq> Inl CancelledError \<and>
      fst (expected_answer q) = refusal app rq"
    using assms(1) require_refuses [OF assms(2)]
    by (cases "rq_endpoint rq")
      (auto simp: needs_key_def route_request_def post_payment_def read_payment_def refusal_def ret_def
        invalid_request_def unreadable_body_def json_response_def expected_answer_def split: option.split request_body.split)
  then obtain q where "route_request env app rq (w\<lparr>w_tick := n\<rparr>) = (q, w\<lparr>w_tick := n\<rparr>)" "q \<noteq> Inl CancelledError"
    "fst (expected_answer q) = refusal app rq" by blast
  with n [OF this(1,2)] show ?thesis by (auto simp: prod_eq_iff)
qed

text \<open>An authorised creation whose body and key are there.\<close>

definition well_formed :: "http_app \<Rightarrow> http_request \<Rightarrow> create_request \<Rightarrow> string \<Rightarrow> bool" where
  "well_formed app rq req key \<longleftrightarrow>
     (\<exists>body. rq_endpoint rq = Post_payment (Parsed body) \<and> validate_create (app_rt app) body = Inr (Some req)) \<and>
     rq_key rq = Some key \<and> rq_api_key rq = Some (app_api_key app) \<and> is_ascii (app_api_key app)"

lemma well_formed_route:
  assumes "well_formed app rq req key"
  shows "route_request env app rq w =
    (case create_payment env (to_input req key) w of
       (Inl e, w1) \<Rightarrow> (Inl e, w1)
     | (Inr out, w1) \<Rightarrow> (Inr (json_response 202 (create_response (app_rt app) out)), w1))"
  using assms
  by (auto simp: well_formed_def route_request_def post_payment_def require_api_key_def verify_api_key_def
      compare_digest_def andthen_def lift_exn_def ret_def Let_def split: prod.split sum.split)

lemma served_creation:
  assumes form: "well_formed app rq req key" and run: "serve env app rq w = (Inr (resp, entry), w')"
    and accepted: "rp_status resp = 202"
  shows "\<exists>n out. create_payment env (to_input req key) (w\<lparr>w_tick := n\<rparr>) = (Inr out, w'\<lparr>w_tick := w_tick w' - 1\<rparr>) \<and>
    rp_body resp = Json (PDict (create_response (app_rt app) out))"
proof -
  obtain n where n: "\<And>q w1. route_request env app rq (w\<lparr>w_tick := n\<rparr>) = (q, w1) \<Longrightarrow> q \<noteq> Inl CancelledError \<Longrightarrow>
    \<exists>resp entry rid. serve env app rq w = (Inr (resp, entry), w1\<lparr>w_tick := w_tick w1 + 1\<rparr>) \<and>
      (rp_status resp, rp_body resp) = expected_answer q \<and> rp_request_id resp = Some rid \<and> request_id_ok rid"
    and cancelled: "\<And>w1. route_request env app rq (w\<lparr>w_tick := n\<rparr>) = (Inl CancelledError, w1) \<Longrightarrow>
      serve env app rq w = (Inl CancelledError, w1)"
    using serve_route [of env app rq w] by metis
  obtain r w1 where create: "create_payment env (to_input req key) (w\<lparr>w_tick := n\<rparr>) = (r, w1)" by fastforce
  show ?thesis
  proof (cases r)
    case (Inl e)
    then have "route_request env app rq (w\<lparr>w_tick := n\<rparr>) = (Inl e, w1)"
      by (simp add: well_formed_route [OF form] create)
    with n [OF this] cancelled [of w1] run have "fst (expected_answer (Inl e)) = 202"
      using accepted by (cases "e = CancelledError") (auto simp: prod_eq_iff)
    then show ?thesis by (cases e) (simp_all add: expected_answer_def error_answer_def)
  next
    case (Inr out)
    then have "route_request env app rq (w\<lparr>w_tick := n\<rparr>) =
        (Inr (json_response 202 (create_response (app_rt app) out)), w1)"
      by (simp add: well_formed_route [OF form] create)
    from n [OF this] run create Inr show ?thesis by (auto simp: expected_answer_def json_response_def)
  qed
qed

text \<open>What the schema checks of an amount is what the domain asks of it, and fits the column.\<close>

definition schema_amount :: "decimal \<Rightarrow> bool" where
  "schema_amount d \<longleftrightarrow>
     (\<exists>c e. d = Dec False c e \<and> 0 < c \<and> - 2 \<le> e \<and> int c * 10 ^ nat (e + 2) < 10 ^ 12)"

lemma num_digits_at_most: "n < 10 ^ k \<Longrightarrow> 0 < k \<Longrightarrow> num_digits n \<le> k"
  by (simp add: num_digits_def length_show_nat)

lemma schema_amount_fits:
  assumes "schema_amount d"
  shows "\<exists>m. money_new (ADecimal d) (Inr (currency_value c)) = Inr m \<and> m_currency m = c \<and>
    (\<exists>cents. numeric_store (m_amount m) = Inr cents)"
proof -
  obtain n e where d: "d = Dec False n e" "0 < n" "- 2 \<le> e" and n: "int n * 10 ^ nat (e + 2) < 10 ^ 12"
    using assms by (auto simp: schema_amount_def)
  have "int (n * 10 ^ nat (e + 2)) < int (10 ^ 12)" using n by simp
  then have small: "n * 10 ^ nat (e + 2) < 10 ^ 12" by (simp only: of_nat_less_iff)
  have "nat (e + 2) < 12"
  proof (rule ccontr)
    assume "\<not> nat (e + 2) < 12"
    then have "(10::nat) ^ 12 \<le> 10 ^ nat (e + 2)" by (intro power_increasing) simp_all
    also have "\<dots> \<le> n * 10 ^ nat (e + 2)" using d(2) by simp
    finally show False using small by simp
  qed
  then have e: "e + 2 \<le> 11" using d(3) by simp
  have "n \<le> n * 10 ^ nat (e + 2)" by simp
  then have "n < 10 ^ 12" using small by (rule le_less_trans)
  then have "num_digits n \<le> 12" by (rule num_digits_at_most) simp
  then have "\<not> 28 < int (num_digits n) + e + 2" using e by simp
  then have "money_amount d = Inr (Dec False (n * 10 ^ nat (e + 2)) (- 2))"
    using d by (simp add: money_amount_def quantize_cents_def)
  moreover have "currency_parse (Inr (currency_value RUB)) = Inr RUB"
    "currency_parse (Inr (currency_value USD)) = Inr USD" "currency_parse (Inr (currency_value EUR)) = Inr EUR"
    by code_simp+
  then have "currency_parse (Inr (currency_value c)) = Inr c" by (cases c) (simp_all only:)
  moreover have "numeric_store (Dec False (n * 10 ^ nat (e + 2)) (- 2)) = Inr (int (n * 10 ^ nat (e + 2)))"
    using n by (simp add: numeric_store_def)
  ultimately show ?thesis by (auto simp: money_new_def)
qed

section \<open>An example\<close>

definition sample_http_rt :: http_rt where
  "sample_http_rt =
     \<lparr>h_validate = (\<lambda>_. Some \<lparr>cq_amount = Dec False 105 (- 1), cq_currency = RUB, cq_description = ''tea'',
        cq_metadata = [(''order'', PInt 7)], cq_webhook_url = ''https://example.com/h''\<rparr>),
      h_path_uuid = parse_uuid, h_decimal = (\<lambda>d. PStr (decimal_str d)), h_time = (\<lambda>t. PStr (isoformat t)),
      h_detail = PNone\<rparr>"

definition sample_app :: http_app where
  "sample_app = \<lparr>app_rt = sample_http_rt, app_api_key = ''secret'',
     app_ops = \<lparr>op_metrics_text = None, op_readiness = None\<rparr>\<rparr>"

definition sample_request :: http_request where
  "sample_request = \<lparr>rq_method = ''POST'', rq_path = ''/api/v1/payments'', rq_endpoint = Post_payment (Parsed PNone),
     rq_api_key = Some ''secret'', rq_key = Some ''k-1'', rq_request_id = Some ''r-1''\<rparr>"

lemma sample_well_formed:
  "\<exists>req. well_formed sample_app sample_request req ''k-1'' \<and> to_input req ''k-1'' = sample_command"
proof -
  have "webhook_url_new ''https://example.com/h'' = Inr ''https://example.com/h''" by code_simp
  moreover have "is_ascii ''secret''" by code_simp
  ultimately show ?thesis
    by (simp add: well_formed_def sample_app_def sample_request_def validate_create_def sample_http_rt_def
        public_webhook_url_def to_input_def sample_command_def)
qed

lemma sample_model_served:
  "mapper_to_model quiet_env (planned_payment quiet_env sample_command sample_money (empty_world\<lparr>w_tick := 1\<rparr>)) =
     Inr (sample_row\<lparr>pr_id := 2\<rparr>)"
  by code_simp

lemma sample_served:
  "\<exists>resp entry w'. serve quiet_env sample_app sample_request empty_world = (Inr (resp, entry), w') \<and> rp_status resp = 202"
proof -
  obtain req where req: "well_formed sample_app sample_request req ''k-1''" "to_input req ''k-1'' = sample_command"
    using sample_well_formed by blast
  let ?w = "empty_world\<lparr>w_tick := 1\<rparr>"
  have "\<exists>v. insert_outbox_rows quiet_env
      [new_outbox_row 5 PAYMENT_CREATED (payment_created_payload 2) 0]
      (empty_tables\<lparr>t_payments := [sample_row\<lparr>pr_id := 2\<rparr>]\<rparr>) = Inr v"
    by (rule exI, code_simp)
  then obtain out w1 where create: "create_payment quiet_env sample_command ?w = (Inr out, w1)"
    using create_new_calm [OF quiet_calm sample_valid sample_model_served]
    by (auto simp: empty_world_def empty_tables_def find_payment_def sample_row_def quiet_env_def)
  have "request_id_ok ''r-1''" "strip ''r-1'' = ''r-1''" by code_simp+
  then show ?thesis
    using create
    by (simp add: serve_def access_log_def run_defs resolve_request_id_def sample_request_def error_boundary_def
        registered_handlers_def well_formed_route [OF req(1) [unfolded sample_request_def]] req(2) empty_world_def
        json_response_def quiet_env_def)
qed

section \<open>Properties\<close>

text \<open>C33: Every request is answered, whatever fails in the database or in the code behind the endpoint, unless it
  is cancelled: when the endpoint returns, with its status and body; when it raises, with 409 for a conflict of the
  idempotency key, 404 for a payment that is not there, 422 and the text of the error for an error of the domain,
  and for anything else with a 500 that does not show the error. Answering changes nothing that the endpoint left,
  and every answer has a request id of printable ASCII characters.\<close>

theorem every_request_is_answered:
  "\<exists>n. case route_request env app rq (w\<lparr>w_tick := n\<rparr>) of (r, w1) \<Rightarrow>
     if r = Inl CancelledError then serve env app rq w = (Inl CancelledError, w1)
     else \<exists>resp entry rid. serve env app rq w = (Inr (resp, entry), w1\<lparr>w_tick := w_tick w1 + 1\<rparr>) \<and>
       rp_request_id resp = Some rid \<and> request_id_ok rid \<and>
       (rp_status resp, rp_body resp) =
         (case r of
            Inr answer \<Rightarrow> (rp_status answer, rp_body answer)
          | Inl e \<Rightarrow> (fst (error_answer e), Json (PDict [(''detail'', PStr (snd (error_answer e)))])))"
proof -
  obtain n where n: "\<And>q w1. route_request env app rq (w\<lparr>w_tick := n\<rparr>) = (q, w1) \<Longrightarrow> q \<noteq> Inl CancelledError \<Longrightarrow>
    \<exists>resp entry rid. serve env app rq w = (Inr (resp, entry), w1\<lparr>w_tick := w_tick w1 + 1\<rparr>) \<and>
      (rp_status resp, rp_body resp) = expected_answer q \<and> rp_request_id resp = Some rid \<and> request_id_ok rid"
    and cancelled: "\<And>w1. route_request env app rq (w\<lparr>w_tick := n\<rparr>) = (Inl CancelledError, w1) \<Longrightarrow>
      serve env app rq w = (Inl CancelledError, w1)"
    using serve_route [of env app rq w] by metis
  obtain r w1 where run: "route_request env app rq (w\<lparr>w_tick := n\<rparr>) = (r, w1)" by fastforce
  show ?thesis
  proof (rule exI [of _ n], cases "r = Inl CancelledError")
    case True
    with cancelled run show "case route_request env app rq (w\<lparr>w_tick := n\<rparr>) of (r, w1) \<Rightarrow>
     if r = Inl CancelledError then serve env app rq w = (Inl CancelledError, w1)
     else \<exists>resp entry rid. serve env app rq w = (Inr (resp, entry), w1\<lparr>w_tick := w_tick w1 + 1\<rparr>) \<and>
       rp_request_id resp = Some rid \<and> request_id_ok rid \<and>
       (rp_status resp, rp_body resp) =
         (case r of
            Inr answer \<Rightarrow> (rp_status answer, rp_body answer)
          | Inl e \<Rightarrow> (fst (error_answer e), Json (PDict [(''detail'', PStr (snd (error_answer e)))])))"
      by simp
  next
    case False
    from n [OF run this] False run show "case route_request env app rq (w\<lparr>w_tick := n\<rparr>) of (r, w1) \<Rightarrow>
     if r = Inl CancelledError then serve env app rq w = (Inl CancelledError, w1)
     else \<exists>resp entry rid. serve env app rq w = (Inr (resp, entry), w1\<lparr>w_tick := w_tick w1 + 1\<rparr>) \<and>
       rp_request_id resp = Some rid \<and> request_id_ok rid \<and>
       (rp_status resp, rp_body resp) =
         (case r of
            Inr answer \<Rightarrow> (rp_status answer, rp_body answer)
          | Inl e \<Rightarrow> (fst (error_answer e), Json (PDict [(''detail'', PStr (snd (error_answer e)))])))"
      by (auto simp: expected_answer_def)
  qed
qed

text \<open>C34: A request of the payments API without the right key has no effect: nothing is read or written in
  the database, nothing is published or posted, and the answer is a 401 (a 422 when the body is no JSON, a 400 when
  it cannot be read at all, and a 500 when the key is not ASCII).\<close>

theorem unauthorised_request_has_no_effect:
  assumes "needs_key (rq_endpoint rq)" and "rq_api_key rq \<noteq> Some (app_api_key app)"
  shows "\<exists>resp entry n. serve env app rq w = (Inr (resp, entry), w\<lparr>w_tick := n\<rparr>) \<and>
    rp_status resp =
      (if rq_endpoint rq = Post_payment Not_json then 422
       else if rq_endpoint rq = Post_payment Unreadable then 400
       else case rq_api_key rq of
              None \<Rightarrow> 401
            | Some p \<Rightarrow> if is_ascii p \<and> is_ascii (app_api_key app) then 401 else 500)"
  using refused [OF assms] by (simp add: refusal_def)

theorem unauthorised_request_has_no_effect_witness:
  "\<exists>resp entry n. serve quiet_env sample_app (sample_request\<lparr>rq_api_key := Some ''guess''\<rparr>) empty_world =
     (Inr (resp, entry), empty_world\<lparr>w_tick := n\<rparr>) \<and> rp_status resp = 401"
proof -
  let ?rq = "sample_request\<lparr>rq_api_key := Some ''guess''\<rparr>"
  have "needs_key (rq_endpoint ?rq)" by (simp add: needs_key_def sample_request_def)
  moreover have "rq_api_key ?rq \<noteq> Some (app_api_key sample_app)" by (simp add: sample_request_def sample_app_def)
  moreover have "is_ascii ''guess''" "is_ascii (app_api_key sample_app)"
    by (simp_all add: sample_app_def is_ascii_def)
  moreover have "rq_endpoint ?rq \<noteq> Post_payment Not_json" "rq_endpoint ?rq \<noteq> Post_payment Unreadable" "rq_api_key ?rq = Some ''guess''" by (simp_all add: sample_request_def)
  ultimately show ?thesis
    using unauthorised_request_has_no_effect [of ?rq sample_app quiet_env empty_world] by simp
qed

text \<open>C35: A payment that is accepted is on record: when a creation is answered with 202, its payment is in the
  database under the request's idempotency key, and the answer names it.\<close>

theorem accepted_means_recorded:
  assumes "rely env" and "good w" and "well_formed app rq req key"
    and "serve env app rq w = (Inr (resp, entry), w')" and "rp_status resp = 202"
  shows "\<exists>out. on_record (w_db w') out \<and> po_key out = key \<and>
    rp_body resp = Json (PDict (create_response (app_rt app) out))"
proof -
  obtain n out where create: "create_payment env (to_input req key) (w\<lparr>w_tick := n\<rparr>) = (Inr out, w'\<lparr>w_tick := w_tick w' - 1\<rparr>)"
    and body: "rp_body resp = Json (PDict (create_response (app_rt app) out))"
    using served_creation [OF assms(3,4,5)] by blast
  have "good (w\<lparr>w_tick := n\<rparr>)" using assms(2) by simp
  from hoareD(3) [OF holds_create_payment [OF assms(1)] this TrueI create] body
  show ?thesis by (auto simp: to_input_def)
qed

theorem accepted_means_recorded_witness:
  "\<exists>resp entry w' out. serve quiet_env sample_app sample_request empty_world = (Inr (resp, entry), w') \<and>
     on_record (w_db w') out \<and> po_key out = ''k-1''"
proof -
  obtain req where req: "well_formed sample_app sample_request req ''k-1''" "to_input req ''k-1'' = sample_command"
    using sample_well_formed by blast
  obtain resp entry w' where run: "serve quiet_env sample_app sample_request empty_world = (Inr (resp, entry), w')"
    and "rp_status resp = 202"
    using sample_served by blast
  from accepted_means_recorded [OF quiet_rely empty_good req(1) this] run
  show ?thesis by auto
qed

end
