(* ===== verification/Factory.thy ===== *)
theory Factory
  imports Lifecycle Http
begin

text \<open>
  \<open>src/infrastructure/config.py\<close>, \<open>persistence/db.py\<close>, \<open>messaging/broker.py\<close>, \<open>src/factory.py\<close> and the entry points of
  \<open>src/presentation\<close>: the settings read from the environment and how the three processes are built from
  them. Parsing a number or a truth value is pydantic's, a parameter. The lemmas show what each setting
  reaches, and that the defaults of the settings are those of the components.
\<close>

section \<open>Settings\<close>

record settings =
  st_database_url :: string
  st_rabbitmq_url :: string
  st_api_key :: string
  st_webhook_timeout_seconds :: rat
  st_webhook_max_connections :: int
  st_webhook_max_keepalive :: int
  st_outbox_poll_interval_seconds :: rat
  st_outbox_batch_size :: int
  st_outbox_max_publish_attempts :: int
  st_outbox_retry_initial_seconds :: rat
  st_outbox_retry_cap_seconds :: rat
  st_outbox_claim_timeout_seconds :: rat
  st_outbox_retention_days :: int
  st_log_level :: string
  st_use_json_logs :: bool

text \<open>
  How pydantic reads the text of a variable, and the variables: the process environment before \<open>.env\<close>,
  by name in lower case, as the names are matched without regard to case.
\<close>

record setting_source =
  sr_float :: "string \<Rightarrow> rat option"
  sr_int :: "string \<Rightarrow> int option"
  sr_bool :: "string \<Rightarrow> bool option"
  sr_lookup :: "string \<Rightarrow> string option"

text \<open>The first name that is set decides; an unset field has its default, or is missing.\<close>

fun first_set :: "setting_source \<Rightarrow> string list \<Rightarrow> string option" where
  "first_set src [] = None"
| "first_set src (name # names) =
     (case sr_lookup src name of None \<Rightarrow> first_set src names | Some v \<Rightarrow> Some v)"

definition setting :: "setting_source \<Rightarrow> (string \<Rightarrow> 'a option) \<Rightarrow> 'a option \<Rightarrow> string list \<Rightarrow> 'a option" where
  "setting src parse fallback names =
     (case first_set src names of None \<Rightarrow> fallback | Some v \<Rightarrow> parse v)"

text \<open>A field that is missing or does not parse raises \<open>ValidationError\<close>, which is a \<open>ValueError\<close>.\<close>

definition settings_from_env :: "setting_source \<Rightarrow> exn + settings" where
  "settings_from_env src =
     (case (setting src Some None [''database_url''],
            setting src Some None [''rabbitmq_url''],
            setting src Some None [''api_key''],
            setting src (sr_float src) (Some 5) [''webhook_timeout_seconds''],
            setting src (sr_int src) (Some 100) [''webhook_max_connections''],
            setting src (sr_int src) (Some 20) [''webhook_max_keepalive''],
            setting src (sr_float src) (Some (1 / 2)) [''outbox_poll_interval_seconds''],
            setting src (sr_int src) (Some 50) [''outbox_batch_size''],
            setting src (sr_int src) (Some 8) [''outbox_max_publish_attempts''],
            setting src (sr_float src) (Some 1) [''outbox_retry_initial_seconds''],
            setting src (sr_float src) (Some 60) [''outbox_retry_cap_seconds''],
            setting src (sr_float src) (Some 60) [''outbox_claim_timeout_seconds''],
            setting src (sr_int src) (Some 3) [''outbox_retention_days''],
            setting src Some (Some ''INFO'') [''log_level''],
            setting src (sr_bool src) (Some True) [''log_json'', ''use_json_logs''])
      of (Some a, Some b, Some c, Some d, Some e, Some f, Some g, Some h, Some i, Some j, Some k, Some l,
          Some m, Some n, Some p) \<Rightarrow>
           Inr \<lparr>st_database_url = a, st_rabbitmq_url = b, st_api_key = c, st_webhook_timeout_seconds = d,
                st_webhook_max_connections = e, st_webhook_max_keepalive = f,
                st_outbox_poll_interval_seconds = g, st_outbox_batch_size = h,
                st_outbox_max_publish_attempts = i, st_outbox_retry_initial_seconds = j,
                st_outbox_retry_cap_seconds = k, st_outbox_claim_timeout_seconds = l,
                st_outbox_retention_days = m, st_log_level = n, st_use_json_logs = p\<rparr>
       | _ \<Rightarrow> Inl (ValueError ''ValidationError''))"

section \<open>Database and broker\<close>

record engine =
  en_url :: string
  en_isolation_level :: string
  en_pool_pre_ping :: bool

definition create_engine :: "string \<Rightarrow> engine" where
  "create_engine url = \<lparr>en_url = url, en_isolation_level = ''READ COMMITTED'', en_pool_pre_ping = True\<rparr>"

record session_factory =
  sf_engine :: engine
  sf_expire_on_commit :: bool

definition create_session_factory :: "engine \<Rightarrow> session_factory" where
  "create_session_factory e = \<lparr>sf_engine = e, sf_expire_on_commit = False\<rparr>"

record broker_client =
  bc_url :: string
  bc_publisher_confirms :: bool
  bc_fail_fast :: bool

definition create_broker :: "string \<Rightarrow> broker_client" where
  "create_broker url = \<lparr>bc_url = url, bc_publisher_confirms = True, bc_fail_fast = False\<rparr>"

section \<open>RuntimeFactory\<close>

record use_cases =
  uc_create :: "create_input \<Rightarrow> payment_output action"
  uc_get :: "uuid \<Rightarrow> payment_output action"
  uc_process :: "uuid \<Rightarrow> uuid option \<Rightarrow> unit action"
  uc_publish :: publish_outbox

record runtime =
  rn_settings :: settings
  rn_use_cases :: use_cases
  rn_sessions :: session_factory
  rn_http :: http_client
  rn_broker :: broker_client
  rn_resources :: resources
  rn_metrics :: outbox_metrics
  rn_render :: "world \<Rightarrow> string"

definition create_use_cases ::
    "env \<Rightarrow> settings \<Rightarrow> outbox_metrics \<Rightarrow> (payment \<Rightarrow> gateway_result action) \<Rightarrow> use_cases" where
  "create_use_cases env s metrics gateway =
     \<lparr>uc_create = create_payment env, uc_get = get_payment env, uc_process = process_payment env gateway,
      uc_publish = publish_outbox_new (st_outbox_batch_size s) (st_outbox_max_publish_attempts s)
        (st_outbox_claim_timeout_seconds s) (st_outbox_retention_days s) (st_outbox_retry_initial_seconds s)
        (st_outbox_retry_cap_seconds s) True metrics\<rparr>"

definition create_http :: "settings \<Rightarrow> http_client" where
  "create_http s =
     create_http_client (st_webhook_timeout_seconds s) (st_webhook_max_connections s) (st_webhook_max_keepalive s)"

definition create_resources :: "settings \<Rightarrow> bool \<Rightarrow> http_client \<times> engine \<times> broker_client \<times> resources" where
  "create_resources s owns_broker =
     (create_http s, create_engine (st_database_url s), create_broker (st_rabbitmq_url s),
      resources_new owns_broker)"

definition build_runtime ::
    "env \<Rightarrow> settings \<Rightarrow> (payment \<Rightarrow> gateway_result action) option \<Rightarrow> bool \<Rightarrow> runtime" where
  "build_runtime env s gateway owns_broker =
     (case create_resources s owns_broker of
        (http, eng, brk, res) \<Rightarrow>
          \<lparr>rn_settings = s,
           rn_use_cases = create_use_cases env s prometheus_outbox_metrics
             (case gateway of Some g \<Rightarrow> g | None \<Rightarrow> sql_gateway_charge env),
           rn_sessions = create_session_factory eng, rn_http = http, rn_broker = brk, rn_resources = res,
           rn_metrics = prometheus_outbox_metrics,
           rn_render = (\<lambda>w. render_metrics (e_rt env) (w_metrics w))\<rparr>)"

section \<open>Entry points\<close>

text \<open>\<open>PaymentApi\<close>: no metrics, and the probe of the database and the broker.\<close>

definition payment_api :: "env \<Rightarrow> http_rt \<Rightarrow> (nat \<Rightarrow> exn + bool) \<Rightarrow> runtime \<Rightarrow> http_app" where
  "payment_api env h ping r =
     \<lparr>app_rt = h, app_api_key = st_api_key (rn_settings r),
      app_ops = \<lparr>op_metrics_text = None, op_readiness = Some (is_ready env ping)\<rparr>\<rparr>"

definition api_start :: "faults \<Rightarrow> unit managed" where "api_start fault = runtime_start fault"
definition api_close :: "faults \<Rightarrow> unit managed" where "api_close fault = runtime_close fault"

definition api_lifespan :: "faults \<Rightarrow> 'a managed \<Rightarrow> 'a managed" where
  "api_lifespan fault body = andthen (api_start fault) (\<lambda>_. finally_do body (api_close fault))"

text \<open>\<open>OutboxPublisher\<close>: its relay and its operations router.\<close>

definition publisher_relay :: "runtime \<Rightarrow> relay \<times> backoff" where
  "publisher_relay r =
     relay_new (st_outbox_poll_interval_seconds (rn_settings r)) (st_outbox_batch_size (rn_settings r)) True"

definition publisher_ops :: "env \<Rightarrow> (nat \<Rightarrow> exn + bool) \<Rightarrow> runtime \<Rightarrow> ops" where
  "publisher_ops env ping r = \<lparr>op_metrics_text = Some (rn_render r), op_readiness = Some (is_ready env ping)\<rparr>"

text \<open>\<open>PaymentConsumer\<close>: its handler of a delivery, over the default retry policy.\<close>

definition payment_consumer :: "env \<Rightarrow> subscription" where
  "payment_consumer env = consumer_subscription env (sql_gateway_charge env)"

section \<open>Facts\<close>

text \<open>Only three variables are required, and the other fields have the defaults of the components.\<close>

definition bare_source :: "setting_source \<Rightarrow> bool" where
  "bare_source src \<longleftrightarrow>
     (\<forall>name. sr_lookup src name \<noteq> None \<longrightarrow> name \<in> {''database_url'', ''rabbitmq_url'', ''api_key''})"

lemma first_set_None [simp]: "first_set src names = None \<longleftrightarrow> (\<forall>name\<in>set names. sr_lookup src name = None)"
  by (induction names) (auto split: option.split)

lemma setting_unset: "\<forall>name\<in>set names. sr_lookup src name = None \<Longrightarrow> setting src parse fallback names = fallback"
  using first_set_None [of src names] by (simp add: setting_def del: first_set_None)

lemma setting_text: "setting src Some None [name] = sr_lookup src name"
  by (simp add: setting_def split: option.split)

lemma bare_settings:
  assumes "bare_source src"
  shows "settings_from_env src =
    (case (sr_lookup src ''database_url'', sr_lookup src ''rabbitmq_url'', sr_lookup src ''api_key'') of
       (Some d, Some r, Some k) \<Rightarrow>
         Inr \<lparr>st_database_url = d, st_rabbitmq_url = r, st_api_key = k, st_webhook_timeout_seconds = 5,
              st_webhook_max_connections = 100, st_webhook_max_keepalive = 20,
              st_outbox_poll_interval_seconds = 1 / 2, st_outbox_batch_size = 50,
              st_outbox_max_publish_attempts = 8, st_outbox_retry_initial_seconds = 1,
              st_outbox_retry_cap_seconds = 60, st_outbox_claim_timeout_seconds = 60,
              st_outbox_retention_days = 3, st_log_level = ''INFO'', st_use_json_logs = True\<rparr>
     | _ \<Rightarrow> Inl (ValueError ''ValidationError''))"
proof -
  have unset: "sr_lookup src name = None" if "name \<notin> {''database_url'', ''rabbitmq_url'', ''api_key''}" for name
    using assms that unfolding bare_source_def by blast
  show ?thesis
    unfolding settings_from_env_def setting_text by (simp add: setting_unset unset split: option.split)
qed

lemma default_settings_agree:
  assumes "bare_source src" and "settings_from_env src = Inr s"
  shows "uc_publish (create_use_cases env s metrics gateway) = default_publish_outbox\<lparr>px_metrics := metrics\<rparr>"
  using assms(2)
  by (auto simp: bare_settings [OF assms(1)] create_use_cases_def default_publish_outbox_def publish_outbox_new_def
      split: option.splits)

lemma runtime_parts [simp]:
  "uc_create (rn_use_cases (build_runtime env s g b)) = create_payment env"
  "uc_get (rn_use_cases (build_runtime env s g b)) = get_payment env"
  "uc_process (rn_use_cases (build_runtime env s None b)) = process_payment env (sql_gateway_charge env)"
  "rn_settings (build_runtime env s g b) = s"
  "rs_owns_broker (rn_resources (build_runtime env s g b)) = b"
  by (simp_all add: build_runtime_def create_resources_def create_use_cases_def resources_new_def)

end
