(* ===== verification/Ledger.thy ===== *)
theory Ledger
  imports Guarantee
begin

text \<open>
  What the service promises as a whole, as an abstract machine: a ledger of accepted payments, of the one
  charge of each, of how they were settled, of the messages processed and of the events owed to the broker.
  Every step enters one new fact, and none is ever taken back. The lemmas show that whatever keeps the
  guarantee of the service is a run of this machine on the abstraction of its database and broker.
\<close>

section \<open>The machine\<close>

record ledger =
  lg_accepted :: "uuid \<rightharpoonup> payment_row"
  lg_charged :: "uuid \<rightharpoonup> bool"
  lg_settled :: "uuid \<rightharpoonup> bool"
  lg_processed :: "uuid set"
  lg_owed :: "uuid \<rightharpoonup> uuid \<times> string \<times> pydict \<times> time"
  lg_sent :: "uuid set"

definition empty_ledger :: ledger where
  "empty_ledger = \<lparr>lg_accepted = Map.empty, lg_charged = Map.empty, lg_settled = Map.empty,
     lg_processed = {}, lg_owed = Map.empty, lg_sent = {}\<rparr>"

inductive ledger_step :: "ledger \<Rightarrow> ledger \<Rightarrow> bool" where
  accept: "lg_accepted l i = None \<Longrightarrow> \<forall>j t'. lg_accepted l j = Some t' \<longrightarrow> pr_key t' \<noteq> pr_key t \<Longrightarrow>
    ledger_step l (l\<lparr>lg_accepted := (lg_accepted l)(i \<mapsto> t)\<rparr>)"
| charge: "lg_charged l i = None \<Longrightarrow> ledger_step l (l\<lparr>lg_charged := (lg_charged l)(i \<mapsto> b)\<rparr>)"
| settle: "lg_accepted l i = Some t \<Longrightarrow> lg_charged l i = Some b \<Longrightarrow> lg_settled l i = None \<Longrightarrow>
    ledger_step l (l\<lparr>lg_settled := (lg_settled l)(i \<mapsto> b)\<rparr>)"
| process: "i \<notin> lg_processed l \<Longrightarrow> ledger_step l (l\<lparr>lg_processed := insert i (lg_processed l)\<rparr>)"
| send: "i \<notin> lg_sent l \<Longrightarrow>
    ledger_step l (l\<lparr>lg_owed := (lg_owed l)(i := None), lg_sent := insert i (lg_sent l)\<rparr>)"
| owe: "lg_owed l i = None \<Longrightarrow> i \<notin> lg_sent l \<Longrightarrow> ledger_step l (l\<lparr>lg_owed := (lg_owed l)(i \<mapsto> e)\<rparr>)"

abbreviation ledger_run :: "ledger \<Rightarrow> ledger \<Rightarrow> bool" where
  "ledger_run \<equiv> ledger_step\<^sup>*\<^sup>*"

subsection \<open>What the machine keeps\<close>

definition extends :: "ledger \<Rightarrow> ledger \<Rightarrow> bool" where
  "extends l l' \<longleftrightarrow>
     lg_accepted l \<subseteq>\<^sub>m lg_accepted l' \<and> lg_charged l \<subseteq>\<^sub>m lg_charged l' \<and> lg_settled l \<subseteq>\<^sub>m lg_settled l' \<and>
     lg_processed l \<subseteq> lg_processed l' \<and> lg_sent l \<subseteq> lg_sent l' \<and>
     (\<forall>i e. lg_owed l i = Some e \<longrightarrow> lg_owed l' i = Some e \<or> i \<in> lg_sent l')"

lemma extends_refl: "extends l l"
  by (simp add: extends_def)

lemma extends_trans: "extends l m \<Longrightarrow> extends m n \<Longrightarrow> extends l n"
  unfolding extends_def by (meson map_le_trans subset_trans subsetD)

lemma ledger_step_extends: "ledger_step l l' \<Longrightarrow> extends l l'"
  by (induction rule: ledger_step.induct) (auto simp: extends_def map_le_def)

lemma ledger_run_extends: "ledger_run l l' \<Longrightarrow> extends l l'"
  by (induction rule: rtranclp_induct) (auto intro: extends_refl extends_trans ledger_step_extends)

text \<open>Its invariant: keys are unique, and what is settled was accepted and is settled as charged.\<close>

definition ledger_ok :: "ledger \<Rightarrow> bool" where
  "ledger_ok l \<longleftrightarrow>
     (\<forall>i j t u. lg_accepted l i = Some t \<longrightarrow> lg_accepted l j = Some u \<longrightarrow> pr_key t = pr_key u \<longrightarrow> i = j) \<and>
     (\<forall>i b. lg_settled l i = Some b \<longrightarrow> lg_charged l i = Some b \<and> lg_accepted l i \<noteq> None) \<and>
     dom (lg_owed l) \<inter> lg_sent l = {}"

lemma ledger_step_ok: "ledger_step l l' \<Longrightarrow> ledger_ok l \<Longrightarrow> ledger_ok l'"
  by (induction rule: ledger_step.induct) (auto simp: ledger_ok_def split: if_splits; metis)+

lemma ledger_run_ok: "ledger_run l l' \<Longrightarrow> ledger_ok l \<Longrightarrow> ledger_ok l'"
  by (induction rule: rtranclp_induct) (auto intro: ledger_step_ok)

lemma empty_ledger_ok: "ledger_ok empty_ledger"
  by (simp add: ledger_ok_def empty_ledger_def)

section \<open>Entering many facts\<close>

text \<open>One fact after the other, over a finite set of keys.\<close>

lemma grow:
  assumes "finite A" and one: "\<And>B i. B \<subseteq> A \<Longrightarrow> i \<in> A \<Longrightarrow> i \<notin> B \<Longrightarrow> R (f B) (f (insert i B))"
  shows "R\<^sup>*\<^sup>* (f {}) (f A)"
proof -
  have "R\<^sup>*\<^sup>* (f {}) (f B)" if "finite B" "B \<subseteq> A" for B
    using that
  proof (induction B rule: finite_induct)
    case empty
    then show ?case by simp
  next
    case (insert i B)
    then have "R\<^sup>*\<^sup>* (f {}) (f B)" "R (f B) (f (insert i B))" using one by auto
    then show ?case by simp
  qed
  then show ?thesis using assms(1) by blast
qed

definition blend :: "('k \<rightharpoonup> 'v) \<Rightarrow> ('k \<rightharpoonup> 'v) \<Rightarrow> 'k set \<Rightarrow> 'k \<rightharpoonup> 'v" where
  "blend m m' B i = (if i \<in> B then m' i else m i)"

lemma blend_empty [simp]: "blend m m' {} = m"
  by (rule ext) (simp add: blend_def)

lemma blend_insert: "m' i = Some v \<Longrightarrow> blend m m' (insert i B) = (blend m m' B)(i \<mapsto> v)"
  by (rule ext) (simp add: blend_def)

lemma blend_all: "m \<subseteq>\<^sub>m m' \<Longrightarrow> blend m m' (dom m' - dom m) = m'"
proof (rule ext)
  fix i
  assume "m \<subseteq>\<^sub>m m'"
  then show "blend m m' (dom m' - dom m) i = m' i"
    by (cases "m i") (auto simp: blend_def map_le_def dom_def)
qed

lemma blend_cases: "m \<subseteq>\<^sub>m m' \<Longrightarrow> blend m m' B i = Some v \<Longrightarrow> m' i = Some v"
  by (auto simp: blend_def map_le_def dom_def split: if_splits)

text \<open>A map that grows, entry by entry.\<close>

lemma grow_map:
  fixes m m' :: "uuid \<rightharpoonup> 'v"
  assumes "m \<subseteq>\<^sub>m m'"
    and "\<And>B i v. m' i = Some v \<Longrightarrow> blend m m' B i = None \<Longrightarrow>
      ledger_step (g (blend m m' B)) (g ((blend m m' B)(i \<mapsto> v)))"
  shows "ledger_run (g m) (g m')"
proof -
  have "ledger_run (g (blend m m' {})) (g (blend m m' (dom m' - dom m)))"
  proof (rule grow)
    fix B i
    assume i: "i \<in> dom m' - dom m" "i \<notin> B"
    then obtain v where v: "m' i = Some v" and none: "m i = None" by auto
    then have "blend m m' B i = None" using i(2) by (simp add: blend_def)
    from assms(2) [OF v this] show "ledger_step (g (blend m m' B)) (g (blend m m' (insert i B)))"
      using blend_insert [of m' i v m B] v by simp
  qed simp
  then show ?thesis by (simp add: blend_all [OF assms(1)])
qed

section \<open>The abstraction\<close>

definition settled_of :: "tables \<Rightarrow> uuid \<rightharpoonup> bool" where
  "settled_of d i =
     (case find_payment d i of
        Some r \<Rightarrow> if row_terminal r then Some (pr_status r = status_value SUCCEEDED) else None
      | None \<Rightarrow> None)"

definition ledger_of :: "tables \<times> message list \<Rightarrow> ledger" where
  "ledger_of S =
     \<lparr>lg_accepted = (\<lambda>i. map_option frozen (find_payment (fst S) i)),
      lg_charged = (\<lambda>i. map_option ch_succeeded (find_charge (fst S) i)),
      lg_settled = settled_of (fst S),
      lg_processed = {i. find_inbox (fst S) i \<noteq> None},
      lg_owed = (\<lambda>i. if delivered (snd S) i then None else map_option envelope (find_outbox (fst S) i)),
      lg_sent = {i. delivered (snd S) i}\<rparr>"

lemma settled_ofE:
  assumes "settled_of d i = Some b"
  obtains r where "find_payment d i = Some r" "row_terminal r" "b = (pr_status r = status_value SUCCEEDED)"
  using assms by (cases "find_payment d i"; cases "row_terminal (the (find_payment d i))")
    (simp_all add: settled_of_def)

lemma ledger_of_empty: "ledger_of (empty_tables, []) = empty_ledger"
  by (simp add: ledger_of_def empty_ledger_def empty_tables_def find_payment_def find_charge_def find_inbox_def
      find_outbox_def settled_of_def delivered_def fun_eq_iff)

lemma accepted_keys:
  assumes "tables_inv d out" and "lg_accepted (ledger_of (d, out)) i = Some t"
    and "lg_accepted (ledger_of (d, out)) j = Some u" and "pr_key t = pr_key u"
  shows "i = j"
proof -
  obtain r s where r: "find_payment d i = Some r" "t = frozen r" and s: "find_payment d j = Some s" "u = frozen s"
    using assms(2,3) by (auto simp: ledger_of_def)
  have "distinct (map pr_key (t_payments d))" using assms(1) by (simp add: tables_inv_def)
  moreover have "pr_key r = pr_key s" using assms(4) r s by (simp add: frozen_def)
  ultimately have "r = s"
    using payments.lookup_key r(1) s(1) by (metis distinct_map inj_onD)
  then show ?thesis using payments.lookup_key r(1) s(1) by blast
qed

lemma settled_charged:
  assumes "tables_inv d out" and "lg_settled (ledger_of (d, out)) i = Some b"
  shows "lg_charged (ledger_of (d, out)) i = Some b" "lg_accepted (ledger_of (d, out)) i \<noteq> None"
proof -
  have "settled_of d i = Some b" using assms(2) by (simp add: ledger_of_def)
  then obtain r where r: "find_payment d i = Some r" "row_terminal r" "b = (pr_status r = status_value SUCCEEDED)"
    by (rule settled_ofE)
  have "r \<in> set (t_payments d)" "pr_id r = i" using payments.lookup_key r(1) by blast+
  then have "settled_as_charged d r" using assms(1) by (auto simp: tables_inv_def list_all_iff)
  then show "lg_charged (ledger_of (d, out)) i = Some b"
    using r \<open>pr_id r = i\<close>
    by (auto simp: settled_as_charged_def ledger_of_def outcome_status_def split: option.splits if_splits)
  show "lg_accepted (ledger_of (d, out)) i \<noteq> None" using r(1) by (simp add: ledger_of_def)
qed

lemma ledger_of_ok: "tables_inv d out \<Longrightarrow> ledger_ok (ledger_of (d, out))"
  unfolding ledger_ok_def using accepted_keys settled_charged
  by (auto simp: ledger_of_def split: if_splits)

section \<open>The simulation\<close>

lemma persists_extends:
  assumes "persists S S'"
  shows "extends (ledger_of S) (ledger_of S')"
proof -
  have pay: "\<exists>r'. find_payment (fst S') i = Some r' \<and> payment_persists r r'" if "find_payment (fst S) i = Some r" for i r
    using assms that unfolding persists_def payments_persist_def by blast
  have "lg_accepted (ledger_of S) \<subseteq>\<^sub>m lg_accepted (ledger_of S')"
    using pay by (fastforce simp: map_le_def ledger_of_def payment_persists_def)
  moreover have "lg_settled (ledger_of S) \<subseteq>\<^sub>m lg_settled (ledger_of S')"
  proof -
    have "settled_of (fst S') i = Some b" if settled: "settled_of (fst S) i = Some b" for i b
    proof -
      obtain r where r: "find_payment (fst S) i = Some r" "row_terminal r" "b = (pr_status r = status_value SUCCEEDED)"
        by (rule settled_ofE [OF settled])
      with pay [OF r(1)] have "find_payment (fst S') i = Some r" by (auto simp: payment_persists_def)
      with r show ?thesis by (simp add: settled_of_def)
    qed
    then show ?thesis by (auto simp: map_le_def dom_def ledger_of_def)
  qed
  moreover have "lg_charged (ledger_of S) \<subseteq>\<^sub>m lg_charged (ledger_of S')"
    using assms by (auto simp: persists_def charges_persist_def map_le_def ledger_of_def)
  moreover have "lg_processed (ledger_of S) \<subseteq> lg_processed (ledger_of S')"
    using assms by (auto simp: persists_def inbox_persists_def ledger_of_def)
  moreover have "lg_sent (ledger_of S) \<subseteq> lg_sent (ledger_of S')"
    using assms delivered_mono by (auto simp: persists_def ledger_of_def)
  moreover have "lg_owed (ledger_of S') i = Some e \<or> i \<in> lg_sent (ledger_of S')"
    if e: "lg_owed (ledger_of S) i = Some e" for i e
  proof -
    obtain r where "find_outbox (fst S) i = Some r" "e = envelope r"
      using e by (auto simp: ledger_of_def split: if_splits)
    then show ?thesis
      using assms unfolding persists_def outbox_rows_persist_def by (fastforce simp: ledger_of_def outbox_persists_def)
  qed
  ultimately show ?thesis unfolding extends_def by blast
qed

text \<open>
  A state that extends another is reached from it: first the payments are accepted, then charged, then
  settled; the messages are processed, the events sent, and the new ones owed.
\<close>

lemma extends_run:
  assumes ext: "extends l l'" and ok: "ledger_ok l'" and old: "dom (lg_owed l) \<inter> lg_sent l = {}"
  shows "ledger_run l l'"
proof -
  let ?l1 = "l\<lparr>lg_accepted := lg_accepted l'\<rparr>"
  let ?l2 = "?l1\<lparr>lg_charged := lg_charged l'\<rparr>"
  let ?l3 = "?l2\<lparr>lg_settled := lg_settled l'\<rparr>"
  let ?l4 = "?l3\<lparr>lg_processed := lg_processed l'\<rparr>"
  let ?owed = "\<lambda>B i. if i \<in> B then None else lg_owed l i"
  let ?l5 = "?l4\<lparr>lg_owed := ?owed (lg_sent l' - lg_sent l), lg_sent := lg_sent l'\<rparr>"
  have le: "lg_accepted l \<subseteq>\<^sub>m lg_accepted l'" "lg_charged l \<subseteq>\<^sub>m lg_charged l'" "lg_settled l \<subseteq>\<^sub>m lg_settled l'"
    "lg_processed l \<subseteq> lg_processed l'" "lg_sent l \<subseteq> lg_sent l'"
    and owed: "\<And>i e. lg_owed l i = Some e \<Longrightarrow> lg_owed l' i = Some e \<or> i \<in> lg_sent l'"
    using ext unfolding extends_def by blast+
  have run1: "ledger_run (l\<lparr>lg_accepted := lg_accepted l\<rparr>) ?l1"
  proof (rule grow_map [OF le(1), where g = "\<lambda>m. l\<lparr>lg_accepted := m\<rparr>"])
    fix B i t
    assume t: "lg_accepted l' i = Some t" and none: "blend (lg_accepted l) (lg_accepted l') B i = None"
    have "pr_key t' \<noteq> pr_key t" if "blend (lg_accepted l) (lg_accepted l') B j = Some t'" for j t'
    proof
      assume "pr_key t' = pr_key t"
      moreover have "lg_accepted l' j = Some t'" using blend_cases [OF le(1) that] .
      ultimately have "j = i" using ok t unfolding ledger_ok_def by blast
      then show False using that none by simp
    qed
    then show "ledger_step (l\<lparr>lg_accepted := blend (lg_accepted l) (lg_accepted l') B\<rparr>)
        (l\<lparr>lg_accepted := (blend (lg_accepted l) (lg_accepted l') B)(i \<mapsto> t)\<rparr>)"
      using ledger_step.accept [of "l\<lparr>lg_accepted := blend (lg_accepted l) (lg_accepted l') B\<rparr>" i t] none by simp
  qed
  have run2: "ledger_run (?l1\<lparr>lg_charged := lg_charged l\<rparr>) ?l2"
  proof (rule grow_map [OF le(2), where g = "\<lambda>m. ?l1\<lparr>lg_charged := m\<rparr>"])
    fix B i b
    assume "blend (lg_charged l) (lg_charged l') B i = None"
    then show "ledger_step (?l1\<lparr>lg_charged := blend (lg_charged l) (lg_charged l') B\<rparr>)
        (?l1\<lparr>lg_charged := (blend (lg_charged l) (lg_charged l') B)(i \<mapsto> b)\<rparr>)"
      using ledger_step.charge [of "?l1\<lparr>lg_charged := blend (lg_charged l) (lg_charged l') B\<rparr>" i b] by simp
  qed
  have run3: "ledger_run (?l2\<lparr>lg_settled := lg_settled l\<rparr>) ?l3"
  proof (rule grow_map [OF le(3), where g = "\<lambda>m. ?l2\<lparr>lg_settled := m\<rparr>"])
    fix B i b
    assume b: "lg_settled l' i = Some b" and none: "blend (lg_settled l) (lg_settled l') B i = None"
    obtain t where "lg_accepted l' i = Some t" "lg_charged l' i = Some b"
      using b ok unfolding ledger_ok_def by blast
    then show "ledger_step (?l2\<lparr>lg_settled := blend (lg_settled l) (lg_settled l') B\<rparr>)
        (?l2\<lparr>lg_settled := (blend (lg_settled l) (lg_settled l') B)(i \<mapsto> b)\<rparr>)"
      using ledger_step.settle [of "?l2\<lparr>lg_settled := blend (lg_settled l) (lg_settled l') B\<rparr>" i t b] none by simp
  qed
  have run4: "ledger_run (?l3\<lparr>lg_processed := lg_processed l \<union> {}\<rparr>)
      (?l3\<lparr>lg_processed := lg_processed l \<union> (lg_processed l' - lg_processed l)\<rparr>)"
  proof (rule grow [where f = "\<lambda>B. ?l3\<lparr>lg_processed := lg_processed l \<union> B\<rparr>"])
    fix B i
    assume "i \<in> lg_processed l' - lg_processed l" "i \<notin> B"
    then show "ledger_step (?l3\<lparr>lg_processed := lg_processed l \<union> B\<rparr>) (?l3\<lparr>lg_processed := lg_processed l \<union> insert i B\<rparr>)"
      using ledger_step.process [of i "?l3\<lparr>lg_processed := lg_processed l \<union> B\<rparr>"] by simp
  qed simp
  have run5: "ledger_run (?l4\<lparr>lg_owed := ?owed {}, lg_sent := lg_sent l \<union> {}\<rparr>)
      (?l4\<lparr>lg_owed := ?owed (lg_sent l' - lg_sent l), lg_sent := lg_sent l \<union> (lg_sent l' - lg_sent l)\<rparr>)"
  proof (rule grow [where f = "\<lambda>B. ?l4\<lparr>lg_owed := ?owed B, lg_sent := lg_sent l \<union> B\<rparr>"])
    fix B i
    assume "i \<in> lg_sent l' - lg_sent l" "i \<notin> B"
    moreover have "(?owed B)(i := None) = ?owed (insert i B)" by (simp add: fun_eq_iff)
    ultimately show "ledger_step (?l4\<lparr>lg_owed := ?owed B, lg_sent := lg_sent l \<union> B\<rparr>)
        (?l4\<lparr>lg_owed := ?owed (insert i B), lg_sent := lg_sent l \<union> insert i B\<rparr>)"
      using ledger_step.send [of i "?l4\<lparr>lg_owed := ?owed B, lg_sent := lg_sent l \<union> B\<rparr>"] by simp
  qed simp
  have run6: "ledger_run (?l5\<lparr>lg_owed := ?owed (lg_sent l' - lg_sent l)\<rparr>) (?l5\<lparr>lg_owed := lg_owed l'\<rparr>)"
  proof (rule grow_map [where g = "\<lambda>m. ?l5\<lparr>lg_owed := m\<rparr>"])
    show "?owed (lg_sent l' - lg_sent l) \<subseteq>\<^sub>m lg_owed l'"
      using owed old by (fastforce simp: map_le_def dom_def split: if_splits)
    fix B i e
    assume e: "lg_owed l' i = Some e" and none: "blend (?owed (lg_sent l' - lg_sent l)) (lg_owed l') B i = None"
    have "i \<notin> lg_sent l'" using e ok unfolding ledger_ok_def by blast
    then show "ledger_step (?l5\<lparr>lg_owed := blend (?owed (lg_sent l' - lg_sent l)) (lg_owed l') B\<rparr>)
        (?l5\<lparr>lg_owed := (blend (?owed (lg_sent l' - lg_sent l)) (lg_owed l') B)(i \<mapsto> e)\<rparr>)"
      using ledger_step.owe [of "?l5\<lparr>lg_owed := blend (?owed (lg_sent l' - lg_sent l)) (lg_owed l') B\<rparr>" i e] none by simp
  qed
  have "lg_processed l \<union> (lg_processed l' - lg_processed l) = lg_processed l'"
    "lg_sent l \<union> (lg_sent l' - lg_sent l) = lg_sent l'" using le by auto
  with run4 run5 have run4: "ledger_run ?l3 ?l4" and run5: "ledger_run ?l4 ?l5" by simp_all
  have last: "?l5\<lparr>lg_owed := lg_owed l'\<rparr> = l'" by (rule ledger.equality) simp_all
  have same: "?l5\<lparr>lg_owed := ?owed (lg_sent l' - lg_sent l)\<rparr> = ?l5" by (rule ledger.equality) simp_all
  have "ledger_run l ?l2" using run1 run2 by (simp add: rtranclp_trans [of ledger_step l ?l1 ?l2])
  also have "ledger_run ?l2 ?l3" using run3 by simp
  also note run4
  also note run5
  also have "ledger_run ?l5 l'" using run6 unfolding last same .
  finally show ?thesis .
qed

theorem guarantee_is_a_run:
  assumes "persists (d, out) (d', out')" and "tables_inv d' out'"
  shows "ledger_run (ledger_of (d, out)) (ledger_of (d', out'))"
proof (rule extends_run)
  show "extends (ledger_of (d, out)) (ledger_of (d', out'))" using assms(1) by (rule persists_extends)
  show "ledger_ok (ledger_of (d', out'))" using assms(2) by (rule ledger_of_ok)
  show "dom (lg_owed (ledger_of (d, out))) \<inter> lg_sent (ledger_of (d, out)) = {}"
    by (auto simp: ledger_of_def split: if_splits)
qed

end
