(* ===== verification/System.thy ===== *)
theory System
  imports Factory Ledger
begin

text \<open>
  The three processes together: the API answers requests, the publisher runs batches, the consumer handles
  deliveries, each with what \<open>src/factory.py\<close> builds for it, on one database and one broker. What one
  process relies on the others to do is what they do: \<open>peers_keep_rely\<close> closes the circle. The reachable
  states keep the invariant, and every run of the system is a run of the ledger.
\<close>

section \<open>What a process does\<close>

datatype operation = Request http_request | Delivery pydict inbound | Batch

text \<open>The environment, the web framework, the broker's answer to a ping, and the settings of a process.\<close>

record site =
  si_http :: http_rt
  si_ping :: "nat \<Rightarrow> exn + bool"
  si_settings :: settings

definition perform :: "env \<Rightarrow> site \<Rightarrow> operation \<Rightarrow> unit action" where
  "perform env site op =
     (let r = build_runtime env (si_settings site) None True
      in case op of
           Request rq \<Rightarrow> andthen (serve env (payment_api env (si_http site) (si_ping site) r) rq) (\<lambda>_. ret ())
         | Delivery body message \<Rightarrow> sb_handler (payment_consumer env) body message
         | Batch \<Rightarrow> andthen (publish_execute env (uc_publish (rn_use_cases r))) (\<lambda>_. ret ()))"

section \<open>Every operation keeps the guarantee\<close>

lemma closes_attempt: "closes m \<Longrightarrow> (\<And>e. closes (h e)) \<Longrightarrow> (\<And>x. closes (k x)) \<Longrightarrow> closes (attempt m h k)"
  unfolding closes_def attempt_def by (fastforce split: prod.splits sum.splits if_splits)

lemma closes_create: "closes (create_payment env c)"
  unfolding create_payment_def replay_existing_def Let_def
  by (intro closes_andthen closes_attempt) (auto intro!: closes_andthen split: option.split)

lemma sound_create: "rely env \<Longrightarrow> sound (create_payment env c)"
  by (rule outside_holds [OF hoare_weaken [OF holds_create_payment] closes_create]) simp_all

lemma sound_get: "rely env \<Longrightarrow> sound (get_payment env i)"
  by (rule sound_holds [OF safe_get_payment]) (simp_all add: get_payment_def)

lemma sound_reads [simp]: "sound (reads f)"
  by (rule hoare_weaken [OF service.hoare_reads [of "\<lambda>_ _. True"]]) simp_all

lemma sound_is_ready: "sound (is_ready env ping)"
  unfolding is_ready_def statement_def by (intro sound_attempt sound_andthen) simp_all

lemma sound_require: "sound m \<Longrightarrow> sound (require_api_key key rq m)"
  unfolding require_api_key_def by (intro sound_andthen) (auto split: option.split)

lemma sound_serve:
  assumes "rely env" and ready: "op_readiness (app_ops app) = Some (is_ready env ping)"
  shows "sound (serve env app rq)"
proof -
  have "sound (route_request env app rq)"
  proof -
    have "sound (post_payment env h key rq body)" for h key body
      unfolding post_payment_def
      by (auto intro!: sound_require sound_andthen sound_create [OF assms(1)] split: option.split request_body.split)
    moreover have "sound (read_payment env h key rq i)" for h key i
      unfolding read_payment_def
      by (auto intro!: sound_require sound_andthen sound_get [OF assms(1)] split: option.split)
    moreover have "sound (ops_endpoint (app_ops app) e)" for e
      unfolding ops_endpoint_def ready
      by (auto intro!: sound_andthen sound_is_ready split: option.split endpoint.split)
    ultimately show ?thesis by (simp add: route_request_def split: endpoint.split)
  qed
  then have "sound (error_boundary rid (registered_handlers (route_request env app rq)))" for rid
    unfolding error_boundary_def registered_handlers_def
    by (intro sound_attempt) (auto split: option.split)
  moreover have "sound (resolve_request_id env raw)" for raw
    by (auto simp: resolve_request_id_def Let_def intro!: sound_andthen split: option.split)
  ultimately show ?thesis
    unfolding serve_def access_log_def by (intro sound_andthen) auto
qed

lemma sound_perform:
  assumes "rely env"
  shows "sound (perform env site op)"
proof (cases op)
  case (Request rq)
  then show ?thesis
    unfolding perform_def Let_def
    by (auto intro!: sound_andthen sound_serve [OF assms] simp: payment_api_def)
next
  case (Delivery body message)
  then show ?thesis
    using sound_dispatch [OF assms]
    by (simp add: perform_def Let_def payment_consumer_def consumer_subscription_def register_subscriber_def)
next
  case Batch
  then show ?thesis
    unfolding perform_def Let_def by (auto intro!: sound_andthen sound_publish_execute [OF assms])
qed

section \<open>The other processes\<close>

text \<open>
  A peer is a process with its own environment that performs one operation on the shared state, from its
  first statement to its last; \<open>peer_env\<close> is the environment of a process whose others are peers, whose
  others are peers in turn.
\<close>

definition process_on :: "tables \<times> message list \<Rightarrow> world" where
  "process_on S = \<lparr>w_db = fst S, w_session = None, w_sent = snd S, w_posts = [], w_metrics = metrics_initial,
     w_settled = [], w_tick = 0\<rparr>"

definition peer_step :: "site \<Rightarrow> env \<times> operation \<Rightarrow> tables \<times> message list \<Rightarrow> tables \<times> message list" where
  "peer_step site p S = shared (snd (perform (fst p) site (snd p) (process_on S)))"

definition scans_all :: "env \<Rightarrow> bool" where
  "scans_all env \<longleftrightarrow> (\<forall>n rows. set (e_scan env n rows) = set rows)"

inductive peer_env :: "site \<Rightarrow> env \<Rightarrow> bool" for site where
  peer_env: "scans_all env \<Longrightarrow>
    (\<And>n S. \<exists>peers. (\<forall>p\<in>set peers. peer_env site (fst p)) \<and> e_others env n S = fold (peer_step site) peers S) \<Longrightarrow>
    peer_env site env"

lemma alone_peer: "scans_all env \<Longrightarrow> (\<And>n S. e_others env n S = S) \<Longrightarrow> peer_env site env"
  by (rule peer_env.intros) (auto intro: exI [of _ "[]"])

lemma peer_step_keeps:
  assumes "rely (fst p)" and "tables_inv d out" and "peer_step site p (d, out) = (d', out')"
  shows "tables_inv d' out' \<and> persists (d, out) (d', out')"
proof -
  have "idle (process_on (d, out))" using assms(2) by (simp add: idle_def good_def process_on_def)
  moreover obtain r w' where run: "perform (fst p) site (snd p) (process_on (d, out)) = (r, w')" by fastforce
  ultimately have "idle w'" "step (process_on (d, out)) w'"
    using hoareD [OF sound_perform [OF assms(1)] _ TrueI] by blast+
  moreover have "shared w' = (d', out')" using assms(3) run by (simp add: peer_step_def)
  ultimately show ?thesis by (auto simp: idle_def good_def step_def shared_def process_on_def)
qed

lemma peers_keep:
  assumes "\<forall>p\<in>set peers. rely (fst p)" and "tables_inv d out" and "fold (peer_step site) peers (d, out) = (d', out')"
  shows "tables_inv d' out' \<and> persists (d, out) (d', out')"
  using assms
proof (induction peers arbitrary: d out)
  case Nil
  then show ?case by simp
next
  case (Cons p peers)
  obtain d1 out1 where one: "peer_step site p (d, out) = (d1, out1)" by fastforce
  then have "tables_inv d1 out1" "persists (d, out) (d1, out1)"
    using peer_step_keeps [OF _ Cons.prems(2) one] Cons.prems(1) by simp_all
  moreover have "fold (peer_step site) peers (d1, out1) = (d', out')" using Cons.prems(3) one by simp
  ultimately show ?case using Cons.IH Cons.prems(1) persists_trans by fastforce
qed

lemma peer_env_rely: "peer_env site env \<Longrightarrow> rely env"
proof (induction rule: peer_env.induct)
  case (peer_env env)
  have "case e_others env n (d, out) of (d', out') \<Rightarrow> tables_inv d' out' \<and> persists (d, out) (d', out')"
    if inv: "tables_inv d out" for n d out
  proof -
    obtain peers where peers: "\<forall>p\<in>set peers. rely (fst p)" "e_others env n (d, out) = fold (peer_step site) peers (d, out)"
      using peer_env.IH by blast
    obtain d' out' where "fold (peer_step site) peers (d, out) = (d', out')" by fastforce
    with peers peers_keep [OF peers(1) inv] show ?thesis by simp
  qed
  with peer_env.hyps(1) show ?case by (simp add: rely_def scans_all_def)
qed

section \<open>The system\<close>

text \<open>
  A state is the world of the process that acts; a step is one operation, or the turn of another process,
  which sees the same database and broker and nothing else.
\<close>

inductive system_step :: "site \<Rightarrow> world \<Rightarrow> world \<Rightarrow> bool" for site where
  operate: "peer_env site env \<Longrightarrow> perform env site op w = (r, w') \<Longrightarrow> system_step site w w'"
| turn: "w_session w = None \<Longrightarrow> w_session w' = None \<Longrightarrow> shared w' = shared w \<Longrightarrow> system_step site w w'"

inductive_cases system_stepE: "system_step site w w'"

abbreviation system_run :: "site \<Rightarrow> world \<Rightarrow> world \<Rightarrow> bool" where
  "system_run site \<equiv> (system_step site)\<^sup>*\<^sup>*"

definition initial :: "world \<Rightarrow> bool" where
  "initial w \<longleftrightarrow> shared w = (empty_tables, []) \<and> w_session w = None"

definition reachable :: "site \<Rightarrow> world \<Rightarrow> bool" where
  "reachable site w \<longleftrightarrow> (\<exists>w0. initial w0 \<and> system_run site w0 w)"

lemma empty_tables_inv: "tables_inv empty_tables []"
  using empty_good by (simp add: good_def empty_world_def)

lemma initial_idle: "initial w \<Longrightarrow> idle w"
  using empty_tables_inv by (simp add: initial_def idle_def good_def shared_def)

lemma system_step_sound:
  assumes "system_step site w w'" and "idle w"
  shows "idle w' \<and> step w w'"
proof (rule system_stepE [OF assms(1)])
  fix env op r
  assume "peer_env site env" "perform env site op w = (r, w')"
  then show ?thesis
    using hoareD(1,2) [OF sound_perform [OF peer_env_rely] assms(2) TrueI] by blast
next
  assume "w_session w = None" "w_session w' = None" "shared w' = shared w"
  then show ?thesis using assms(2) by (simp add: idle_def good_def step_def shared_def)
qed

lemma system_run_sound: "system_run site w w' \<Longrightarrow> idle w \<Longrightarrow> idle w' \<and> step w w'"
proof (induction rule: rtranclp_induct)
  case (step w1 w2)
  then show ?case using system_step_sound [of site w1 w2] service.step_trans by blast
qed (simp add: service.step_refl)

lemma reachable_idle: "reachable site w \<Longrightarrow> idle w"
  unfolding reachable_def using initial_idle system_run_sound by blast

lemma system_run_ledger:
  assumes "system_run site w w'" and "idle w"
  shows "ledger_run (ledger_of (shared w)) (ledger_of (shared w'))"
proof -
  have "idle w'" "step w w'" using system_run_sound assms by blast+
  then show ?thesis
    using guarantee_is_a_run [of "w_db w" "w_sent w" "w_db w'" "w_sent w'"]
    by (simp add: step_def shared_def idle_def good_def)
qed

section \<open>An example\<close>

definition sample_settings :: settings where
  "sample_settings =
     \<lparr>st_database_url = ''postgresql'', st_rabbitmq_url = ''amqp'', st_api_key = ''secret'', st_webhook_timeout_seconds = 5,
      st_webhook_max_connections = 100, st_webhook_max_keepalive = 20, st_outbox_poll_interval_seconds = 1 / 2,
      st_outbox_batch_size = 50, st_outbox_max_publish_attempts = 8, st_outbox_retry_initial_seconds = 1,
      st_outbox_retry_cap_seconds = 60, st_outbox_claim_timeout_seconds = 60, st_outbox_retention_days = 3,
      st_log_level = ''INFO'', st_use_json_logs = True\<rparr>"

definition sample_site :: site where
  "sample_site = \<lparr>si_http = sample_http_rt, si_ping = (\<lambda>_. Inr True), si_settings = sample_settings\<rparr>"

lemma quiet_peer: "peer_env site quiet_env"
  by (rule alone_peer) (simp_all add: scans_all_def quiet_env_def)

text \<open>The request of the example creates its payment.\<close>

lemma sample_request_step:
  "\<exists>w' out. system_step sample_site empty_world w' \<and> on_record (w_db w') out \<and> po_key out = ''k-1''"
proof -
  let ?app = "payment_api quiet_env sample_http_rt (\<lambda>_. Inr True) (build_runtime quiet_env sample_settings None True)"
  have same: "route_request quiet_env ?app sample_request = route_request quiet_env sample_app sample_request"
    by (rule ext) (simp add: route_request_def sample_request_def payment_api_def sample_app_def sample_settings_def)
  then have same: "serve quiet_env ?app sample_request = serve quiet_env sample_app sample_request"
    by (simp add: serve_def)
  obtain resp entry w' where run: "serve quiet_env sample_app sample_request empty_world = (Inr (resp, entry), w')"
    and ok: "rp_status resp = 202"
    using sample_served by blast
  obtain req where req: "well_formed sample_app sample_request req ''k-1''" "to_input req ''k-1'' = sample_command"
    using sample_well_formed by blast
  obtain n out where create: "create_payment quiet_env (to_input req ''k-1'') (empty_world\<lparr>w_tick := n\<rparr>) =
      (Inr out, w'\<lparr>w_tick := w_tick w' - 1\<rparr>)"
    using served_creation [OF req(1) run ok] by blast
  have "good (empty_world\<lparr>w_tick := n\<rparr>)" using empty_good by simp
  from hoareD(3) [OF holds_create_payment [OF quiet_rely] this TrueI create]
  have "on_record (w_db w') out" "po_key out = ''k-1''" by (simp_all add: to_input_def)
  moreover have "perform quiet_env sample_site (Request sample_request) empty_world = (Inr (), w')"
    using run same by (simp add: perform_def Let_def sample_site_def andthen_def ret_def)
  then have "system_step sample_site empty_world w'" by (rule system_step.operate [OF quiet_peer])
  ultimately show ?thesis by blast
qed

lemma initial_empty: "initial empty_world"
  by (simp add: initial_def shared_def empty_world_def)

section \<open>Properties\<close>

text \<open>The assumption each process makes about the others is discharged by the others: an environment in
  which they perform operations of the service, with any faults, interleaved to any depth, keeps the
  invariant of the tables and takes back nothing on which a process relies.\<close>

lemma peers_keep_rely:
  assumes "peer_env site env" and "tables_inv d out" and "e_others env n (d, out) = (d', out')"
  shows "tables_inv d' out' \<and> persists (d, out) (d', out')"
proof -
  have "case e_others env n (d, out) of (d', out') \<Rightarrow> tables_inv d' out' \<and> persists (d, out) (d', out')"
    by (rule peer_env_rely [OF assms(1), unfolded rely_def, THEN conjunct1, THEN spec, THEN spec, THEN spec,
          THEN mp, OF assms(2)])
  then show ?thesis by (simp add: assms(3))
qed

lemma peers_keep_rely_witness:
  "\<exists>d' out'. peer_step sample_site (quiet_env, Request sample_request) (empty_tables, []) = (d', out') \<and>
     tables_inv d' out' \<and> persists (empty_tables, []) (d', out')"
proof -
  let ?env = "quiet_env\<lparr>e_others := (\<lambda>_. peer_step sample_site (quiet_env, Request sample_request))\<rparr>"
  have "peer_env sample_site ?env"
  proof (rule peer_env.intros)
    show "scans_all ?env" by (simp add: scans_all_def quiet_env_def)
    show "\<exists>peers. (\<forall>p\<in>set peers. peer_env sample_site (fst p)) \<and>
        e_others ?env n S = fold (peer_step sample_site) peers S" for n S
      by (rule exI [of _ "[(quiet_env, Request sample_request)]"]) (simp add: quiet_peer)
  qed
  moreover obtain d' out' where "e_others ?env 0 (empty_tables, []) = (d', out')" by fastforce
  ultimately show ?thesis
    using peers_keep_rely [of sample_site ?env empty_tables "[]" 0 d' out'] empty_tables_inv by auto
qed

text \<open>C2: In every reachable state of the system, whatever fails in whichever process, no two payments have
  the same id or idempotency key, every row is a valid payment, a settled one carries the outcome of its one
  recorded charge, what the outbox says is published is with the broker, and no transaction is left open.\<close>

theorem system_invariant:
  assumes "reachable site w"
  shows "distinct (map pr_id (t_payments (w_db w))) \<and> distinct (map pr_key (t_payments (w_db w))) \<and>
    distinct (map ch_payment_id (t_charges (w_db w))) \<and> w_session w = None \<and>
    (\<forall>r\<in>set (t_payments (w_db w)). \<exists>p. mapper_to_domain r = Inr p \<and> payment_ok p) \<and>
    (\<forall>r\<in>set (t_payments (w_db w)). row_terminal r \<longrightarrow>
       (\<exists>c. find_charge (w_db w) (pr_id r) = Some c \<and> pr_status r = status_value (outcome_status (ch_succeeded c)))) \<and>
    (\<forall>o'\<in>set (t_outbox (w_db w)). ow_published_at o' \<noteq> None \<longrightarrow> delivered (w_sent w) (ow_id o'))"
proof -
  have inv: "tables_inv (w_db w) (w_sent w)" and idle: "w_session w = None"
    using reachable_idle [OF assms] by (simp_all add: idle_def good_def)
  have "\<exists>p. mapper_to_domain r = Inr p \<and> payment_ok p" if "r \<in> set (t_payments (w_db w))" for r
    using inv that by (cases "mapper_to_domain r") (auto simp: tables_inv_def list_all_iff payment_row_ok_def)
  moreover have "\<exists>c. find_charge (w_db w) (pr_id r) = Some c \<and> pr_status r = status_value (outcome_status (ch_succeeded c))"
    if "r \<in> set (t_payments (w_db w))" "row_terminal r" for r
    using inv that by (auto simp: tables_inv_def list_all_iff settled_as_charged_def split: option.splits)
  ultimately show ?thesis
    using inv idle
    by (simp add: tables_inv_def payments.unique_def charges.unique_def list_all_iff published_is_sent_def)
qed

theorem system_invariant_witness:
  "\<exists>w :: world. t_payments (w_db w) \<noteq> [] \<and> distinct (map pr_key (t_payments (w_db w)))"
proof -
  obtain w out where "system_step sample_site empty_world w" and out: "on_record (w_db w) out"
    using sample_request_step by blast
  then have "reachable sample_site w" using initial_empty unfolding reachable_def by blast
  from system_invariant [OF this] have "distinct (map pr_key (t_payments (w_db w)))" by blast
  moreover have "t_payments (w_db w) \<noteq> []" using out by (auto simp: on_record_def find_payment_def split: option.splits)
  ultimately show ?thesis by blast
qed

text \<open>C3: The system refines the ledger: whatever the processes do, in any interleaving and with any faults,
  from any reachable state, is a run of the abstract machine that accepts a payment under a new key,
  charges it once, settles it once as charged, processes a message once, and owes an event until it is
  sent; nothing that was entered is ever taken back.\<close>

theorem system_refines_ledger:
  assumes "reachable site w" and "system_run site w w'"
  shows "ledger_run (ledger_of (shared w)) (ledger_of (shared w')) \<and>
    extends (ledger_of (shared w)) (ledger_of (shared w')) \<and> ledger_ok (ledger_of (shared w'))"
proof -
  have run: "ledger_run (ledger_of (shared w)) (ledger_of (shared w'))"
    using system_run_ledger assms reachable_idle by blast
  have "idle w'" using system_run_sound assms reachable_idle by blast
  then have "ledger_ok (ledger_of (shared w'))"
    using ledger_of_ok by (simp add: idle_def good_def shared_def)
  with run ledger_run_extends show ?thesis by blast
qed

theorem system_refines_ledger_witness:
  "\<exists>w'. system_run sample_site empty_world w' \<and> ledger_run empty_ledger (ledger_of (shared w'))"
proof -
  obtain w' where "system_step sample_site empty_world w'" using sample_request_step by blast
  then have run: "system_run sample_site empty_world w'" by blast
  have "reachable sample_site empty_world" using initial_empty unfolding reachable_def by blast
  from system_refines_ledger [OF this run]
  have "ledger_run (ledger_of (empty_tables, [])) (ledger_of (shared w'))"
    by (simp add: shared_def empty_world_def)
  with run show ?thesis unfolding ledger_of_empty by blast
qed

end
