(* ===== verification/Journey.thy ===== *)
theory Journey
  imports System "HOL-Library.Multiset"
begin

text \<open>
  A payment from end to end: created through the API, announced by the publisher, and settled and notified by
  the consumer. The lemmas put the runs of the three processes one after the other, without faults; the
  property says that at the end everything promised has happened, each thing once.
\<close>

section \<open>The consumer on a first delivery\<close>

lemma process_first_calm:
  assumes env: "calm env" and tables: "payments.unique (w_db w)" "distinct (map pr_key (t_payments (w_db w)))"
    and row: "find_payment (w_db w) i = Some row" "mapper_to_domain row = Inr p" "\<not> is_terminal p" "row_fits row"
    and new: "find_charge (w_db w) i = None" "\<not> remembered m w"
    and url: "webhook_url_new (p_webhook_url p) = Inr u"
    and answered: "e_post env (w_tick w + 25) = Responded s" "s div 100 = 2"
  shows "process_payment env (sql_gateway_charge env) i (Some m) w =
    (Inr (), w\<lparr>w_db := insert_inbox m (e_now env (w_tick w + 27)) (settled_tables env i (w_tick w + 3) (w_db w)),
       w_session := None, w_posts := w_posts w @ [payment_post (settled_payment env p (w_tick w + 3))],
       w_tick := w_tick w + 32\<rparr>)"
proof -
  let ?w1 = "w\<lparr>w_session := None, w_tick := w_tick w + 3\<rparr>"
  let ?q = "settled_payment env p (w_tick w + 3)"
  let ?w2 = "w\<lparr>w_db := settled_tables env i (w_tick w + 3) (w_db w), w_session := None, w_tick := w_tick w + 25\<rparr>"
  have charge: "charge_execute env (sql_gateway_charge env) i ?w1 = (Inr ?q, ?w2)"
    using charge_execute_calm [OF env, of ?w1 i row p] tables row new(1) by (simp add: add.assoc)
  have "p_webhook_url ?q = p_webhook_url p" by (simp add: settled_payment_def)
  moreover have "200 \<le> s" "s < 300" using answered(2) by presburger+
  ultimately have deliver: "deliver_webhook env ?q ?w2 =
      (Inr (), ?w2\<lparr>w_posts := w_posts w @ [payment_post ?q], w_tick := w_tick w + 26\<rparr>)"
    using url answered by (simp add: deliver_webhook_run raise_for_status_def)
  show ?thesis
    using new(2)
    by (simp add: process_payment_def andthen_def has_seen_calm [OF env] charge deliver remember_calm [OF env] add.commute)
qed

text \<open>What the event says is what the consumer acts on.\<close>

lemma event_parsed:
  "parse_payment_id rt (event_body m ty (payment_created_payload i)) = Inr i"
  "parse_outbox_id rt (event_body m ty (payment_created_payload i)) h = Some m"
proof -
  have "extract_payment_id rt (event_body m ty (payment_created_payload i)) = Some (uuid_str i)"
    by (rule extract_payment_id_event) (simp add: payment_created_payload_def dict_get_def)
  then show "parse_payment_id rt (event_body m ty (payment_created_payload i)) = Inr i"
    by (simp add: parse_payment_id_def parse_uuid_str)
qed (simp add: parse_outbox_id_def)

definition answers_2xx :: "env \<Rightarrow> bool" where
  "answers_2xx env \<longleftrightarrow> (\<forall>n. \<exists>s. e_post env n = Responded s \<and> s div 100 = 2)"

lemma first_delivery:
  assumes env: "calm env" "rely env" "answers_2xx env" and idle: "idle w"
    and row: "find_payment (w_db w) i = Some row" "mapper_to_domain row = Inr p" "\<not> is_terminal p" "row_fits row"
    and new: "find_charge (w_db w) i = None" "\<not> remembered m w"
    and url: "webhook_url_new (p_webhook_url p) = Inr u"
  shows "\<exists>q w'. dispatch env policy (sql_gateway_charge env) (event_body m ty (payment_created_payload i))
      \<lparr>in_body = Body_bytes raw, in_headers = h\<rparr> w = (Inr (), w') \<and>
    p_id q = i \<and> p_webhook_url q = p_webhook_url p \<and> is_terminal q \<and> stored q w' \<and>
    w_posts w' = w_posts w @ [payment_post q] \<and> remembered m w' \<and> w_settled w' = w_settled w @ [Ack] \<and> w_sent w' = w_sent w"
proof -
  let ?body = "event_body m ty (payment_created_payload i)"
  obtain rid n where rid: "parse_request_id env h w = (Inr rid, w\<lparr>w_tick := n\<rparr>)"
    using parse_request_id_run by blast
  let ?w0 = "w\<lparr>w_tick := n\<rparr>"
  have good0: "good ?w0" "w_session w = None" "tables_inv (w_db w) (w_sent w)"
    using idle by (simp_all add: idle_def good_def)
  obtain s where s: "e_post env (n + 25) = Responded s" "s div 100 = 2" using env(3) by (auto simp: answers_2xx_def)
  obtain w1 where run: "process_payment env (sql_gateway_charge env) i (Some m) ?w0 = (Inr (), w1)"
    and w1: "w_posts w1 = w_posts w @ [payment_post (settled_payment env p (n + 3))]"
      "w_settled w1 = w_settled w" "w_sent w1 = w_sent w"
    using process_first_calm [OF env(1), of ?w0 i row p m u s] good0(3) row new url s
    by (simp add: tables_inv_def remembered_def)
  from process_Inr [OF env(2) good0(1) run] w1(1) obtain q where q: "p_id q = i" "is_terminal q" "stored q w1"
    "w_posts w1 = w_posts w @ [payment_post q]" "remembered m w1"
    by auto
  have url_q: "p_webhook_url q = p_webhook_url p"
    using q(4) w1(1) by (simp add: payment_post_def settled_payment_def)
  let ?w' = "w1\<lparr>w_tick := w_tick w1 + 1, w_settled := w_settled w @ [Ack]\<rparr>"
  have "handle_message env (sql_gateway_charge env) ?body h w = (Inr (), w1)"
    by (simp add: handle_message_def andthen_def rid lift_exn_def event_parsed run)
  then have "dispatch env policy (sql_gateway_charge env) ?body \<lparr>in_body = Body_bytes raw, in_headers = h\<rparr> w = (Inr (), ?w')"
    by (simp add: dispatch_def andthen_def lift_exn_def encode_message_body_def attempt_def settle_run calmD [OF env(1)] w1(2))
  moreover have "stored q ?w'" "remembered m ?w'" using q(3,5) by (simp_all add: stored_def remembered_def)
  ultimately show ?thesis using q url_q w1 by (intro exI [of _ q] exI [of _ ?w']) simp
qed


section \<open>The publisher on a new event\<close>

text \<open>The outside world on a day without faults: every statement, publication and delivery succeeds.\<close>

definition fair_weather :: "env \<Rightarrow> bool" where
  "fair_weather env \<longleftrightarrow> calm env \<and> rely env \<and> answers_2xx env \<and>
     (\<forall>n rows. mset (e_scan env n rows) = mset rows) \<and> (\<forall>n i. \<not> e_locked env n i) \<and>
     (\<forall>i. e_jsonb env (payment_created_payload i) = Inr (payment_created_payload i))"

definition has_room :: "publish_outbox \<Rightarrow> tables \<Rightarrow> bool" where
  "has_room po d \<longleftrightarrow> int (length (t_outbox d)) < px_batch_size po \<and>
     list_all (\<lambda>r. is_json (PDict (ow_payload r))) (t_outbox d)"

lemma marked_other [simp]:
  "t_payments (marked env n recs v) = t_payments v" "t_inbox (marked env n recs v) = t_inbox v"
  "t_charges (marked env n recs v) = t_charges v"
  by (induction recs arbitrary: n v) (simp_all add: update_outbox_def)

lemma all_encodable:
  assumes "list_all (\<lambda>r. is_json (PDict (ow_payload r))) rows"
  shows "list_all (encodable rt) (map (\<lambda>r. to_claimed_record r t) rows)"
proof -
  have "encodable rt (to_claimed_record r t)" if "is_json (PDict (ow_payload r))" for r
  proof -
    have "is_json (PDict (r_payload (to_claimed_record r t)))" using that by (simp add: to_claimed_record_def)
    from codec_encode_total [OF this, of rt] show ?thesis by (auto simp: encodable_def)
  qed
  with assms show ?thesis by (auto simp: list_all_iff)
qed

lemma new_event_due:
  assumes env: "fair_weather env" and room: "has_room po (w_db w)"
    and row: "r \<in> set (t_outbox (w_db w))" "ow_status r = outbox_status_value NEW" "ow_available_at r = None"
  shows "r \<in> set (due_rows env po w)"
  unfolding due_rows_def
proof (rule claim_select_complete)
  have scan: "mset (e_scan env n rows) = mset rows" for n rows using env by (simp add: fair_weather_def)
  let ?scan = "e_scan env (w_tick w + 2) (t_outbox (w_db w))"
  show "set (t_outbox (w_db w)) \<subseteq> set ?scan" using mset_eq_setD [OF scan] by blast
  have "length (claim_select (e_scan env (w_tick w + 2)) l k now stale (w_db w)) \<le> length ?scan" for l k now stale
    by (simp add: claim_select_def) (rule min.coboundedI1, rule length_filter_le)
  also have "length ?scan = length (t_outbox (w_db w))" by (rule mset_eq_length [OF scan])
  also have "\<dots> < nat (px_batch_size po)" using room by (auto simp: has_room_def)
  finally show "length (claim_select (e_scan env (w_tick w + 2)) (e_locked env (w_tick w + 2)) (px_batch_size po)
      (e_now env (w_tick w)) (e_now env (w_tick w) - px_claim_timeout po) (w_db w)) < nat (px_batch_size po)" .
qed (use env row in \<open>simp_all add: fair_weather_def claim_filter_def claim_due_def\<close>)

text \<open>The message of an event names its row and says what the row says.\<close>

definition announces :: "pyrt \<Rightarrow> outbox_row \<Rightarrow> message \<Rightarrow> bool" where
  "announces rt r msg \<longleftrightarrow> m_routing_key msg = NEW_ROUTING_KEY \<and>
     m_headers msg = Some (event_headers (ow_id r) (ow_event_type r)) \<and>
     json_dumps rt (PDict (event_body (ow_id r) (ow_event_type r) (ow_payload r))) = Some (m_body msg)"

lemma event_message_announces:
  assumes "encodable rt (to_claimed_record r t)"
  shows "announces rt r (event_message rt (to_claimed_record r t))"
  using assms
  by (auto simp: announces_def event_message_def encodable_def codec_encode_def to_claimed_record_def
      publisher_message_def split: option.splits)

lemma publish_new_event:
  assumes env: "fair_weather env" and idle: "idle w" and room: "has_room po (w_db w)"
    and row: "r \<in> set (t_outbox (w_db w))" "ow_status r = outbox_status_value NEW" "ow_available_at r = None"
  shows "\<exists>n w' msg. publish_execute env po w = (Inr n, w') \<and> idle w' \<and> msg \<in> set (w_sent w') \<and>
    announces (e_rt env) r msg \<and> t_payments (w_db w') = t_payments (w_db w) \<and>
    t_inbox (w_db w') = t_inbox (w_db w) \<and> t_charges (w_db w') = t_charges (w_db w) \<and>
    w_posts w' = w_posts w \<and> w_settled w' = w_settled w"
proof -
  have calm: "calm env" and rely: "rely env" using env by (simp_all add: fair_weather_def)
  let ?rows = "due_rows env po (w\<lparr>w_tick := w_tick w + 1\<rparr>)" and ?now = "e_now env (w_tick w + 1)"
  let ?recs = "map (\<lambda>r. to_claimed_record r ?now) ?rows"
  have due: "r \<in> set ?rows" using new_event_due [OF env, of po "w\<lparr>w_tick := w_tick w + 1\<rparr>"] room row by simp
  have "set ?rows \<subseteq> set (t_outbox (w_db w))"
    using due_rows_inset [OF rely, of _ po "w\<lparr>w_tick := w_tick w + 1\<rparr>"] by auto
  then have enc: "list_all (encodable (e_rt env)) ?recs"
    using room by (intro all_encodable) (auto simp: has_room_def list_all_iff)
  have "0 \<le> px_batch_size po" "w_session w = None" "?rows \<noteq> []"
    using room idle due by (auto simp: has_room_def idle_def)
  then obtain ms n where run: "publish_execute env po w = (Inr (int (length ?recs)),
     w\<lparr>w_db := marked env (w_tick w + 9) ?recs
           (update_outbox (\<lambda>r. ow_id r \<in> ow_id ` set ?rows) (claimed_row ?now) (w_db w)),
       w_sent := w_sent w @ map (event_message (e_rt env)) ?recs, w_metrics := ms, w_tick := n\<rparr>)"
    (is "_ = (_, ?w')")
    using execute_calm [OF calm _ _ refl _ refl enc] by blast
  have "idle ?w'" using hoareD [OF sound_publish_execute [OF rely] idle TrueI run] by blast
  moreover have "encodable (e_rt env) (to_claimed_record r ?now)" using enc due by (auto simp: list_all_iff)
  then have "announces (e_rt env) r (event_message (e_rt env) (to_claimed_record r ?now))"
    by (rule event_message_announces)
  moreover have "event_message (e_rt env) (to_claimed_record r ?now) \<in> set (w_sent ?w')" using due by simp
  ultimately show ?thesis using run
    by (intro exI [of _ "int (length ?recs)"] exI [of _ ?w'] exI [of _ "event_message (e_rt env) (to_claimed_record r ?now)"])
      (simp add: update_outbox_def)
qed

section \<open>The API on a new request\<close>

text \<open>The event a creation in the world \<open>w\<close> writes, and a command that is new there.\<close>

definition planned_event :: "env \<Rightarrow> uuid \<Rightarrow> world \<Rightarrow> outbox_row" where
  "planned_event env i w =
     new_outbox_row (e_uuid env (w_tick w + 4)) PAYMENT_CREATED (payment_created_payload i) (e_now env (w_tick w))"

definition new_command :: "env \<Rightarrow> create_input \<Rightarrow> money \<Rightarrow> payment_row \<Rightarrow> world \<Rightarrow> bool" where
  "new_command env c money row w \<longleftrightarrow>
     valid_command c money \<and> mapper_to_model env (planned_payment env c money w) = Inr row \<and>
     find_payment (w_db w) (pr_id row) = None \<and> pr_key row \<notin> pr_key ` set (t_payments (w_db w)) \<and>
     find_charge (w_db w) (pr_id row) = None \<and>
     find_outbox (w_db w) (e_uuid env (w_tick w + 4)) = None \<and> \<not> remembered (e_uuid env (w_tick w + 4)) w"

lemma create_new_command:
  assumes env: "fair_weather env" and idle: "idle w" and new: "new_command env c money row w"
  shows "\<exists>w'. create_payment env c w = (Inr (from_payment (planned_payment env c money w)), w') \<and> idle w' \<and>
    w_db w' = (w_db w)\<lparr>t_payments := t_payments (w_db w) @ [row],
      t_outbox := t_outbox (w_db w) @ [planned_event env (pr_id row) w]\<rparr> \<and>
    w_sent w' = w_sent w \<and> w_posts w' = w_posts w \<and> w_settled w' = w_settled w"
proof -
  let ?v = "(w_db w)\<lparr>t_payments := t_payments (w_db w) @ [row],
      t_outbox := t_outbox (w_db w) @ [planned_event env (pr_id row) w]\<rparr>"
  have calm: "calm env" and rely: "rely env" using env by (simp_all add: fair_weather_def)
  have fits: "text_fits (Some 64) PAYMENT_CREATED" "text_fits (Some 16) (outbox_status_value NEW)" by code_simp+
  have "find_outbox ((w_db w)\<lparr>t_payments := ps\<rparr>) i = find_outbox (w_db w) i" for ps i by (simp add: find_outbox_def)
  then have "insert_outbox_rows env [planned_event env (pr_id row) w]
      ((w_db w)\<lparr>t_payments := t_payments (w_db w) @ [row]\<rparr>) = Inr ?v"
    using env new fits
    by (simp add: insert_outbox_row_def planned_event_def new_outbox_row_def fair_weather_def new_command_def)
  then have run: "create_payment env c w = (Inr (from_payment (planned_payment env c money w)),
     w\<lparr>w_db := ?v, w_session := None, w_tick := w_tick w + 8\<rparr>)" (is "_ = (_, ?w')")
    using new unfolding new_command_def planned_event_def by (intro create_new_calm [OF calm]) simp_all
  have "good ?w'"
    using hoareD(1) [OF holds_create_payment [OF rely] _ TrueI run] idle by (simp add: idle_def)
  then show ?thesis using run by (intro exI [of _ ?w']) (simp add: idle_def)
qed

lemma new_payment_domain:
  assumes idle: "idle w" and new: "new_command env c money row w"
  shows "\<exists>p. mapper_to_domain row = Inr p \<and> \<not> is_terminal p \<and> row_fits row \<and>
    p_id p = pr_id row \<and> p_webhook_url p = ci_webhook_url c \<and>
    webhook_url_new (p_webhook_url p) = Inr (p_webhook_url p)"
proof -
  let ?p = "planned_payment env c money w"
  have cmd: "valid_command c money" and row: "mapper_to_model env ?p = Inr row"
    using new by (simp_all add: new_command_def)
  have "payment_ok ?p"
    using cmd by (auto simp: payment_ok_def planned_payment_def payment_create_def valid_command_def intro: money_new_ok)
  from mapper_round_trip [OF row this] obtain extra
    where dom: "mapper_to_domain row = Inr (?p\<lparr>p_metadata := extra\<rparr>)" by blast
  have "pr_id row = p_id ?p" using row unfolding mapper_to_model_def by (elim mapper_apply_Inr) simp
  then show ?thesis
    using dom model_fits [OF row] cmd
    by (simp add: planned_payment_def payment_create_def is_terminal_def valid_command_def)
qed


section \<open>Properties\<close>



end
