(* ===== verification/Retries.thy ===== *)
theory Retries
  imports Journey
begin

text \<open>
  One message through all its attempts: a delivery whose webhook call fails for now goes to the retry queue,
  the broker brings it back with the same body, and the consumer tries again. The lemmas run the attempts one
  after the other; the properties say that a failure that passes heals, and where a message ends that fails for
  good.
\<close>

section \<open>The broker between two attempts\<close>

text \<open>
  A message comes back from the retry queue with its body and its headers, and with headers that the broker adds
  when it dead-letters it (\<open>added\<close>; \<open>x-death\<close> and the like). \<open>attempts_on\<close> is the consumer on one message: for every
  attempt the environment it runs in and the headers added after it.
\<close>

definition returned_headers :: "pydict \<Rightarrow> pydict option \<Rightarrow> pydict option" where
  "returned_headers added headers = Some (fold (\<lambda>(k, v) d. dict_set d k v) added (headers_of headers))"

fun attempts_on :: "(env \<times> pydict) list \<Rightarrow> pydict \<Rightarrow> string \<Rightarrow> pydict option \<Rightarrow> world \<Rightarrow> world" where
  "attempts_on [] body raw headers w = w"
| "attempts_on ((env, added) # later) body raw headers w =
     (let w' = snd (sb_handler (payment_consumer env) body \<lparr>in_body = Body_bytes raw, in_headers = headers\<rparr> w)
      in case drop (length (w_sent w)) (w_sent w') of
           [msg] \<Rightarrow>
             if m_routing_key msg = RETRY_ROUTING_KEY
             then attempts_on later body (m_body msg) (returned_headers added (m_headers msg)) w'
             else w'
         | _ \<Rightarrow> w')"

lemma map_of_returned:
  "RETRY_COUNT_HEADER \<notin> fst ` set added \<Longrightarrow>
   map_of (headers_of (returned_headers added headers)) RETRY_COUNT_HEADER = map_of (headers_of headers) RETRY_COUNT_HEADER"
proof -
  have "RETRY_COUNT_HEADER \<notin> fst ` set added \<Longrightarrow>
      map_of (fold (\<lambda>(k, v) d. dict_set d k v) added d) RETRY_COUNT_HEADER = map_of d RETRY_COUNT_HEADER" for d
    by (induction added arbitrary: d) (auto simp: map_of_dict_set)
  then show "RETRY_COUNT_HEADER \<notin> fst ` set added \<Longrightarrow> ?thesis"
    by (simp add: returned_headers_def headers_of_def)
qed

lemma parse_returned:
  "RETRY_COUNT_HEADER \<notin> fst ` set added \<Longrightarrow>
   parse_retry_count (returned_headers added (Some (retry_headers headers rc))) = Inr (rc + 1)"
  using map_of_returned [of added "Some (retry_headers headers rc)"] parse_retry_headers [of headers rc]
  by (simp add: parse_retry_count_def)

section \<open>One attempt\<close>

text \<open>The receiver of the webhook is out of order: whatever the call comes to, it is worth another attempt.\<close>

definition fails_for_now :: "env \<Rightarrow> bool" where
  "fails_for_now env \<longleftrightarrow>
     (\<forall>n. \<exists>e. post_result (e_post env n) = Inl e \<and> is_exception e \<and> is_retryable e)"

text \<open>The payment of a message that waits for its next attempt.\<close>

definition awaiting :: "payment \<Rightarrow> uuid \<Rightarrow> world \<Rightarrow> bool" where
  "awaiting q m w \<longleftrightarrow> idle w \<and> stored q w \<and> is_terminal q \<and> \<not> remembered m w"

abbreviation event_about :: "uuid \<Rightarrow> uuid \<Rightarrow> pydict" where
  "event_about m i \<equiv> event_body m PAYMENT_CREATED (payment_created_payload i)"

abbreviation delivery :: "string \<Rightarrow> pydict option \<Rightarrow> inbound" where
  "delivery raw headers \<equiv> \<lparr>in_body = Body_bytes raw, in_headers = headers\<rparr>"

lemma consumer_is_dispatch:
  "sb_handler (payment_consumer env) = dispatch env default_policy (sql_gateway_charge env)"
  by (simp add: payment_consumer_def consumer_subscription_def register_subscriber_def)

lemma process_fails:
  assumes env: "calm env" and new: "\<not> remembered m w"
    and charge: "charge_execute env g i (w\<lparr>w_session := None, w_tick := w_tick w + 3\<rparr>) = (Inr q, w1)"
    and url: "webhook_url_new (p_webhook_url q) = Inr u" and post: "post_result (e_post env (w_tick w1)) = Inl e"
  shows "process_payment env g i (Some m) w =
    (Inl e, w1\<lparr>w_posts := w_posts w1 @ [payment_post q], w_tick := w_tick w1 + 1\<rparr>)"
  using post
  by (auto simp: process_payment_def andthen_def has_seen_calm [OF env] new charge deliver_webhook_run url
      post_result_def split: post_outcome.splits sum.splits)

lemma dispatch_event:
  "\<exists>n. dispatch env default_policy g (event_about m i) (delivery raw headers) w =
     attempt (process_payment env g i (Some m)) (\<lambda>e. route_failure env default_policy raw (delivery raw headers) e)
       (\<lambda>_. settle env Ack) (w\<lparr>w_tick := n\<rparr>)"
proof -
  obtain rid n where "parse_request_id env headers w = (Inr rid, w\<lparr>w_tick := n\<rparr>)"
    using parse_request_id_run by blast
  then have "handle_message env g (event_about m i) headers w = process_payment env g i (Some m) (w\<lparr>w_tick := n\<rparr>)"
    by (simp add: handle_message_def andthen_def lift_exn_def event_parsed)
  then show ?thesis
    by (intro exI [of _ n]) (simp add: dispatch_def andthen_def lift_exn_def encode_message_body_def attempt_def)
qed

text \<open>Where a message goes whose attempt failed for now.\<close>

definition handed_to :: "string \<Rightarrow> pydict option \<Rightarrow> int \<Rightarrow> message" where
  "handed_to raw headers rc =
     (if rc \<le> 1 then retry_message raw headers rc (if rc \<le> 0 then 1 else 2) else dlq_message raw headers)"

lemma handed_to_body [simp]: "m_body (handed_to raw headers rc) = raw"
  by (simp add: handed_to_def retry_message_def dlq_message_def publisher_message_def)

lemma handed_to_retry:
  "rc \<le> 1 \<Longrightarrow> m_routing_key (handed_to raw headers rc) = RETRY_ROUTING_KEY \<and>
     m_headers (handed_to raw headers rc) = Some (retry_headers headers rc)"
  by (simp add: handed_to_def retry_message_def publisher_message_def)

lemma handed_to_dlq:
  "1 < rc \<Longrightarrow> m_routing_key (handed_to raw headers rc) = DLQ_ROUTING_KEY \<and> m_headers (handed_to raw headers rc) = headers"
  by (simp add: handed_to_def dlq_message_def publisher_message_def)

lemma failed_attempt:
  assumes env: "calm env" "rely env" and w: "idle w" and rc: "parse_retry_count headers = Inr rc"
    and failed: "\<And>n. \<exists>q e w1. P q \<and> process_payment env (sql_gateway_charge env) i (Some m) (w\<lparr>w_tick := n\<rparr>) = (Inl e, w1) \<and>
      is_exception e \<and> is_retryable e \<and> is_terminal q \<and> stored q w1 \<and> \<not> remembered m w1 \<and>
      w_posts w1 = w_posts w @ [payment_post q] \<and> w_sent w1 = w_sent w \<and> w_settled w1 = w_settled w"
  shows "\<exists>q w'. P q \<and> sb_handler (payment_consumer env) (event_about m i) (delivery raw headers) w = (Inr (), w') \<and>
    awaiting q m w' \<and> w_posts w' = w_posts w @ [payment_post q] \<and>
    w_sent w' = w_sent w @ [handed_to raw headers rc] \<and> w_settled w' = w_settled w @ [Ack]"
proof -
  obtain n where run: "dispatch env default_policy (sql_gateway_charge env) (event_about m i) (delivery raw headers) w =
      attempt (process_payment env (sql_gateway_charge env) i (Some m))
        (\<lambda>e. route_failure env default_policy raw (delivery raw headers) e) (\<lambda>_. settle env Ack) (w\<lparr>w_tick := n\<rparr>)"
    using dispatch_event by blast
  obtain q e w1 where q: "P q" "is_terminal q"
    and proc: "process_payment env (sql_gateway_charge env) i (Some m) (w\<lparr>w_tick := n\<rparr>) = (Inl e, w1)"
    "is_exception e" "is_retryable e"
    and w1: "stored q w1" "\<not> remembered m w1" "w_posts w1 = w_posts w @ [payment_post q]" "w_sent w1 = w_sent w"
      "w_settled w1 = w_settled w"
    using failed [of n] by blast
  let ?w' = "w1\<lparr>w_tick := w_tick w1 + 2, w_sent := w_sent w @ [handed_to raw headers rc], w_settled := w_settled w @ [Ack]\<rparr>"
  have disp: "dispatch env default_policy (sql_gateway_charge env) (event_about m i) (delivery raw headers) w = (Inr (), ?w')"
    using proc rc w1
    by (simp add: run attempt_def route_failure_def andthen_def lift_exn_def route_default_calm [OF env(1)] append_sent_def
        settle_run calmD [OF env(1)] handed_to_def)
  have "idle ?w'" using hoareD(1) [OF sound_dispatch [OF env(2)] w TrueI disp] .
  then have "awaiting q m ?w'" using w1 q by (simp add: awaiting_def stored_def remembered_def)
  then show ?thesis using disp w1 q(1) by (intro exI [of _ q] exI [of _ ?w']) (simp add: consumer_is_dispatch)
qed

lemma awaiting_attempt_fails:
  assumes env: "calm env" "rely env" "fails_for_now env" and w: "awaiting q m w"
    and url: "webhook_url_new (p_webhook_url q) = Inr u" and rc: "parse_retry_count headers = Inr rc"
  shows "\<exists>w'. sb_handler (payment_consumer env) (event_about m (p_id q)) (delivery raw headers) w = (Inr (), w') \<and>
    awaiting q m w' \<and> w_posts w' = w_posts w @ [payment_post q] \<and>
    w_sent w' = w_sent w @ [handed_to raw headers rc] \<and> w_settled w' = w_settled w @ [Ack]"
proof -
  have "\<exists>q' e w1. q' = q \<and> process_payment env (sql_gateway_charge env) (p_id q) (Some m) (w\<lparr>w_tick := n\<rparr>) = (Inl e, w1) \<and>
      is_exception e \<and> is_retryable e \<and> is_terminal q' \<and> stored q' w1 \<and> \<not> remembered m w1 \<and>
      w_posts w1 = w_posts w @ [payment_post q'] \<and> w_sent w1 = w_sent w \<and> w_settled w1 = w_settled w" for n
  proof -
    have st: "stored q (w\<lparr>w_tick := n\<rparr>)" "\<not> remembered m (w\<lparr>w_tick := n\<rparr>)" and q: "is_terminal q"
      using w by (simp_all add: awaiting_def stored_def remembered_def)
    obtain e where e: "post_result (e_post env (n + 6)) = Inl e" "is_exception e" "is_retryable e"
      using env(3) unfolding fails_for_now_def by blast
    then show ?thesis
      using process_settled_calm [OF env(1) st(1) q st(2) url] st q by (simp add: stored_def remembered_def)
  qed
  moreover have "idle w" using w by (simp add: awaiting_def)
  ultimately show ?thesis using failed_attempt [OF env(1,2) _ rc, of w "\<lambda>q'. q' = q" "p_id q" m raw] by blast
qed

lemma first_attempt_fails:
  assumes env: "calm env" "rely env" "fails_for_now env" and w: "idle w"
    and row: "find_payment (w_db w) i = Some row" "mapper_to_domain row = Inr p" "\<not> is_terminal p" "row_fits row"
    and new: "find_charge (w_db w) i = None" "\<not> remembered m w"
    and url: "webhook_url_new (p_webhook_url p) = Inr u" and rc: "parse_retry_count headers = Inr rc"
  shows "\<exists>q w'. (p_id q = i \<and> p_webhook_url q = p_webhook_url p) \<and>
    sb_handler (payment_consumer env) (event_about m i) (delivery raw headers) w = (Inr (), w') \<and>
    awaiting q m w' \<and> w_posts w' = w_posts w @ [payment_post q] \<and>
    w_sent w' = w_sent w @ [handed_to raw headers rc] \<and> w_settled w' = w_settled w @ [Ack]"
proof (rule failed_attempt [OF env(1,2) w rc])
  fix n
  let ?w0 = "w\<lparr>w_session := None, w_tick := n + 3\<rparr>" and ?q = "settled_payment env p (n + 3)"
  let ?w1 = "?w0\<lparr>w_db := settled_tables env i (n + 3) (w_db w), w_tick := n + 25\<rparr>"
  have good: "good ?w0" "payments.unique (w_db w)" "distinct (map pr_key (t_payments (w_db w)))"
    using w by (auto simp: idle_def good_def tables_inv_def)
  have charge: "charge_execute env (sql_gateway_charge env) i ?w0 = (Inr ?q, ?w1)"
    using charge_execute_calm [OF env(1), of ?w0 i row p] good row new(1) by (simp add: add.assoc)
  have q: "p_id ?q = i" "is_terminal ?q" "stored ?q ?w1"
    using hoareD(3) [OF holds_charge_execute [OF env(2) holds_sql_charge [OF env(2)]] good(1) TrueI charge refl] by auto
  have unseen: "\<not> remembered m (w\<lparr>w_tick := n\<rparr>)" "\<not> remembered m ?w1"
    using new(2) by (simp_all add: remembered_def find_inbox_def settled_tables_def Let_def)
  have url_q: "p_webhook_url ?q = p_webhook_url p" by (simp add: settled_payment_def)
  obtain e where e: "post_result (e_post env (n + 25)) = Inl e" "is_exception e" "is_retryable e"
    using env(3) unfolding fails_for_now_def by blast
  have "process_payment env (sql_gateway_charge env) i (Some m) (w\<lparr>w_tick := n\<rparr>) =
      (Inl e, ?w1\<lparr>w_posts := w_posts w @ [payment_post ?q], w_tick := n + 26\<rparr>)"
    using process_fails [OF env(1) unseen(1), of "sql_gateway_charge env" i ?q ?w1 u e] charge url url_q e(1) by simp
  then show "\<exists>q e w1. (p_id q = i \<and> p_webhook_url q = p_webhook_url p) \<and>
      process_payment env (sql_gateway_charge env) i (Some m) (w\<lparr>w_tick := n\<rparr>) = (Inl e, w1) \<and>
      is_exception e \<and> is_retryable e \<and> is_terminal q \<and> stored q w1 \<and> \<not> remembered m w1 \<and>
      w_posts w1 = w_posts w @ [payment_post q] \<and> w_sent w1 = w_sent w \<and> w_settled w1 = w_settled w"
    using e q unseen url_q by (intro exI conjI) (assumption | simp add: stored_def remembered_def)+
qed

lemma awaiting_attempt_succeeds:
  assumes env: "calm env" "rely env" "answers_2xx env" and w: "awaiting q m w"
    and url: "webhook_url_new (p_webhook_url q) = Inr u"
  shows "\<exists>w'. sb_handler (payment_consumer env) (event_about m (p_id q)) (delivery raw headers) w = (Inr (), w') \<and>
    idle w' \<and> stored q w' \<and> remembered m w' \<and> w_posts w' = w_posts w @ [payment_post q] \<and>
    w_sent w' = w_sent w \<and> w_settled w' = w_settled w @ [Ack]"
proof -
  obtain n where run: "dispatch env default_policy (sql_gateway_charge env) (event_about m (p_id q)) (delivery raw headers) w =
      attempt (process_payment env (sql_gateway_charge env) (p_id q) (Some m))
        (\<lambda>e. route_failure env default_policy raw (delivery raw headers) e) (\<lambda>_. settle env Ack) (w\<lparr>w_tick := n\<rparr>)"
    using dispatch_event by blast
  have st: "stored q (w\<lparr>w_tick := n\<rparr>)" "\<not> remembered m (w\<lparr>w_tick := n\<rparr>)" and q: "is_terminal q" and idle: "idle w"
    and good: "good (w\<lparr>w_tick := n\<rparr>)"
    using w by (simp_all add: awaiting_def stored_def remembered_def idle_def good_def)
  obtain s where "e_post env (n + 6) = Responded s" "s div 100 = 2" using env(3) by (auto simp: answers_2xx_def)
  moreover from this(2) have "200 \<le> s" "s < 300" by presburger+
  ultimately have "post_result (e_post env (n + 6)) = Inr ()" by (simp add: post_result_def raise_for_status_def)
  then obtain w1 where proc: "process_payment env (sql_gateway_charge env) (p_id q) (Some m) (w\<lparr>w_tick := n\<rparr>) = (Inr (), w1)"
    and w1: "w_posts w1 = w_posts w @ [payment_post q]" "w_sent w1 = w_sent w" "w_settled w1 = w_settled w"
    using process_settled_calm [OF env(1) st(1) q st(2) url] by simp
  have kept: "step (w\<lparr>w_tick := n\<rparr>) w1"
    using hoareD(2) [OF safe_process [OF env(2) holds_sql_charge [OF env(2)]] good TrueI proc] .
  let ?w' = "w1\<lparr>w_tick := w_tick w1 + 1, w_settled := w_settled w @ [Ack]\<rparr>"
  have "remembered m w1"
    using process_Inr [OF env(2) good proc] w1(1) by auto
  moreover have "stored q w1" using stored_step [OF kept st(1) q] .
  moreover have disp: "dispatch env default_policy (sql_gateway_charge env) (event_about m (p_id q)) (delivery raw headers) w = (Inr (), ?w')"
    using proc w1 by (simp add: run attempt_def settle_run calmD [OF env(1)])
  moreover have "idle ?w'" using hoareD(1) [OF sound_dispatch [OF env(2)] idle TrueI disp] .
  ultimately show ?thesis using w1 by (simp add: consumer_is_dispatch stored_def remembered_def)
qed

section \<open>All attempts\<close>

text \<open>An attempt without faults of the service or its peers, after which the broker leaves the retry count as it is.\<close>

definition fair_attempt :: "env \<times> pydict \<Rightarrow> bool" where
  "fair_attempt a \<longleftrightarrow> calm (fst a) \<and> rely (fst a) \<and> RETRY_COUNT_HEADER \<notin> fst ` set (snd a)"

definition failing_attempt :: "env \<times> pydict \<Rightarrow> bool" where
  "failing_attempt a \<longleftrightarrow> fair_attempt a \<and> fails_for_now (fst a)"

definition healing_attempt :: "env \<times> pydict \<Rightarrow> bool" where
  "healing_attempt a \<longleftrightarrow> fair_attempt a \<and> answers_2xx (fst a)"

definition to_retry :: "string \<Rightarrow> message \<Rightarrow> bool" where
  "to_retry raw msg \<longleftrightarrow> m_routing_key msg = RETRY_ROUTING_KEY \<and> m_body msg = raw"

definition parked :: "string \<Rightarrow> message \<Rightarrow> bool" where
  "parked raw msg \<longleftrightarrow> m_routing_key msg = DLQ_ROUTING_KEY \<and> m_body msg = raw"

text \<open>The payment of a message that was never attempted.\<close>

definition unattempted :: "payment \<Rightarrow> uuid \<Rightarrow> world \<Rightarrow> bool" where
  "unattempted p m w \<longleftrightarrow> idle w \<and> stored p w \<and> \<not> is_terminal p \<and> list_all row_fits (t_payments (w_db w)) \<and>
     find_charge (w_db w) (p_id p) = None \<and> \<not> remembered m w"

lemma attempts_retry:
  assumes "sb_handler (payment_consumer env) body (delivery raw headers) w = (r, w')"
    and "w_sent w' = w_sent w @ [handed_to raw headers rc]" and "rc \<le> 1"
  shows "attempts_on ((env, added) # later) body raw headers w =
    attempts_on later body raw (returned_headers added (Some (retry_headers headers rc))) w'"
  using assms handed_to_retry [OF assms(3), of raw headers] by simp

lemma attempts_stop:
  assumes "sb_handler (payment_consumer env) body (delivery raw headers) w = (r, w')"
    and "w_sent w' = w_sent w \<or> (\<exists>rc. w_sent w' = w_sent w @ [handed_to raw headers rc] \<and> 1 < rc)"
  shows "attempts_on ((env, added) # later) body raw headers w = w'"
  using assms handed_to_dlq [of _ raw headers]
  by (auto simp: RETRY_ROUTING_KEY_def DLQ_ROUTING_KEY_def)

lemma awaiting_heals:
  assumes "list_all failing_attempt failing" and "rc + int (length failing) \<le> 2" and "healing_attempt healed"
    and "awaiting q m w" and "webhook_url_new (p_webhook_url q) = Inr u" and "parse_retry_count headers = Inr rc"
  shows "\<exists>w' retries. attempts_on (failing @ [healed]) (event_about m (p_id q)) raw headers w = w' \<and>
    idle w' \<and> stored q w' \<and> remembered m w' \<and>
    w_posts w' = w_posts w @ replicate (Suc (length failing)) (payment_post q) \<and>
    w_settled w' = w_settled w @ replicate (Suc (length failing)) Ack \<and>
    w_sent w' = w_sent w @ retries \<and> length retries = length failing \<and> list_all (to_retry raw) retries"
  using assms
proof (induction failing arbitrary: w headers rc)
  case Nil
  obtain env added where a: "healed = (env, added)" by (cases healed)
  then have env: "calm env" "rely env" "answers_2xx env" using Nil.prems(3) by (simp_all add: healing_attempt_def fair_attempt_def)
  obtain w' where "sb_handler (payment_consumer env) (event_about m (p_id q)) (delivery raw headers) w = (Inr (), w')"
    and w': "idle w'" "stored q w'" "remembered m w'" "w_posts w' = w_posts w @ [payment_post q]"
    "w_sent w' = w_sent w" "w_settled w' = w_settled w @ [Ack]"
    using awaiting_attempt_succeeds [OF env Nil.prems(4,5)] by blast
  then have "attempts_on ([] @ [healed]) (event_about m (p_id q)) raw headers w = w'"
    unfolding a using attempts_stop by simp
  then show ?case using w' by (intro exI [of _ w'] exI [of _ "[]"]) simp
next
  case (Cons a failing)
  obtain env added where a: "a = (env, added)" by (cases a)
  then have env: "calm env" "rely env" "fails_for_now env" and added: "RETRY_COUNT_HEADER \<notin> fst ` set added"
    using Cons.prems(1) by (simp_all add: failing_attempt_def fair_attempt_def)
  obtain w1 where run: "sb_handler (payment_consumer env) (event_about m (p_id q)) (delivery raw headers) w = (Inr (), w1)"
    and w1: "awaiting q m w1" "w_posts w1 = w_posts w @ [payment_post q]"
      "w_sent w1 = w_sent w @ [handed_to raw headers rc]" "w_settled w1 = w_settled w @ [Ack]"
    using awaiting_attempt_fails [OF env Cons.prems(4-6)] by blast
  have rc: "rc \<le> 1" using Cons.prems(2) by simp
  let ?h = "returned_headers added (Some (retry_headers headers rc))"
  have "list_all failing_attempt failing" "(rc + 1) + int (length failing) \<le> 2" using Cons.prems(1,2) by simp_all
  from Cons.IH [OF this Cons.prems(3) w1(1) Cons.prems(5) parse_returned [OF added]]
  obtain w' retries where w': "attempts_on (failing @ [healed]) (event_about m (p_id q)) raw ?h w1 = w'"
    "idle w'" "stored q w'" "remembered m w'"
    "w_posts w' = w_posts w1 @ replicate (Suc (length failing)) (payment_post q)"
    "w_settled w' = w_settled w1 @ replicate (Suc (length failing)) Ack"
    "w_sent w' = w_sent w1 @ retries" "length retries = length failing" "list_all (to_retry raw) retries"
    by blast
  have "attempts_on ((a # failing) @ [healed]) (event_about m (p_id q)) raw headers w = w'"
    using attempts_retry [OF run w1(3) rc] w'(1) by (simp only: a append_Cons)
  moreover have "to_retry raw (handed_to raw headers rc)" using handed_to_retry [OF rc] by (simp add: to_retry_def)
  ultimately show ?case
    using w' w1 by (intro exI [of _ w'] exI [of _ "handed_to raw headers rc # retries"]) simp
qed

lemma awaiting_exhausted:
  assumes "list_all failing_attempt failing" and "rc + int (length failing) = 3" and "failing \<noteq> []"
    and "awaiting q m w" and "webhook_url_new (p_webhook_url q) = Inr u" and "parse_retry_count headers = Inr rc"
  shows "\<exists>w' retries msg. attempts_on failing (event_about m (p_id q)) raw headers w = w' \<and> awaiting q m w' \<and>
    w_posts w' = w_posts w @ replicate (length failing) (payment_post q) \<and>
    w_settled w' = w_settled w @ replicate (length failing) Ack \<and>
    w_sent w' = w_sent w @ retries @ [msg] \<and> Suc (length retries) = length failing \<and>
    list_all (to_retry raw) retries \<and> parked raw msg"
  using assms
proof (induction failing arbitrary: w headers rc)
  case (Cons a failing)
  obtain env added where a: "a = (env, added)" by (cases a)
  then have env: "calm env" "rely env" "fails_for_now env" and added: "RETRY_COUNT_HEADER \<notin> fst ` set added"
    using Cons.prems(1) by (simp_all add: failing_attempt_def fair_attempt_def)
  obtain w1 where run: "sb_handler (payment_consumer env) (event_about m (p_id q)) (delivery raw headers) w = (Inr (), w1)"
    and w1: "awaiting q m w1" "w_posts w1 = w_posts w @ [payment_post q]"
      "w_sent w1 = w_sent w @ [handed_to raw headers rc]" "w_settled w1 = w_settled w @ [Ack]"
    using awaiting_attempt_fails [OF env Cons.prems(4-6)] by blast
  show ?case
  proof (cases "failing = []")
    case True
    then have rc: "1 < rc" using Cons.prems(2) by simp
    then have "parked raw (handed_to raw headers rc)" using handed_to_dlq by (simp add: parked_def)
    moreover have "attempts_on (a # failing) (event_about m (p_id q)) raw headers w = w1"
      unfolding a using run w1(3) rc by (intro attempts_stop) auto
    ultimately show ?thesis
      using w1 True by (intro exI [of _ w1] exI [of _ "[]"] exI [of _ "handed_to raw headers rc"]) simp
  next
    case False
    then have "1 \<le> length failing" by (simp add: Suc_leI)
    then have rc: "rc \<le> 1" using Cons.prems(2) by simp
    let ?h = "returned_headers added (Some (retry_headers headers rc))"
    have "list_all failing_attempt failing" "(rc + 1) + int (length failing) = 3" using Cons.prems(1,2) by simp_all
    from Cons.IH [OF this False w1(1) Cons.prems(5) parse_returned [OF added]]
    obtain w' retries msg where w': "attempts_on failing (event_about m (p_id q)) raw ?h w1 = w'" "awaiting q m w'"
      "w_posts w' = w_posts w1 @ replicate (length failing) (payment_post q)"
      "w_settled w' = w_settled w1 @ replicate (length failing) Ack"
      "w_sent w' = w_sent w1 @ retries @ [msg]" "Suc (length retries) = length failing"
      "list_all (to_retry raw) retries" "parked raw msg"
      by blast
    have "attempts_on (a # failing) (event_about m (p_id q)) raw headers w = w'"
      using attempts_retry [OF run w1(3) rc] w'(1) by (simp only: a)
    moreover have "to_retry raw (handed_to raw headers rc)" using handed_to_retry [OF rc] by (simp add: to_retry_def)
    ultimately show ?thesis
      using w' w1 by (intro exI [of _ w'] exI [of _ "handed_to raw headers rc # retries"] exI [of _ msg]) simp
  qed
qed simp

text \<open>A settled payment was charged exactly once.\<close>

lemma charged_once:
  assumes "idle w" and "stored q w" and "is_terminal q"
  shows "length (filter (\<lambda>c. ch_payment_id c = p_id q) (t_charges (w_db w))) = 1"
proof -
  have inv: "tables_inv (w_db w) (w_sent w)" using assms(1) by (simp add: idle_def good_def)
  obtain row where row: "find_payment (w_db w) (p_id q) = Some row" "mapper_to_domain row = Inr q"
    using assms(2) by (auto simp: stored_def)
  have "row \<in> set (t_payments (w_db w))" "pr_id row = p_id q" using payments.lookup_key [OF row(1)] by simp_all
  moreover from this have "settled_as_charged (w_db w) row" using inv by (auto simp: tables_inv_def list_all_iff)
  moreover have "row_terminal row" using domain_status [OF row(2)] assms(3) by (auto simp: row_terminal_def is_terminal_def terminal_def)
  ultimately obtain c where "find_charge (w_db w) (p_id q) = Some c"
    by (auto simp: settled_as_charged_def split: option.splits)
  then have "c \<in> set (t_charges (w_db w))" "ch_payment_id c = p_id q" using charges.lookup_key by blast+
  moreover have "distinct (map ch_payment_id (t_charges (w_db w)))" using inv by (simp add: tables_inv_def charges.unique_def)
  ultimately show ?thesis using filter_eq_key_distinct by fastforce
qed

lemma unattempted_row:
  assumes "unattempted p m w"
  obtains row where "idle w" "find_payment (w_db w) (p_id p) = Some row" "mapper_to_domain row = Inr p"
    "\<not> is_terminal p" "row_fits row" "find_charge (w_db w) (p_id p) = None" "\<not> remembered m w"
proof -
  obtain row where row: "find_payment (w_db w) (p_id p) = Some row" "mapper_to_domain row = Inr p"
    using assms by (auto simp: unattempted_def stored_def)
  moreover have "row_fits row"
    using assms payments.lookup_key [OF row(1)] by (auto simp: unattempted_def list_all_iff)
  ultimately show thesis using assms by (intro that [of row]) (auto simp: unattempted_def)
qed

lemma first_attempt:
  assumes "failing_attempt (env, added)" and "unattempted p m w"
    and "webhook_url_new (p_webhook_url p) = Inr u" and "parse_retry_count headers = Inr 0"
  obtains q w1 where "p_id q = p_id p" "p_webhook_url q = p_webhook_url p" "awaiting q m w1"
    "attempts_on ((env, added) # later) (event_about m (p_id p)) raw headers w =
       attempts_on later (event_about m (p_id p)) raw (returned_headers added (Some (retry_headers headers 0))) w1"
    "parse_retry_count (returned_headers added (Some (retry_headers headers 0))) = Inr 1"
    "w_posts w1 = w_posts w @ [payment_post q]" "w_sent w1 = w_sent w @ [handed_to raw headers 0]"
    "w_settled w1 = w_settled w @ [Ack]" "to_retry raw (handed_to raw headers 0)"
proof -
  have env: "calm env" "rely env" "fails_for_now env" and added: "RETRY_COUNT_HEADER \<notin> fst ` set added"
    using assms(1) by (simp_all add: failing_attempt_def fair_attempt_def)
  obtain row where row: "idle w" "find_payment (w_db w) (p_id p) = Some row" "mapper_to_domain row = Inr p"
    "\<not> is_terminal p" "row_fits row" "find_charge (w_db w) (p_id p) = None" "\<not> remembered m w"
    using assms(2) by (rule unattempted_row)
  from first_attempt_fails [OF env row assms(3,4), of raw] obtain q w1
    where q: "p_id q = p_id p" "p_webhook_url q = p_webhook_url p"
    and run: "sb_handler (payment_consumer env) (event_about m (p_id p)) (delivery raw headers) w = (Inr (), w1)"
    and w1: "awaiting q m w1" "w_posts w1 = w_posts w @ [payment_post q]"
      "w_sent w1 = w_sent w @ [handed_to raw headers 0]" "w_settled w1 = w_settled w @ [Ack]"
    by blast
  show thesis
    using q w1 attempts_retry [OF run w1(3)] parse_returned [OF added, of headers 0] handed_to_retry [of 0 raw headers]
    by (intro that [of q w1]) (simp_all add: to_retry_def)
qed

section \<open>An example\<close>

text \<open>The payment of the example of \<open>CreatePayment\<close>, and a receiver that answers 503, or not at all.\<close>

definition broken_attempt :: "post_outcome \<Rightarrow> env \<times> pydict" where
  "broken_attempt outcome = (quiet_env\<lparr>e_post := \<lambda>_. outcome\<rparr>, [(''x-death'', PInt 1)])"

lemma broken_fails: "failing_attempt (broken_attempt (Responded 503))" "failing_attempt (broken_attempt Timed_out)"
proof -
  have "calm (quiet_env\<lparr>e_post := f\<rparr>)" "rely (quiet_env\<lparr>e_post := f\<rparr>)" for f
    by (simp_all add: calm_def rely_def quiet_env_def)
  moreover have "RETRY_COUNT_HEADER \<noteq> ''x-death''" by (simp add: RETRY_COUNT_HEADER_def)
  moreover have "\<exists>t. post_result (Responded 503) = Inl (TransientDependencyError t)"
    "\<exists>t. post_result Timed_out = Inl (TransientDependencyError t)"
    by (simp_all add: post_result_def raise_for_status_def map_timeout_def)
  ultimately show "failing_attempt (broken_attempt (Responded 503))" "failing_attempt (broken_attempt Timed_out)"
    by (auto simp: failing_attempt_def fair_attempt_def broken_attempt_def fails_for_now_def is_retryable_def is_exception_def)
qed

lemma quiet_heals: "healing_attempt (quiet_env, [])"
  using quiet_calm quiet_rely
  by (simp add: healing_attempt_def fair_attempt_def answers_2xx_def quiet_env_def)

lemma sample_unattempted: "unattempted sample_payment 5 sample_world"
proof -
  have "stored sample_payment sample_world"
    using sample_found sample_domain by (simp add: stored_def sample_pending)
  moreover have "\<not> remembered 5 sample_world"
    by (simp add: remembered_def sample_world_def sample_tables_def empty_tables_def find_inbox_def)
  ultimately show ?thesis
    using sample_good(1) sample_fits sample_uncharged sample_pending
    by (simp add: unattempted_def idle_def is_terminal_def terminal_def sample_world_def empty_world_def sample_tables_def)
qed

lemma sample_url: "webhook_url_new (p_webhook_url sample_payment) = Inr (p_webhook_url sample_payment)"
  using charged_url by (simp add: charged_payment_def)

lemma no_retries_yet: "parse_retry_count None = Inr 0" by (simp add: parse_retry_count_def headers_of_def)

section \<open>Properties\<close>

text \<open>C7: A failure that passes heals: a new message whose first one or two webhook calls fail for now (timeout,
  broken connection, 5xx) and whose next one succeeds ends with its payment settled and charged once, the same
  notification posted once per attempt, the message on record, and every delivery acknowledged; what went to the
  broker is one message to the retry queue for each failure.\<close>

theorem transient_failures_heal:
  assumes "list_all failing_attempt failing" and "length failing \<le> 2" and "healing_attempt healed"
    and "unattempted p m w" and "webhook_url_new (p_webhook_url p) = Inr u" and "parse_retry_count headers = Inr 0"
  shows "\<exists>q w' retries. attempts_on (failing @ [healed]) (event_about m (p_id p)) raw headers w = w' \<and>
    p_id q = p_id p \<and> p_webhook_url q = p_webhook_url p \<and> is_terminal q \<and> stored q w' \<and>
    length (filter (\<lambda>c. ch_payment_id c = p_id p) (t_charges (w_db w'))) = 1 \<and>
    w_posts w' = w_posts w @ replicate (Suc (length failing)) (payment_post q) \<and> remembered m w' \<and>
    w_settled w' = w_settled w @ replicate (Suc (length failing)) Ack \<and>
    w_sent w' = w_sent w @ retries \<and> length retries = length failing \<and> list_all (to_retry raw) retries"
proof (cases failing)
  case Nil
  obtain env added where a: "healed = (env, added)" by (cases healed)
  then have env: "calm env" "rely env" "answers_2xx env" using assms(3) by (simp_all add: healing_attempt_def fair_attempt_def)
  obtain row where row: "idle w" "find_payment (w_db w) (p_id p) = Some row" "mapper_to_domain row = Inr p"
    "\<not> is_terminal p" "row_fits row" "find_charge (w_db w) (p_id p) = None" "\<not> remembered m w"
    using assms(4) by (rule unattempted_row)
  from first_delivery [OF env row assms(5), of default_policy PAYMENT_CREATED raw headers] obtain q w'
    where run: "sb_handler (payment_consumer env) (event_about m (p_id p)) (delivery raw headers) w = (Inr (), w')"
    and q: "p_id q = p_id p" "p_webhook_url q = p_webhook_url p" "is_terminal q" "stored q w'"
      "w_posts w' = w_posts w @ [payment_post q]" "remembered m w'" "w_settled w' = w_settled w @ [Ack]" "w_sent w' = w_sent w"
    unfolding consumer_is_dispatch by blast
  have "idle w'"
    using hoareD(1) [OF sound_dispatch [OF env(2)] row(1) TrueI run [unfolded consumer_is_dispatch]] .
  then have "length (filter (\<lambda>c. ch_payment_id c = p_id p) (t_charges (w_db w'))) = 1"
    using charged_once [of w' q] q by simp
  moreover have "attempts_on (failing @ [healed]) (event_about m (p_id p)) raw headers w = w'"
    unfolding Nil a using attempts_stop [OF run] q(8) by simp
  ultimately show ?thesis using q Nil by (intro exI [of _ q] exI [of _ w'] exI [of _ "[]"]) simp
next
  case (Cons a later)
  obtain env added where a: "a = (env, added)" by (cases a)
  let ?h = "returned_headers added (Some (retry_headers headers 0))"
  obtain q w1 where q: "p_id q = p_id p" "p_webhook_url q = p_webhook_url p" and w1: "awaiting q m w1"
    and run: "attempts_on ((env, added) # later @ [healed]) (event_about m (p_id p)) raw headers w =
      attempts_on (later @ [healed]) (event_about m (p_id p)) raw ?h w1" "parse_retry_count ?h = Inr 1"
    and log1: "w_posts w1 = w_posts w @ [payment_post q]" "w_sent w1 = w_sent w @ [handed_to raw headers 0]"
      "w_settled w1 = w_settled w @ [Ack]" "to_retry raw (handed_to raw headers 0)"
    using assms(1,4-6) first_attempt [of env added p m w u headers "later @ [healed]" raw] unfolding Cons a by auto
  have "list_all failing_attempt later" "1 + int (length later) \<le> 2" "webhook_url_new (p_webhook_url q) = Inr u"
    using assms(1,2,5) Cons q(2) by simp_all
  from awaiting_heals [OF this(1,2) assms(3) w1 this(3) run(2), of raw]
  obtain w' retries where w': "attempts_on (later @ [healed]) (event_about m (p_id q)) raw ?h w1 = w'"
    "idle w'" "stored q w'" "remembered m w'"
    "w_posts w' = w_posts w1 @ replicate (Suc (length later)) (payment_post q)"
    "w_settled w' = w_settled w1 @ replicate (Suc (length later)) Ack"
    "w_sent w' = w_sent w1 @ retries" "length retries = length later" "list_all (to_retry raw) retries"
    by blast
  have "is_terminal q" using w1 by (simp add: awaiting_def)
  with w' q charged_once [OF w'(2,3)] log1 run(1) show ?thesis
    by (intro exI [of _ q] exI [of _ w'] exI [of _ "handed_to raw headers 0 # retries"]) (simp add: Cons a)
qed

theorem transient_failures_heal_witness:
  "\<exists>q w'. attempts_on [broken_attempt (Responded 503), broken_attempt Timed_out, (quiet_env, [])]
      (event_about 5 1) ''event'' None sample_world = w' \<and> is_terminal q \<and> remembered 5 w' \<and>
      w_posts w' = [payment_post q, payment_post q, payment_post q] \<and> w_settled w' = [Ack, Ack, Ack] \<and>
      length (w_sent w') = 2"
proof -
  let ?failing = "[broken_attempt (Responded 503), broken_attempt Timed_out]"
  have "list_all failing_attempt ?failing" "length ?failing \<le> 2" using broken_fails by simp_all
  from transient_failures_heal [OF this quiet_heals sample_unattempted sample_url no_retries_yet, of "''event''"]
  obtain q w' retries where "attempts_on [broken_attempt (Responded 503), broken_attempt Timed_out, (quiet_env, [])]
      (event_about 5 1) ''event'' None sample_world = w'" "is_terminal q" "remembered 5 w'"
    "w_posts w' = w_posts sample_world @ replicate 3 (payment_post q)" "w_settled w' = w_settled sample_world @ replicate 3 Ack"
    "w_sent w' = w_sent sample_world @ retries" "length retries = 2"
    by (auto simp: sample_pending numeral_3_eq_3)
  then show ?thesis
    by (intro exI [of _ q] exI [of _ w']) (simp add: sample_world_def empty_world_def numeral_3_eq_3)
qed

text \<open>C8: A message whose webhook fails for now at every attempt is given up after the third: its payment is settled
  and charged once all the same, the notification was posted three times, the message was twice in the retry queue
  and is now, with its body, in the dead-letter queue, and it is not on record, so that it can be replayed.\<close>

theorem exhausted_message_is_parked:
  assumes "list_all failing_attempt attempts" and "length attempts = 3"
    and "unattempted p m w" and "webhook_url_new (p_webhook_url p) = Inr u" and "parse_retry_count headers = Inr 0"
  shows "\<exists>q w' retries msg. attempts_on attempts (event_about m (p_id p)) raw headers w = w' \<and>
    p_id q = p_id p \<and> is_terminal q \<and> stored q w' \<and>
    length (filter (\<lambda>c. ch_payment_id c = p_id p) (t_charges (w_db w'))) = 1 \<and>
    w_posts w' = w_posts w @ replicate 3 (payment_post q) \<and> \<not> remembered m w' \<and>
    w_settled w' = w_settled w @ replicate 3 Ack \<and>
    w_sent w' = w_sent w @ retries @ [msg] \<and> length retries = 2 \<and> list_all (to_retry raw) retries \<and> parked raw msg"
proof -
  obtain a later where attempts: "attempts = a # later" "length later = 2"
    using assms(2) by (cases attempts) auto
  obtain env added where a: "a = (env, added)" by (cases a)
  let ?h = "returned_headers added (Some (retry_headers headers 0))"
  obtain q w1 where q: "p_id q = p_id p" "p_webhook_url q = p_webhook_url p" and w1: "awaiting q m w1"
    and run: "attempts_on ((env, added) # later) (event_about m (p_id p)) raw headers w =
      attempts_on later (event_about m (p_id p)) raw ?h w1" "parse_retry_count ?h = Inr 1"
    and log1: "w_posts w1 = w_posts w @ [payment_post q]" "w_sent w1 = w_sent w @ [handed_to raw headers 0]"
      "w_settled w1 = w_settled w @ [Ack]" "to_retry raw (handed_to raw headers 0)"
    using assms(1,3-5) first_attempt [of env added p m w u headers later raw] unfolding attempts a by auto
  have "list_all failing_attempt later" "1 + int (length later) = 3" "later \<noteq> []" "webhook_url_new (p_webhook_url q) = Inr u"
    using assms(1,4) attempts q(2) by auto
  from awaiting_exhausted [OF this(1-3) w1 this(4) run(2), of raw]
  obtain w' retries msg where w': "attempts_on later (event_about m (p_id q)) raw ?h w1 = w'" "awaiting q m w'"
    "w_posts w' = w_posts w1 @ replicate (length later) (payment_post q)"
    "w_settled w' = w_settled w1 @ replicate (length later) Ack"
    "w_sent w' = w_sent w1 @ retries @ [msg]" "Suc (length retries) = length later"
    "list_all (to_retry raw) retries" "parked raw msg"
    by blast
  have st: "idle w'" "stored q w'" "is_terminal q" "\<not> remembered m w'" using w'(2) by (simp_all add: awaiting_def)
  show ?thesis
    using w' st q charged_once [OF st(1-3)] log1 run(1) attempts
    by (intro exI [of _ q] exI [of _ w'] exI [of _ "handed_to raw headers 0 # retries"] exI [of _ msg])
      (simp add: a numeral_3_eq_3 numeral_2_eq_2)
qed

theorem exhausted_message_is_parked_witness:
  "\<exists>q w'. attempts_on [broken_attempt (Responded 503), broken_attempt Timed_out, broken_attempt (Responded 503)]
      (event_about 5 1) ''event'' None sample_world = w' \<and> is_terminal q \<and> w_posts w' = replicate 3 (payment_post q) \<and>
      w_settled w' = [Ack, Ack, Ack] \<and> length (w_sent w') = 3"
proof -
  have "list_all failing_attempt [broken_attempt (Responded 503), broken_attempt Timed_out, broken_attempt (Responded 503)]"
    using broken_fails by simp
  from exhausted_message_is_parked [OF this _ sample_unattempted sample_url no_retries_yet, of "''event''"]
  obtain q w' retries msg where "attempts_on [broken_attempt (Responded 503), broken_attempt Timed_out, broken_attempt (Responded 503)]
      (event_about 5 1) ''event'' None sample_world = w'" "is_terminal q"
    "w_posts w' = w_posts sample_world @ replicate 3 (payment_post q)" "w_settled w' = w_settled sample_world @ replicate 3 Ack"
    "w_sent w' = w_sent sample_world @ retries @ [msg]" "length retries = 2"
    by (auto simp: sample_pending)
  then show ?thesis
    by (intro exI [of _ q] exI [of _ w']) (simp add: sample_world_def empty_world_def numeral_3_eq_3)
qed

end
