(* ===== verification/Logging.thy ===== *)
theory Logging
  imports Factory
begin

text \<open>
  \<open>src/infrastructure/observability/logging.py\<close>: the processors every log line passes through and what the
  configurator does to the registry of loggers. The processors of structlog are parameters. The lemmas
  show which lines come out: with which level, once, and never from the access log of uvicorn.
\<close>

section \<open>Levels\<close>

definition LOG_DEBUG :: int where "LOG_DEBUG = 10"

text \<open>\<open>logging.getLevelName\<close> of a text: the level of that name; of any other it makes a text.\<close>

definition level_names :: "(string \<times> int) list" where
  "level_names =
     [(''CRITICAL'', 50), (''FATAL'', 50), (''ERROR'', LOG_ERROR), (''WARN'', LOG_WARNING),
      (''WARNING'', LOG_WARNING), (''INFO'', LOG_INFO), (''DEBUG'', LOG_DEBUG), (''NOTSET'', 0)]"

text \<open>
  \<open>_parse_log_level\<close>. Of the letters below 256 only those of ASCII become letters of a level's name by
  \<open>upper\<close>.
\<close>

definition parse_log_level :: "string \<Rightarrow> int" where
  "parse_log_level level =
     (case map_of level_names (map upper_ascii_char level) of Some number \<Rightarrow> number | None \<Rightarrow> LOG_INFO)"

section \<open>Processors\<close>

datatype processor =
    Merge_contextvars | Add_log_level | Add_logger_name | Positional_arguments | Extra_adder
  | Add_service string | Drop_none_values | Time_stamper | Stack_info_renderer | Unicode_decoder
  | Format_exc_info | Filter_by_level | Wrap_for_formatter | Remove_processors_meta
  | Json_renderer | Console_renderer

definition setdefault :: "pydict \<Rightarrow> string \<Rightarrow> pyval \<Rightarrow> pydict" where
  "setdefault d k v = (if map_of d k = None then d @ [(k, v)] else d)"

definition add_service :: "string \<Rightarrow> pydict \<Rightarrow> pydict" where
  "add_service service event_dict = setdefault event_dict ''service'' (PStr service)"

definition drop_none_values :: "pydict \<Rightarrow> pydict" where
  "drop_none_values event_dict = filter (\<lambda>(k, v). v \<noteq> PNone) event_dict"

definition shared_processors :: "string \<Rightarrow> processor list" where
  "shared_processors service =
     [Merge_contextvars, Add_log_level, Add_logger_name, Positional_arguments, Extra_adder,
      Add_service service, Drop_none_values, Time_stamper, Stack_info_renderer, Unicode_decoder]"

definition renderer :: "bool \<Rightarrow> processor" where
  "renderer use_json_logs = (if use_json_logs then Json_renderer else Console_renderer)"

text \<open>\<open>lib\<close> is what the processors of structlog do to the fields of a line.\<close>

definition run_processor :: "(processor \<Rightarrow> pydict \<Rightarrow> pydict) \<Rightarrow> processor \<Rightarrow> pydict \<Rightarrow> pydict" where
  "run_processor lib p event_dict =
     (case p of
        Add_service service \<Rightarrow> add_service service event_dict
      | Drop_none_values \<Rightarrow> drop_none_values event_dict
      | _ \<Rightarrow> lib p event_dict)"

definition run_chain :: "(processor \<Rightarrow> pydict \<Rightarrow> pydict) \<Rightarrow> processor list \<Rightarrow> pydict \<Rightarrow> pydict" where
  "run_chain lib ps event_dict = fold (run_processor lib) ps event_dict"

section \<open>The registry of loggers\<close>

record formatter =
  fm_processors :: "processor list"
  fm_foreign_pre_chain :: "processor list"

text \<open>A handler writes formatted lines to a stream.\<close>

record log_handler =
  lh_stream :: string
  lh_formatter :: formatter

record logger =
  lg_level :: int
  lg_handlers :: "log_handler list"
  lg_propagate :: bool
  lg_disabled :: bool

text \<open>The loggers of the process, by name, the chain structlog is configured with, and the root's name.\<close>

record logging =
  lr_loggers :: "string \<Rightarrow> logger"
  lr_structlog :: "processor list"

definition ROOT :: string where "ROOT = []"

definition NOISY_LOGGERS :: "string list" where
  "NOISY_LOGGERS = [''aio_pika'', ''aiormq'', ''httpcore'', ''httpx'', ''uvicorn.access'']"

definition change_logger :: "string \<Rightarrow> (logger \<Rightarrow> logger) \<Rightarrow> logging \<Rightarrow> logging" where
  "change_logger name f r = r\<lparr>lr_loggers := (lr_loggers r)(name := f (lr_loggers r name))\<rparr>"

text \<open>\<open>_configure_structlog\<close> also returns the processors that foreign lines pass through.\<close>

definition structlog_processors :: "bool \<Rightarrow> processor list \<Rightarrow> processor list" where
  "structlog_processors use_json_logs procs = procs @ (if use_json_logs then [Format_exc_info] else [])"

definition configure_structlog :: "bool \<Rightarrow> processor list \<Rightarrow> logging \<Rightarrow> logging" where
  "configure_structlog use_json_logs procs r =
     r\<lparr>lr_structlog := [Filter_by_level] @ structlog_processors use_json_logs procs @ [Wrap_for_formatter]\<rparr>"

definition configure_root_logger :: "string \<Rightarrow> processor list \<Rightarrow> processor \<Rightarrow> int \<Rightarrow> logging \<Rightarrow> logging" where
  "configure_root_logger stream procs rendering level =
     change_logger ROOT (\<lambda>l. l\<lparr>
       lg_handlers := [\<lparr>lh_stream = stream,
          lh_formatter = \<lparr>fm_processors = [Remove_processors_meta, rendering], fm_foreign_pre_chain = procs\<rparr>\<rparr>],
       lg_level := level\<rparr>)"

definition silence :: "string \<Rightarrow> logging \<Rightarrow> logging" where
  "silence name =
     change_logger name (\<lambda>l. l\<lparr>lg_handlers := [], lg_level := LOG_WARNING,
       lg_propagate := (name \<noteq> ''uvicorn.access''),
       lg_disabled := (if name = ''uvicorn.access'' then True else lg_disabled l)\<rparr>)"

definition silence_noisy_loggers :: "int \<Rightarrow> logging \<Rightarrow> logging" where
  "silence_noisy_loggers log_level r =
     fold silence NOISY_LOGGERS
       (change_logger ''sqlalchemy.engine''
          (\<lambda>l. l\<lparr>lg_level := (if log_level \<le> LOG_DEBUG then LOG_DEBUG else LOG_WARNING)\<rparr>) r)"

text \<open>\<open>configure\<close>; \<open>None\<close> for the stream is the standard output.\<close>

definition configure_logging :: "string \<Rightarrow> bool \<Rightarrow> string \<Rightarrow> string option \<Rightarrow> logging \<Rightarrow> logging" where
  "configure_logging level use_json_logs service stream r =
     (let log_level = parse_log_level level;
          procs = shared_processors service
      in silence_noisy_loggers log_level
           (configure_root_logger (case stream of Some s \<Rightarrow> s | None \<Rightarrow> ''<stdout>'')
              (structlog_processors use_json_logs procs) (renderer use_json_logs) log_level
              (configure_structlog use_json_logs procs r)))"

text \<open>\<open>Entrypoint.configure_logging\<close>.\<close>

definition entrypoint_logging :: "settings \<Rightarrow> string \<Rightarrow> logging \<Rightarrow> logging" where
  "entrypoint_logging s service = configure_logging (st_log_level s) (st_use_json_logs s) service None"

section \<open>Which lines come out\<close>

text \<open>
  The standard library: the ancestors of a logger are the dotted prefixes of its name, the root last; the
  effective level is the first one on the way that is set.
\<close>

fun ancestors :: "nat \<Rightarrow> string \<Rightarrow> string list" where
  "ancestors 0 name = [name]"
| "ancestors (Suc k) name =
     name # (if name = [] then [] else ancestors k (butlast (rstrip_by (\<lambda>c. c \<noteq> CHR ''.'') name)))"

definition lineage :: "string \<Rightarrow> string list" where
  "lineage name = ancestors (length name) name"

definition effective_level :: "logging \<Rightarrow> string \<Rightarrow> int" where
  "effective_level r name =
     (case find (\<lambda>n. lg_level (lr_loggers r n) \<noteq> 0) (lineage name) of
        Some n \<Rightarrow> lg_level (lr_loggers r n) | None \<Rightarrow> 0)"

fun handlers_of :: "logging \<Rightarrow> string list \<Rightarrow> log_handler list" where
  "handlers_of r [] = []"
| "handlers_of r (n # ns) =
     lg_handlers (lr_loggers r n) @ (if lg_propagate (lr_loggers r n) then handlers_of r ns else [])"

text \<open>The handlers that write a line of the level on the logger.\<close>

definition emitted :: "logging \<Rightarrow> string \<Rightarrow> int \<Rightarrow> log_handler list" where
  "emitted r name level =
     (if lg_disabled (lr_loggers r name) \<or> level < effective_level r name then []
      else handlers_of r (lineage name))"

section \<open>Facts\<close>

lemma parse_log_level_known:
  "parse_log_level level \<in> {50, 40, 30, 20, 10, 0}"
  by (auto simp: parse_log_level_def level_names_def LOG_INFO_def LOG_ERROR_def LOG_WARNING_def LOG_DEBUG_def
      split: option.split if_splits)

lemma map_of_filter_value:
  "distinct (map fst d) \<Longrightarrow> map_of (filter (\<lambda>(k, v). P v) d) k = (case map_of d k of Some v \<Rightarrow> if P v then Some v else None | None \<Rightarrow> None)"
  by (induction d) (force split: option.split dest: map_of_SomeD)+

text \<open>
  Our two processors: no field is \<open>None\<close>, the other fields are kept, and the service is named unless the
  line says otherwise.
\<close>

lemma own_processors:
  assumes "distinct (map fst d)"
  shows "map_of (drop_none_values (add_service service d)) k =
    (case map_of d k of
       Some v \<Rightarrow> if v = PNone then None else Some v
     | None \<Rightarrow> if k = ''service'' then Some (PStr service) else None)"
proof -
  have "distinct (map fst (add_service service d))"
    using assms by (auto simp: add_service_def setdefault_def map_of_eq_None_iff)
  then show ?thesis
    by (auto simp: drop_none_values_def map_of_filter_value add_service_def setdefault_def map_add_def
        split: option.split)
qed

lemma change_logger_simps [simp]:
  "lr_loggers (change_logger n f r) m = (if m = n then f (lr_loggers r n) else lr_loggers r m)"
  "lr_structlog (change_logger n f r) = lr_structlog r"
  by (simp_all add: change_logger_def)

text \<open>What the configurator leaves behind.\<close>

lemma configured:
  fixes level json service stream r
  defines "r' \<equiv> configure_logging level json service stream r"
  shows "lr_loggers r' ROOT = (lr_loggers r ROOT)\<lparr>
      lg_handlers := [\<lparr>lh_stream = (case stream of Some s \<Rightarrow> s | None \<Rightarrow> ''<stdout>''),
        lh_formatter = \<lparr>fm_processors = [Remove_processors_meta, renderer json],
          fm_foreign_pre_chain = structlog_processors json (shared_processors service)\<rparr>\<rparr>],
      lg_level := parse_log_level level\<rparr>"
    and "lr_loggers r' ''sqlalchemy.engine'' = (lr_loggers r ''sqlalchemy.engine'')\<lparr>
      lg_level := (if parse_log_level level \<le> LOG_DEBUG then LOG_DEBUG else LOG_WARNING)\<rparr>"
    and "name \<in> set NOISY_LOGGERS \<Longrightarrow> lr_loggers r' name = (lr_loggers r name)\<lparr>
      lg_handlers := [], lg_level := LOG_WARNING, lg_propagate := (name \<noteq> ''uvicorn.access''),
      lg_disabled := (name = ''uvicorn.access'' \<or> lg_disabled (lr_loggers r name))\<rparr>"
    and "name \<notin> {ROOT, ''sqlalchemy.engine''} \<union> set NOISY_LOGGERS \<Longrightarrow> lr_loggers r' name = lr_loggers r name"
    and "lr_structlog r' = [Filter_by_level] @ structlog_processors json (shared_processors service) @ [Wrap_for_formatter]"
  by (auto simp: r'_def configure_logging_def Let_def silence_noisy_loggers_def NOISY_LOGGERS_def silence_def
      configure_root_logger_def configure_structlog_def ROOT_def)

text \<open>Configuring twice is configuring once.\<close>

lemma configure_again:
  "configure_logging level json service stream (configure_logging level json service stream r) =
   configure_logging level json service stream r"
proof -
  let ?c = "configure_logging level json service stream"
  have "lr_loggers (?c (?c r)) name = lr_loggers (?c r) name" for name
  proof (cases "name \<in> {ROOT, ''sqlalchemy.engine''} \<union> set NOISY_LOGGERS")
    case True
    then consider "name = ROOT" | "name = ''sqlalchemy.engine''" | "name \<in> set NOISY_LOGGERS" by blast
    then show ?thesis by cases (simp_all add: configured)
  next
    case False
    then show ?thesis by (simp add: configured(4))
  qed
  then have "lr_loggers (?c (?c r)) = lr_loggers (?c r)" by blast
  moreover have "lr_structlog (?c (?c r)) = lr_structlog (?c r)" by (simp add: configured)
  ultimately show ?thesis by (rule logging.equality) simp
qed

text \<open>uvicorn's access log is silent: the service writes its own.\<close>

lemma access_log_silent: "emitted (configure_logging level json service stream r) ''uvicorn.access'' n = []"
  by (simp add: emitted_def configured(3) NOISY_LOGGERS_def)

text \<open>A line of a library's logger comes out from \<open>WARNING\<close> on only, whatever the level of the service.\<close>

lemma noisy_threshold:
  assumes "name \<in> set NOISY_LOGGERS" and "n < LOG_WARNING"
  shows "emitted (configure_logging level json service stream r) name n = []"
proof -
  have "lineage name \<noteq> []" "hd (lineage name) = name"
    by (cases "length name"; simp add: lineage_def)+
  then obtain rest where "lineage name = name # rest" by (cases "lineage name") auto
  then show ?thesis using assms by (simp add: emitted_def effective_level_def configured(3) LOG_WARNING_def)
qed

text \<open>The way from a logger to the root, which is its last stop.\<close>

lemma rstrip_by_length: "length (rstrip_by P s) \<le> length s"
  using length_dropWhile_le [of P "rev s"] by (simp add: rstrip_by_def)

lemma ancestors_root:
  "length name \<le> k \<Longrightarrow> \<exists>ms. ancestors k name = ms @ [ROOT] \<and> ROOT \<notin> set ms"
proof (induction k arbitrary: name)
  case 0
  then show ?case by (simp add: ROOT_def)
next
  case (Suc k)
  show ?case
  proof (cases "name = []")
    case True
    then show ?thesis by (simp add: ROOT_def)
  next
    case False
    let ?up = "butlast (rstrip_by (\<lambda>c. c \<noteq> CHR ''.'') name)"
    have "length ?up \<le> k" using Suc.prems rstrip_by_length [of "\<lambda>c. c \<noteq> CHR ''.''" name] by simp
    from Suc.IH [OF this] obtain ms where "ancestors k ?up = ms @ [ROOT]" "ROOT \<notin> set ms" by blast
    with False show ?thesis by (intro exI [of _ "name # ms"]) (simp add: ROOT_def)
  qed
qed

lemma lineage_root: "\<exists>ms. lineage name = ms @ [ROOT] \<and> ROOT \<notin> set ms"
  unfolding lineage_def by (rule ancestors_root) simp

lemma lineage_head: "\<exists>ms. lineage name = name # ms"
  by (cases "length name") (simp_all add: lineage_def)

text \<open>A logger nobody has configured, as \<open>getLogger\<close> makes it, and so the ones above it.\<close>

definition unconfigured :: "logging \<Rightarrow> string \<Rightarrow> bool" where
  "unconfigured r name \<longleftrightarrow>
     (\<forall>m\<in>set (lineage name). m \<notin> {''sqlalchemy.engine''} \<union> set NOISY_LOGGERS \<and>
        (if m = ROOT then \<not> lg_disabled (lr_loggers r m)
         else lr_loggers r m = \<lparr>lg_level = 0, lg_handlers = [], lg_propagate = True, lg_disabled = False\<rparr>))"

definition root_handler :: "string \<Rightarrow> bool \<Rightarrow> log_handler" where
  "root_handler service use_json_logs =
     \<lparr>lh_stream = ''<stdout>'',
      lh_formatter = \<lparr>fm_processors = [Remove_processors_meta, renderer use_json_logs],
        fm_foreign_pre_chain = structlog_processors use_json_logs (shared_processors service)\<rparr>\<rparr>"

lemma handlers_of_plain:
  "list_all (\<lambda>m. lg_handlers (lr_loggers r m) = [] \<and> lg_propagate (lr_loggers r m)) ms \<Longrightarrow>
   handlers_of r (ms @ ns) = handlers_of r ns"
  by (induction ms) simp_all

lemma unconfigured_emitted:
  assumes "unconfigured r name"
  shows "emitted (configure_logging level json service None r) name n =
    (if n < parse_log_level level then [] else [root_handler service json])"
proof -
  let ?r = "configure_logging level json service None r"
  obtain ms where way: "lineage name = ms @ [ROOT]" "ROOT \<notin> set ms" using lineage_root by blast
  have plain: "lr_loggers ?r m = \<lparr>lg_level = 0, lg_handlers = [], lg_propagate = True, lg_disabled = False\<rparr>"
    if "m \<in> set ms" for m
  proof -
    have "m \<noteq> ROOT" using that way(2) by blast
    moreover from this have "m \<notin> {ROOT, ''sqlalchemy.engine''} \<union> set NOISY_LOGGERS"
      "lr_loggers r m = \<lparr>lg_level = 0, lg_handlers = [], lg_propagate = True, lg_disabled = False\<rparr>"
      using assms that way(1) by (auto simp: unconfigured_def)
    ultimately show ?thesis by (simp add: configured(4))
  qed
  have root: "lg_level (lr_loggers ?r ROOT) = parse_log_level level"
    "lg_handlers (lr_loggers ?r ROOT) = [root_handler service json]" "\<not> lg_disabled (lr_loggers ?r ROOT)"
    using assms way by (simp_all add: unconfigured_def configured(1) root_handler_def)
  have "find (\<lambda>m. lg_level (lr_loggers ?r m) \<noteq> 0) ms = None" using plain by (simp add: find_None_iff)
  then have "find (\<lambda>m. lg_level (lr_loggers ?r m) \<noteq> 0) (ms @ [ROOT]) =
      (if parse_log_level level \<noteq> 0 then Some ROOT else None)"
    using root(1) by (induction ms) (auto split: if_splits)
  then have "effective_level ?r name = parse_log_level level" by (simp add: effective_level_def way root(1))
  moreover have "handlers_of ?r (lineage name) = [root_handler service json]"
    using plain handlers_of_plain [of ?r ms "[ROOT]"] root(2) by (simp add: way list_all_iff)
  moreover have "name \<in> set (lineage name)" using lineage_head [of name] by auto
  then have "\<not> lg_disabled (lr_loggers ?r name)" using plain root(3) way by auto
  ultimately show ?thesis by (simp add: emitted_def)
qed

lemma noisy_emitted:
  assumes "name \<in> set NOISY_LOGGERS" and "\<not> lg_disabled (lr_loggers r name)"
  shows "emitted (configure_logging level json service None r) name n =
    (if name = ''uvicorn.access'' \<or> n < LOG_WARNING then [] else [root_handler service json])"
proof (cases "name = ''uvicorn.access''")
  case True
  then show ?thesis by (simp add: access_log_silent)
next
  case False
  have "name \<in> {''aio_pika'', ''aiormq'', ''httpcore'', ''httpx''}"
    using assms(1) False by (auto simp: NOISY_LOGGERS_def)
  moreover have "\<forall>m\<in>{''aio_pika'', ''aiormq'', ''httpcore'', ''httpx''}. lineage m = [m, ROOT]" by code_simp
  ultimately have "lineage name = [name, ROOT]" by blast
  then show ?thesis
    using assms False
    by (simp add: emitted_def effective_level_def configured(1,3) root_handler_def LOG_WARNING_def)
qed

section \<open>Properties\<close>

text \<open>C40: A log line comes out once: on a logger that nobody else has configured, every line from the level
  of the settings on is written by one handler, with the renderer the settings ask for, and no line below
  it; the libraries' loggers write from WARNING on only, the access log of uvicorn nothing at all; and
  configuring again changes nothing.\<close>

theorem lines_come_out_once:
  assumes "unconfigured r name"
  shows "emitted (entrypoint_logging s service r) name n =
      (if n < parse_log_level (st_log_level s) then [] else [root_handler service (st_use_json_logs s)]) \<and>
    (\<forall>library\<in>set NOISY_LOGGERS. \<not> lg_disabled (lr_loggers r library) \<longrightarrow>
      emitted (entrypoint_logging s service r) library n =
        (if library = ''uvicorn.access'' \<or> n < LOG_WARNING then [] else [root_handler service (st_use_json_logs s)])) \<and>
    entrypoint_logging s service (entrypoint_logging s service r) = entrypoint_logging s service r"
  using unconfigured_emitted [OF assms] noisy_emitted
  by (simp add: entrypoint_logging_def configure_again)

definition fresh_logging :: logging where
  "fresh_logging = \<lparr>lr_loggers = (\<lambda>_. \<lparr>lg_level = 0, lg_handlers = [], lg_propagate = True, lg_disabled = False\<rparr>),
     lr_structlog = []\<rparr>"

definition sample_log_settings :: settings where
  "sample_log_settings = \<lparr>st_database_url = [], st_rabbitmq_url = [], st_api_key = ''k'',
     st_webhook_timeout_seconds = 5, st_webhook_max_connections = 100, st_webhook_max_keepalive = 20,
     st_outbox_poll_interval_seconds = 1 / 2, st_outbox_batch_size = 50, st_outbox_max_publish_attempts = 8,
     st_outbox_retry_initial_seconds = 1, st_outbox_retry_cap_seconds = 60,
     st_outbox_claim_timeout_seconds = 60, st_outbox_retention_days = 3, st_log_level = ''warning'',
     st_use_json_logs = True\<rparr>"

theorem lines_come_out_once_witness:
  "emitted (entrypoint_logging sample_log_settings ''payment-api'' fresh_logging) ''presentation.http'' 30 =
     [root_handler ''payment-api'' True] \<and>
   emitted (entrypoint_logging sample_log_settings ''payment-api'' fresh_logging) ''presentation.http'' 29 = []"
proof -
  have "lineage ''presentation.http'' = [''presentation.http'', ''presentation'', ROOT]" by code_simp
  then have "unconfigured fresh_logging ''presentation.http''"
    by (simp add: unconfigured_def fresh_logging_def NOISY_LOGGERS_def ROOT_def)
  note once = lines_come_out_once [OF this, of sample_log_settings "''payment-api''"]
  have "parse_log_level (st_log_level sample_log_settings) = 30" by code_simp
  then show ?thesis using once [of 30] once [of 29] by (simp add: sample_log_settings_def)
qed

end
