(* ===== verification/Entry.thy ===== *)
theory Entry
  imports Logging
begin

text \<open>
  \<open>create_app\<close> of \<open>src/presentation/api.py\<close>, \<open>publisher.py\<close> and \<open>consumer.py\<close>: from the variables of the environment to the
  three processes. The lemmas show that a process that starts has read valid settings, logs under its own
  name, and stops the broker only if it owns it.
\<close>

text \<open>\<open>Entrypoint.runtime_from_env\<close>: the logging is configured before the runtime is built.\<close>

definition entrypoint_runtime ::
    "env \<Rightarrow> setting_source \<Rightarrow> string \<Rightarrow> bool \<Rightarrow> (logging, runtime) prog" where
  "entrypoint_runtime env src service owns_broker r =
     (case settings_from_env src of
        Inl e \<Rightarrow> (Inl e, r)
      | Inr s \<Rightarrow> (Inr (build_runtime env s None owns_broker), entrypoint_logging s service r))"

definition API_SERVICE :: string where "API_SERVICE = ''payment-api''"
definition PUBLISHER_SERVICE :: string where "PUBLISHER_SERVICE = ''outbox-publisher''"
definition CONSUMER_SERVICE :: string where "CONSUMER_SERVICE = ''payment-consumer''"

definition api_from_env ::
    "env \<Rightarrow> http_rt \<Rightarrow> (nat \<Rightarrow> exn + bool) \<Rightarrow> setting_source \<Rightarrow> (logging, http_app \<times> resources) prog" where
  "api_from_env env h ping src =
     andthen (entrypoint_runtime env src API_SERVICE True) (\<lambda>r. ret (payment_api env h ping r, rn_resources r))"

definition publisher_from_env ::
    "env \<Rightarrow> (nat \<Rightarrow> exn + bool) \<Rightarrow> setting_source \<Rightarrow> (logging, (relay \<times> backoff) \<times> publish_outbox \<times> ops \<times> resources) prog" where
  "publisher_from_env env ping src =
     andthen (entrypoint_runtime env src PUBLISHER_SERVICE True) (\<lambda>r.
       ret (publisher_relay r, uc_publish (rn_use_cases r), publisher_ops env ping r, rn_resources r))"

definition consumer_from_env :: "env \<Rightarrow> setting_source \<Rightarrow> (logging, subscription \<times> resources) prog" where
  "consumer_from_env env src =
     andthen (entrypoint_runtime env src CONSUMER_SERVICE False) (\<lambda>r. ret (payment_consumer env, rn_resources r))"

lemmas from_env_defs =
  api_from_env_def publisher_from_env_def consumer_from_env_def entrypoint_runtime_def andthen_def ret_def

lemma settings_required:
  assumes "settings_from_env src = Inl e"
  shows "api_from_env env h ping src r = (Inl e, r)" and "publisher_from_env env ping src r = (Inl e, r)"
    and "consumer_from_env env src r = (Inl e, r)"
  by (simp_all add: from_env_defs assms)

text \<open>
  The relay waits exactly when a batch was smaller than what the use case asks for: both have the batch
  size of the settings. Only the consumer leaves the broker to FastStream.
\<close>

lemma publisher_parts:
  assumes "publisher_from_env env ping src r = (Inr ((relay, b), po, o', res), r')"
  shows "rl_batch_size relay = px_batch_size po" and "rs_owns_broker res"
  using assms
  by (auto simp: from_env_defs publisher_relay_def relay_new_def build_runtime_def create_resources_def
      create_use_cases_def publish_outbox_new_def resources_new_def Let_def split: sum.splits)

lemma broker_owners:
  "api_from_env env h ping src r = (Inr (app, res), r') \<Longrightarrow> rs_owns_broker res"
  "consumer_from_env env src r = (Inr (sub, res'), r'') \<Longrightarrow> res' = consumer_resources"
  by (auto simp: from_env_defs build_runtime_def create_resources_def resources_new_def consumer_resources_def
      split: sum.splits)

end
