(* ===== verification/Schema.thy ===== *)
theory Schema
  imports Prelude PyTime PyValue
begin

text \<open>
  The part of PostgreSQL's data definition language that \<open>src/alembic/versions\<close> and the models of
  \<open>src/infrastructure/persistence/models\<close> use: typed columns, keys, partial indexes, and the operations on a
  database with rows. The lemmas show that the operations keep the rows well typed, and which of them
  undo each other.
\<close>

section \<open>Types and values\<close>

datatype sql_type =
  Uuid_type | Numeric_type nat nat | String_type nat | Text_type | Jsonb_type | Timestamptz_type |
  Integer_type | Boolean_type

text \<open>A \<open>NUMERIC\<close> is its value in units of its last digit.\<close>

datatype sql_value =
  Null | V_uuid uuid | V_numeric int | V_text string | V_json pydict | V_time time | V_int int | V_bool bool

fun has_type :: "sql_value \<Rightarrow> sql_type \<Rightarrow> bool" where
  "has_type (V_uuid _) Uuid_type = True"
| "has_type (V_numeric n) (Numeric_type p s) = (\<bar>n\<bar> < 10 ^ p)"
| "has_type (V_text t) (String_type n) = (length t \<le> n)"
| "has_type (V_text _) Text_type = True"
| "has_type (V_json _) Jsonb_type = True"
| "has_type (V_time _) Timestamptz_type = True"
| "has_type (V_int n) Integer_type = (- 2147483648 \<le> n \<and> n \<le> 2147483647)"
| "has_type (V_bool _) Boolean_type = True"
| "has_type _ _ = False"

record column =
  cl_name :: string
  cl_type :: sql_type
  cl_nullable :: bool
  cl_default :: "sql_value option"

definition column :: "string \<Rightarrow> sql_type \<Rightarrow> bool \<Rightarrow> column" where
  "column name ty nullable = \<lparr>cl_name = name, cl_type = ty, cl_nullable = nullable, cl_default = None\<rparr>"

type_synonym row = "string \<rightharpoonup> sql_value"

record table =
  tt_columns :: "column list"
  tt_primary :: "string list"
  tt_unique :: "(string \<times> string list) list"
  tt_rows :: "row list"

text \<open>The predicate of a partial index, and the columns an index is about.\<close>

datatype predicate = Is_null string | In_list string "string list"

fun predicate_column :: "predicate \<Rightarrow> string" where
  "predicate_column (Is_null c) = c"
| "predicate_column (In_list c _) = c"

record index =
  ix_table :: string
  ix_columns :: "string list"
  ix_where :: predicate

record database =
  db_tables :: "string \<rightharpoonup> table"
  db_indexes :: "string \<rightharpoonup> index"

definition empty_database :: database where
  "empty_database = \<lparr>db_tables = Map.empty, db_indexes = Map.empty\<rparr>"

section \<open>Operations\<close>

type_synonym ddl = "database \<Rightarrow> exn + database"

definition programming_error :: exn where "programming_error = ForeignError ''ProgrammingError''"

definition create_table :: "string \<Rightarrow> column list \<Rightarrow> string list \<Rightarrow> (string \<times> string list) list \<Rightarrow> ddl" where
  "create_table name columns primary unique d =
     (if db_tables d name \<noteq> None then Inl programming_error
      else Inr (d\<lparr>db_tables := (db_tables d)(name \<mapsto>
        \<lparr>tt_columns = columns, tt_primary = primary, tt_unique = unique, tt_rows = []\<rparr>)\<rparr>))"

text \<open>The indexes of a table go with it.\<close>

definition drop_table :: "string \<Rightarrow> ddl" where
  "drop_table name d =
     (case db_tables d name of
        None \<Rightarrow> Inl programming_error
      | Some _ \<Rightarrow> Inr (d\<lparr>db_tables := (db_tables d)(name := None),
          db_indexes := (\<lambda>i. case db_indexes d i of
             None \<Rightarrow> None | Some x \<Rightarrow> if ix_table x = name then None else Some x)\<rparr>))"

definition create_index :: "string \<Rightarrow> string \<Rightarrow> string list \<Rightarrow> predicate \<Rightarrow> ddl" where
  "create_index name tab columns condition d =
     (if db_indexes d name \<noteq> None \<or> db_tables d tab = None then Inl programming_error
      else Inr (d\<lparr>db_indexes := (db_indexes d)(name \<mapsto>
        \<lparr>ix_table = tab, ix_columns = columns, ix_where = condition\<rparr>)\<rparr>))"

definition drop_index :: "string \<Rightarrow> ddl" where
  "drop_index name d =
     (if db_indexes d name = None then Inl programming_error
      else Inr (d\<lparr>db_indexes := (db_indexes d)(name := None)\<rparr>))"

definition change_table :: "string \<Rightarrow> (table \<Rightarrow> exn + table) \<Rightarrow> ddl" where
  "change_table name f d =
     (case db_tables d name of
        None \<Rightarrow> Inl programming_error
      | Some t \<Rightarrow> bind_exn (f t) (\<lambda>t'. Inr (d\<lparr>db_tables := (db_tables d)(name \<mapsto> t')\<rparr>)))"

text \<open>The rows that are there get the default, or \<open>NULL\<close> if the column allows it.\<close>

definition initial_value :: "column \<Rightarrow> sql_value" where
  "initial_value c = (case cl_default c of None \<Rightarrow> Null | Some v \<Rightarrow> v)"

definition extend_table :: "column \<Rightarrow> table \<Rightarrow> exn + table" where
  "extend_table c t =
     (if cl_name c \<in> cl_name ` set (tt_columns t) then Inl programming_error
      else if initial_value c = Null \<and> \<not> cl_nullable c \<and> tt_rows t \<noteq> []
      then Inl (IntegrityError None ''column contains null values'')
      else Inr (t\<lparr>tt_columns := tt_columns t @ [c],
                  tt_rows := map (\<lambda>r. r(cl_name c \<mapsto> initial_value c)) (tt_rows t)\<rparr>))"

definition add_column :: "string \<Rightarrow> column \<Rightarrow> ddl" where
  "add_column tab c = change_table tab (extend_table c)"

definition shrink_table :: "string \<Rightarrow> table \<Rightarrow> exn + table" where
  "shrink_table name t =
     (if name \<notin> cl_name ` set (tt_columns t) then Inl programming_error
      else Inr (t\<lparr>tt_columns := filter (\<lambda>c. cl_name c \<noteq> name) (tt_columns t),
                  tt_primary := (if name \<in> set (tt_primary t) then [] else tt_primary t),
                  tt_unique := filter (\<lambda>(_, cs). name \<notin> set cs) (tt_unique t),
                  tt_rows := map (\<lambda>r. r(name := None)) (tt_rows t)\<rparr>))"

text \<open>Constraints and indexes that mention the column go with it.\<close>

definition drop_column :: "string \<Rightarrow> string \<Rightarrow> ddl" where
  "drop_column tab name d =
     bind_exn (change_table tab (shrink_table name) d) (\<lambda>d'.
       Inr (d'\<lparr>db_indexes := (\<lambda>i. case db_indexes d' i of
          None \<Rightarrow> None
        | Some x \<Rightarrow> if ix_table x = tab \<and> (name \<in> set (ix_columns x) \<or> predicate_column (ix_where x) = name)
                    then None else Some x)\<rparr>))"

text \<open>\<open>UPDATE tab SET name = v WHERE P\<close>.\<close>

definition update_where :: "string \<Rightarrow> string \<Rightarrow> sql_value \<Rightarrow> (row \<Rightarrow> bool) \<Rightarrow> ddl" where
  "update_where tab name v P =
     change_table tab (\<lambda>t.
       if name \<notin> cl_name ` set (tt_columns t) then Inl programming_error
       else Inr (t\<lparr>tt_rows := map (\<lambda>r. if P r then r(name \<mapsto> v) else r) (tt_rows t)\<rparr>))"

fun run_ddl :: "ddl list \<Rightarrow> ddl" where
  "run_ddl [] d = Inr d"
| "run_ddl (op # ops) d = bind_exn (op d) (run_ddl ops)"

section \<open>Well-typed rows\<close>

definition column_ok :: "row \<Rightarrow> column \<Rightarrow> bool" where
  "column_ok r c \<longleftrightarrow>
     (case r (cl_name c) of
        None \<Rightarrow> False
      | Some v \<Rightarrow> if v = Null then cl_nullable c else has_type v (cl_type c))"

definition row_ok :: "column list \<Rightarrow> row \<Rightarrow> bool" where
  "row_ok cs r \<longleftrightarrow> dom r = cl_name ` set cs \<and> list_all (column_ok r) cs"

definition keys :: "table \<Rightarrow> string list list" where
  "keys t = tt_primary t # map snd (tt_unique t)"

definition unique_key :: "column list \<Rightarrow> row list \<Rightarrow> string list \<Rightarrow> bool" where
  "unique_key cs rs key \<longleftrightarrow> set key \<subseteq> cl_name ` set cs \<and> distinct (map (\<lambda>r. map r key) rs)"

definition table_ok :: "table \<Rightarrow> bool" where
  "table_ok t \<longleftrightarrow>
     distinct (map cl_name (tt_columns t)) \<and> list_all (row_ok (tt_columns t)) (tt_rows t) \<and>
     list_all (unique_key (tt_columns t) (tt_rows t)) (keys t)"

text \<open>What is declared of a table, its rows aside.\<close>

definition declared :: "table \<Rightarrow> column list \<times> string list \<times> (string \<times> string list) list" where
  "declared t = (tt_columns t, tt_primary t, tt_unique t)"

definition value_ok :: "column \<Rightarrow> sql_value \<Rightarrow> bool" where
  "value_ok c v \<longleftrightarrow> (if v = Null then cl_nullable c else has_type v (cl_type c))"

lemma keys_simps [simp]:
  "keys (t\<lparr>tt_rows := rs\<rparr>) = keys t" "keys (t\<lparr>tt_columns := cs\<rparr>) = keys t"
  by (simp_all add: keys_def)

lemma unique_key_map:
  assumes "unique_key cs rs key" and "set cs \<subseteq> set cs'" and "\<And>r k. r \<in> set rs \<Longrightarrow> k \<in> set key \<Longrightarrow> f r k = r k"
  shows "unique_key cs' (map f rs) key"
proof -
  have "map (\<lambda>r. map r key) (map f rs) = map (\<lambda>r. map r key) rs" using assms(3) by simp
  moreover have "cl_name ` set cs \<subseteq> cl_name ` set cs'" using assms(2) by (rule image_mono)
  ultimately show ?thesis using assms(1) by (auto simp: unique_key_def simp del: map_map)
qed

lemma extended_row_ok:
  assumes "row_ok cs r" and "cl_name c \<notin> cl_name ` set cs" and "value_ok c v"
  shows "row_ok (cs @ [c]) (r(cl_name c \<mapsto> v))"
proof -
  have "column_ok (r(cl_name c \<mapsto> v)) c'" if "c' \<in> set cs" for c'
    using that assms(1,2) by (auto simp: row_ok_def column_ok_def list_all_iff image_iff)
  then show ?thesis
    using assms by (auto simp: row_ok_def list_all_iff column_ok_def value_ok_def)
qed

text \<open>A table with a new column, whatever the rows have in it, is well typed again.\<close>

lemma extended_table_ok:
  assumes "table_ok t" and "cl_name c \<notin> cl_name ` set (tt_columns t)" and "\<And>r. value_ok c (f r)"
  shows "table_ok (t\<lparr>tt_columns := tt_columns t @ [c], tt_rows := map (\<lambda>r. r(cl_name c \<mapsto> f r)) (tt_rows t)\<rparr>)"
proof -
  have "unique_key (tt_columns t @ [c]) (map (\<lambda>r. r(cl_name c \<mapsto> f r)) (tt_rows t)) key"
    if "unique_key (tt_columns t) (tt_rows t) key" for key
    using that assms(2) by (intro unique_key_map [OF that]) (auto simp: unique_key_def)
  moreover have "row_ok (tt_columns t @ [c]) (r(cl_name c \<mapsto> f r))" if "row_ok (tt_columns t) r" for r
    using extended_row_ok [OF that assms(2,3)] .
  ultimately show ?thesis
    using assms by (auto simp: table_ok_def list_all_iff)
qed

text \<open>The last column of a table goes without a trace.\<close>

lemma shrink_appended:
  assumes "cl_name c \<notin> cl_name ` set cs" and "list_all (\<lambda>key. cl_name c \<notin> set key) (keys t)"
  shows "shrink_table (cl_name c) (t\<lparr>tt_columns := cs @ [c], tt_rows := rs\<rparr>) =
    Inr (t\<lparr>tt_columns := cs, tt_rows := map (\<lambda>r. r(cl_name c := None)) rs\<rparr>)"
proof -
  have "filter (\<lambda>c'. cl_name c' \<noteq> cl_name c) cs = cs"
    using assms(1) by (auto simp: filter_id_conv image_iff)
  moreover have "cl_name c \<notin> set (tt_primary t)" using assms(2) by (simp add: keys_def)
  moreover have "filter (\<lambda>(_, cs). cl_name c \<notin> set cs) (tt_unique t) = tt_unique t"
    using assms(2) by (intro filter_True) (auto simp: keys_def list_all_iff)
  ultimately show ?thesis by (simp add: shrink_table_def)
qed

lemma absent_column: "table_ok t \<Longrightarrow> r \<in> set (tt_rows t) \<Longrightarrow> n \<notin> cl_name ` set (tt_columns t) \<Longrightarrow> r n = None"
  by (auto simp: table_ok_def list_all_iff row_ok_def domIff)

end
