(* ===== verification/Migrations.thy ===== *)
theory Migrations
  imports Schema OutboxRepo
begin

text \<open>
  \<open>src/alembic\<close>: the migrations as operations on a database with rows, the runner and its transaction, and the
  tables the models of \<open>src/infrastructure/persistence/models\<close> declare. The lemmas show that each upgrade
  runs on every database at the revision before it, keeps the rows well typed and is undone by its
  downgrade; that all of them together build the tables of the models; and what becomes of the events
  recorded before the outbox had a status.
\<close>

section \<open>001\<close>

definition payments_columns :: "column list" where
  "payments_columns =
     [column ''id'' Uuid_type False, column ''amount'' (Numeric_type 12 2) False,
      column ''currency'' (String_type 3) False, column ''description'' Text_type False,
      column ''metadata'' Jsonb_type False, column ''status'' (String_type 16) False,
      column ''idempotency_key'' (String_type 255) False, column ''webhook_url'' Text_type False,
      column ''created_at'' Timestamptz_type False, column ''processed_at'' Timestamptz_type True]"

definition outbox_columns :: "column list" where
  "outbox_columns =
     [column ''id'' Uuid_type False, column ''event_type'' (String_type 64) False,
      column ''payload'' Jsonb_type False, column ''created_at'' Timestamptz_type False,
      column ''published_at'' Timestamptz_type True]"

definition upgrade_001 :: "ddl list" where
  "upgrade_001 =
     [create_table ''payments'' payments_columns [''id''] [(''uq_payments_idempotency_key'', [''idempotency_key''])],
      create_table ''outbox'' outbox_columns [''id''] [],
      create_index ''ix_outbox_unpublished'' ''outbox'' [''created_at''] (Is_null ''published_at'')]"

definition downgrade_001 :: "ddl list" where
  "downgrade_001 = [drop_index ''ix_outbox_unpublished'', drop_table ''outbox'', drop_table ''payments'']"

section \<open>002\<close>

definition status_column :: column where
  "status_column = (column ''status'' (String_type 16) False)\<lparr>cl_default := Some (V_text ''NEW'')\<rparr>"

definition retry_count_column :: column where
  "retry_count_column = (column ''retry_count'' Integer_type False)\<lparr>cl_default := Some (V_int 0)\<rparr>"

definition claimed_at_column :: column where
  "claimed_at_column = column ''claimed_at'' Timestamptz_type True"

definition inbox_columns :: "column list" where
  "inbox_columns = [column ''message_id'' Uuid_type False, column ''processed_at'' Timestamptz_type False]"

definition upgrade_002 :: "ddl list" where
  "upgrade_002 =
     [add_column ''outbox'' status_column, add_column ''outbox'' retry_count_column,
      add_column ''outbox'' claimed_at_column,
      update_where ''outbox'' ''status'' (V_text ''PROCESSED'') (\<lambda>r. r ''published_at'' \<noteq> Some Null),
      drop_index ''ix_outbox_unpublished'',
      create_index ''ix_outbox_pending'' ''outbox'' [''created_at''] (In_list ''status'' [''NEW'', ''PROCESSING'']),
      create_table ''inbox'' inbox_columns [''message_id''] []]"

definition downgrade_002 :: "ddl list" where
  "downgrade_002 =
     [drop_table ''inbox'', drop_index ''ix_outbox_pending'',
      create_index ''ix_outbox_unpublished'' ''outbox'' [''created_at''] (Is_null ''published_at''),
      drop_column ''outbox'' ''claimed_at'', drop_column ''outbox'' ''retry_count'',
      drop_column ''outbox'' ''status'']"

section \<open>003 and 004\<close>

definition available_at_column :: column where
  "available_at_column = column ''available_at'' Timestamptz_type True"

definition upgrade_003 :: "ddl list" where "upgrade_003 = [add_column ''outbox'' available_at_column]"
definition downgrade_003 :: "ddl list" where "downgrade_003 = [drop_column ''outbox'' ''available_at'']"

definition charges_columns :: "column list" where
  "charges_columns =
     [column ''payment_id'' Uuid_type False, column ''succeeded'' Boolean_type False,
      column ''created_at'' Timestamptz_type False]"

definition upgrade_004 :: "ddl list" where
  "upgrade_004 = [create_table ''gateway_charges'' charges_columns [''payment_id''] []]"

definition downgrade_004 :: "ddl list" where "downgrade_004 = [drop_table ''gateway_charges'']"

section \<open>Running them\<close>

record revision =
  rv_revision :: string
  rv_down_revision :: "string option"
  rv_upgrade :: "ddl list"
  rv_downgrade :: "ddl list"

definition versions :: "revision list" where
  "versions =
     [\<lparr>rv_revision = ''001_payments_outbox'', rv_down_revision = None,
       rv_upgrade = upgrade_001, rv_downgrade = downgrade_001\<rparr>,
      \<lparr>rv_revision = ''002_outbox_status_inbox'', rv_down_revision = Some ''001_payments_outbox'',
       rv_upgrade = upgrade_002, rv_downgrade = downgrade_002\<rparr>,
      \<lparr>rv_revision = ''003_outbox_available_at'', rv_down_revision = Some ''002_outbox_status_inbox'',
       rv_upgrade = upgrade_003, rv_downgrade = downgrade_003\<rparr>,
      \<lparr>rv_revision = ''004_gateway_charges'', rv_down_revision = Some ''003_outbox_available_at'',
       rv_upgrade = upgrade_004, rv_downgrade = downgrade_004\<rparr>]"

text \<open>
  Alembic looks for the revision that follows the current one, for at most so many steps; the whole run is
  one transaction, so that a failing operation leaves the database and its revision as they were.
\<close>

fun upgrade_from :: "nat \<Rightarrow> string option \<Rightarrow> database \<Rightarrow> exn + database \<times> string option" where
  "upgrade_from 0 current d = Inr (d, current)"
| "upgrade_from (Suc k) current d =
     (case find (\<lambda>v. rv_down_revision v = current) versions of
        None \<Rightarrow> Inr (d, current)
      | Some v \<Rightarrow> bind_exn (run_ddl (rv_upgrade v) d) (upgrade_from k (Some (rv_revision v))))"

definition do_run_migrations :: "(database \<times> string option, unit) prog" where
  "do_run_migrations s =
     (case upgrade_from (length versions) (snd s) (fst s) of Inl e \<Rightarrow> (Inl e, s) | Inr s' \<Rightarrow> (Inr (), s'))"

section \<open>The models\<close>

text \<open>The tables the models declare: \<open>Base.metadata\<close>, without defaults of the server.\<close>

definition payment_model :: "column list \<times> string list \<times> (string \<times> string list) list" where
  "payment_model =
     ([column ''id'' Uuid_type False, column ''amount'' (Numeric_type 12 2) False,
       column ''currency'' (String_type 3) False, column ''description'' Text_type False,
       column ''metadata'' Jsonb_type False, column ''status'' (String_type 16) False,
       column ''idempotency_key'' (String_type 255) False, column ''webhook_url'' Text_type False,
       column ''created_at'' Timestamptz_type False, column ''processed_at'' Timestamptz_type True],
      [''id''], [(''uq_payments_idempotency_key'', [''idempotency_key''])])"

definition outbox_model :: "column list \<times> string list \<times> (string \<times> string list) list" where
  "outbox_model =
     ([column ''id'' Uuid_type False, column ''event_type'' (String_type 64) False,
       column ''payload'' Jsonb_type False, column ''created_at'' Timestamptz_type False,
       column ''published_at'' Timestamptz_type True, column ''status'' (String_type 16) False,
       column ''retry_count'' Integer_type False, column ''claimed_at'' Timestamptz_type True,
       column ''available_at'' Timestamptz_type True],
      [''id''], [])"

definition inbox_model :: "column list \<times> string list \<times> (string \<times> string list) list" where
  "inbox_model =
     ([column ''message_id'' Uuid_type False, column ''processed_at'' Timestamptz_type False], [''message_id''], [])"

definition charge_model :: "column list \<times> string list \<times> (string \<times> string list) list" where
  "charge_model =
     ([column ''payment_id'' Uuid_type False, column ''succeeded'' Boolean_type False,
       column ''created_at'' Timestamptz_type False], [''payment_id''], [])"

definition models_metadata :: "string \<rightharpoonup> column list \<times> string list \<times> (string \<times> string list) list" where
  "models_metadata =
     [''payments'' \<mapsto> payment_model, ''outbox'' \<mapsto> outbox_model, ''inbox'' \<mapsto> inbox_model,
      ''gateway_charges'' \<mapsto> charge_model]"

definition without_defaults ::
    "column list \<times> string list \<times> (string \<times> string list) list \<Rightarrow> column list \<times> string list \<times> (string \<times> string list) list" where
  "without_defaults t = (map (\<lambda>c. c\<lparr>cl_default := None\<rparr>) (fst t), snd t)"

text \<open>A row of the outbox as the model's attributes give it.\<close>

definition time_of :: "sql_value option \<Rightarrow> time option" where
  "time_of v = (case v of Some (V_time t) \<Rightarrow> Some t | _ \<Rightarrow> None)"

definition read_outbox :: "row \<Rightarrow> outbox_row option" where
  "read_outbox r =
     (case (r ''id'', r ''event_type'', r ''payload'', r ''created_at'', r ''status'', r ''retry_count'') of
        (Some (V_uuid i), Some (V_text ty), Some (V_json p), Some (V_time t), Some (V_text s), Some (V_int n)) \<Rightarrow>
          Some \<lparr>ow_id = i, ow_event_type = ty, ow_payload = p, ow_created_at = t,
            ow_published_at = time_of (r ''published_at''), ow_status = s, ow_retry_count = n,
            ow_claimed_at = time_of (r ''claimed_at''), ow_available_at = time_of (r ''available_at'')\<rparr>
      | _ \<Rightarrow> None)"

section \<open>A database at a revision\<close>

definition outbox_columns_at :: "nat \<Rightarrow> column list" where
  "outbox_columns_at k =
     outbox_columns @ (if 2 \<le> k then [status_column, retry_count_column, claimed_at_column] else []) @
     (if 3 \<le> k then [available_at_column] else [])"

definition tables_at :: "nat \<Rightarrow> string \<rightharpoonup> column list \<times> string list \<times> (string \<times> string list) list" where
  "tables_at k =
     (if k = 0 then Map.empty
      else [''payments'' \<mapsto> (payments_columns, [''id''], [(''uq_payments_idempotency_key'', [''idempotency_key''])]),
            ''outbox'' \<mapsto> (outbox_columns_at k, [''id''], [])] ++
           (if 2 \<le> k then [''inbox'' \<mapsto> (inbox_columns, [''message_id''], [])] else Map.empty) ++
           (if 4 \<le> k then [''gateway_charges'' \<mapsto> (charges_columns, [''payment_id''], [])] else Map.empty))"

definition indexes_at :: "nat \<Rightarrow> string \<rightharpoonup> index" where
  "indexes_at k =
     (if k = 0 then Map.empty
      else if k = 1 then [''ix_outbox_unpublished'' \<mapsto>
        \<lparr>ix_table = ''outbox'', ix_columns = [''created_at''], ix_where = Is_null ''published_at''\<rparr>]
      else [''ix_outbox_pending'' \<mapsto>
        \<lparr>ix_table = ''outbox'', ix_columns = [''created_at''], ix_where = In_list ''status'' [''NEW'', ''PROCESSING'']\<rparr>])"

definition at_revision :: "nat \<Rightarrow> database \<Rightarrow> bool" where
  "at_revision k d \<longleftrightarrow>
     map_option declared \<circ> db_tables d = tables_at k \<and> db_indexes d = indexes_at k \<and>
     (\<forall>t\<in>ran (db_tables d). table_ok t)"

lemmas column_defs =
  payments_columns_def outbox_columns_def status_column_def retry_count_column_def claimed_at_column_def
  inbox_columns_def available_at_column_def charges_columns_def column_def outbox_columns_at_def

lemma declared_table: "at_revision k d \<Longrightarrow> map_option declared (db_tables d n) = tables_at k n"
  unfolding at_revision_def by (metis comp_apply)

lemma fresh_table_ok:
  assumes "distinct (map cl_name cs)" and "set pk \<subseteq> cl_name ` set cs" and "\<forall>(n, key)\<in>set uq. set key \<subseteq> cl_name ` set cs"
  shows "table_ok \<lparr>tt_columns = cs, tt_primary = pk, tt_unique = uq, tt_rows = []\<rparr>"
  using assms by (fastforce simp: table_ok_def keys_def list_all_iff unique_key_def)

subsection \<open>001\<close>

lemma empty_at_revision: "at_revision 0 d \<longleftrightarrow> d = empty_database"
proof
  assume d: "at_revision 0 d"
  have "db_tables d n = None" for n using declared_table [OF d, of n] by (simp add: tables_at_def)
  then have "db_tables d = Map.empty" by (rule ext)
  moreover have "db_indexes d = Map.empty" using d by (simp add: at_revision_def indexes_at_def)
  ultimately show "d = empty_database" by (simp add: empty_database_def)
qed (simp add: at_revision_def empty_database_def tables_at_def indexes_at_def comp_def)

definition first_database :: database where
  "first_database =
     \<lparr>db_tables =
        [''payments'' \<mapsto> \<lparr>tt_columns = payments_columns, tt_primary = [''id''],
           tt_unique = [(''uq_payments_idempotency_key'', [''idempotency_key''])], tt_rows = []\<rparr>,
         ''outbox'' \<mapsto> \<lparr>tt_columns = outbox_columns, tt_primary = [''id''], tt_unique = [], tt_rows = []\<rparr>],
      db_indexes = indexes_at 1\<rparr>"

lemma upgrade_001_run: "run_ddl upgrade_001 empty_database = Inr first_database"
  by (simp add: upgrade_001_def create_table_def create_index_def empty_database_def first_database_def
      indexes_at_def)

lemma downgrade_001_run: "run_ddl downgrade_001 first_database = Inr empty_database"
  by (simp add: downgrade_001_def drop_table_def drop_index_def empty_database_def first_database_def
      indexes_at_def)

lemma first_at_revision: "at_revision 1 first_database"
proof -
  have "table_ok \<lparr>tt_columns = payments_columns, tt_primary = [''id''],
      tt_unique = [(''uq_payments_idempotency_key'', [''idempotency_key''])], tt_rows = []\<rparr>"
    by (rule fresh_table_ok) (simp_all add: column_defs)
  moreover have "table_ok \<lparr>tt_columns = outbox_columns, tt_primary = [''id''], tt_unique = [], tt_rows = []\<rparr>"
    by (rule fresh_table_ok) (simp_all add: column_defs)
  ultimately show ?thesis
    by (auto simp: at_revision_def first_database_def tables_at_def declared_def outbox_columns_at_def ran_def
        intro!: ext split: if_splits)
qed

subsection \<open>002\<close>

text \<open>The rows of the outbox after 002, and before 002 again.\<close>

definition row_002 :: "row \<Rightarrow> row" where
  "row_002 r = r(''status'' \<mapsto> V_text (if r ''published_at'' \<noteq> Some Null then ''PROCESSED'' else ''NEW''),
     ''retry_count'' \<mapsto> V_int 0, ''claimed_at'' \<mapsto> Null)"

definition second_database :: "table \<Rightarrow> table \<Rightarrow> database" where
  "second_database p t =
     \<lparr>db_tables =
        [''payments'' \<mapsto> p,
         ''outbox'' \<mapsto> t\<lparr>tt_columns := outbox_columns_at 2, tt_rows := map row_002 (tt_rows t)\<rparr>,
         ''inbox'' \<mapsto> \<lparr>tt_columns = inbox_columns, tt_primary = [''message_id''], tt_unique = [], tt_rows = []\<rparr>],
      db_indexes = indexes_at 2\<rparr>"

lemma tables_at_1:
  assumes "at_revision 1 d"
  obtains p t where "d = \<lparr>db_tables = [''payments'' \<mapsto> p, ''outbox'' \<mapsto> t], db_indexes = indexes_at 1\<rparr>"
    and "declared p = (payments_columns, [''id''], [(''uq_payments_idempotency_key'', [''idempotency_key''])])"
    and "declared t = (outbox_columns, [''id''], [])" and "table_ok p" and "table_ok t"
proof -
  obtain p where p: "db_tables d ''payments'' = Some p" and
    pd: "declared p = (payments_columns, [''id''], [(''uq_payments_idempotency_key'', [''idempotency_key''])])"
    using declared_table [OF assms, of "''payments''"] by (auto simp: tables_at_def)
  obtain t where t: "db_tables d ''outbox'' = Some t" and td: "declared t = (outbox_columns, [''id''], [])"
    using declared_table [OF assms, of "''outbox''"] by (auto simp: tables_at_def outbox_columns_at_def)
  have rest: "db_tables d n = None" if "n \<noteq> ''payments''" "n \<noteq> ''outbox''" for n
    using declared_table [OF assms, of n] that by (simp add: tables_at_def)
  have "db_tables d n = [''payments'' \<mapsto> p, ''outbox'' \<mapsto> t] n" for n
    by (cases "n = ''payments''"; cases "n = ''outbox''") (simp_all add: p t rest)
  then have "db_tables d = [''payments'' \<mapsto> p, ''outbox'' \<mapsto> t]" by (rule ext)
  then have "d = \<lparr>db_tables = [''payments'' \<mapsto> p, ''outbox'' \<mapsto> t], db_indexes = indexes_at 1\<rparr>"
    using assms by (cases d) (simp add: at_revision_def)
  moreover have "table_ok p" "table_ok t" using assms p t by (auto simp: at_revision_def ran_def)
  ultimately show ?thesis using that pd td by blast
qed

lemma row_002_rows:
  "map (\<lambda>r. if r ''published_at'' \<noteq> Some Null
             then r(''status'' \<mapsto> V_text ''NEW'', ''retry_count'' \<mapsto> V_int 0, ''claimed_at'' \<mapsto> Null,
                    ''status'' \<mapsto> V_text ''PROCESSED'')
             else r(''status'' \<mapsto> V_text ''NEW'', ''retry_count'' \<mapsto> V_int 0, ''claimed_at'' \<mapsto> Null)) rs =
   map row_002 rs"
  by (auto simp: row_002_def intro!: ext)

lemma upgrade_002_run:
  assumes "declared t = (outbox_columns, [''id''], [])"
  shows "run_ddl upgrade_002 \<lparr>db_tables = [''payments'' \<mapsto> p, ''outbox'' \<mapsto> t], db_indexes = indexes_at 1\<rparr> =
    Inr (second_database p t)"
proof -
  have cols: "tt_columns t = outbox_columns" using assms by (simp add: declared_def)
  show ?thesis
    using cols
    by (simp add: upgrade_002_def add_column_def change_table_def extend_table_def column_defs initial_value_def
        update_where_def drop_index_def create_index_def create_table_def second_database_def indexes_at_def
        comp_def)
      (auto simp: row_002_rows intro!: ext)
qed

lemma second_at_revision:
  assumes "declared p = (payments_columns, [''id''], [(''uq_payments_idempotency_key'', [''idempotency_key''])])"
    and "declared t = (outbox_columns, [''id''], [])" and "table_ok p" and "table_ok t"
  shows "at_revision 2 (second_database p t)"
proof -
  have cols: "tt_columns t = outbox_columns" "tt_primary t = [''id'']" "tt_unique t = []"
    using assms(2) by (simp_all add: declared_def)
  have inbox: "table_ok \<lparr>tt_columns = inbox_columns, tt_primary = [''message_id''], tt_unique = [], tt_rows = []\<rparr>"
    by (rule fresh_table_ok) (simp_all add: column_defs)
  let ?s = "\<lambda>r. V_text (if r ''published_at'' \<noteq> Some Null then ''PROCESSED'' else ''NEW'')"
  let ?t1 = "t\<lparr>tt_columns := tt_columns t @ [status_column], tt_rows := map (\<lambda>r. r(cl_name status_column \<mapsto> ?s r)) (tt_rows t)\<rparr>"
  let ?t2 = "?t1\<lparr>tt_columns := tt_columns ?t1 @ [retry_count_column],
    tt_rows := map (\<lambda>r. r(cl_name retry_count_column \<mapsto> V_int 0)) (tt_rows ?t1)\<rparr>"
  let ?t3 = "?t2\<lparr>tt_columns := tt_columns ?t2 @ [claimed_at_column],
    tt_rows := map (\<lambda>r. r(cl_name claimed_at_column \<mapsto> Null)) (tt_rows ?t2)\<rparr>"
  have "table_ok ?t1"
    by (rule extended_table_ok [OF assms(4)]) (simp_all add: cols(1) column_defs value_ok_def)
  then have "table_ok ?t2"
    by (rule extended_table_ok) (simp_all add: cols(1) column_defs value_ok_def)
  then have "table_ok ?t3"
    by (rule extended_table_ok) (simp_all add: cols(1) column_defs value_ok_def)
  moreover have "?t3 = t\<lparr>tt_columns := outbox_columns_at 2, tt_rows := map row_002 (tt_rows t)\<rparr>"
    by (simp add: cols(1) outbox_columns_at_def comp_def)
      (simp add: column_defs row_002_def [abs_def])
  ultimately have outbox: "table_ok (t\<lparr>tt_columns := outbox_columns_at 2, tt_rows := map row_002 (tt_rows t)\<rparr>)"
    by simp
  have "map_option declared \<circ> db_tables (second_database p t) = tables_at 2"
    using assms(1) by (intro ext) (simp add: cols second_database_def tables_at_def declared_def)
  moreover have "\<forall>t'\<in>ran (db_tables (second_database p t)). table_ok t'"
    using assms(3) inbox outbox by (auto simp: second_database_def ran_def split: if_splits)
  ultimately show ?thesis by (simp add: at_revision_def second_database_def)
qed

lemma downgrade_002_run:
  assumes "declared t = (outbox_columns, [''id''], [])" and "table_ok t"
  shows "run_ddl downgrade_002 (second_database p t) =
    Inr \<lparr>db_tables = [''payments'' \<mapsto> p, ''outbox'' \<mapsto> t], db_indexes = indexes_at 1\<rparr>"
proof -
  have cols: "tt_columns t = outbox_columns" "tt_primary t = [''id'']" "tt_unique t = []"
    using assms(1) by (simp_all add: declared_def)
  have "(row_002 r)(''claimed_at'' := None, ''retry_count'' := None, ''status'' := None) = r" if "r \<in> set (tt_rows t)" for r
  proof -
    have "r ''claimed_at'' = None" "r ''retry_count'' = None" "r ''status'' = None"
      using that by (intro absent_column [OF assms(2)]; simp add: cols(1) column_defs)+
    then show ?thesis by (auto simp: row_002_def)
  qed
  then have rows: "map (\<lambda>r. (row_002 r)(''claimed_at'' := None, ''retry_count'' := None, ''status'' := None)) (tt_rows t) = tt_rows t"
    by (rule map_idI)
  show ?thesis
    using cols rows
    by (cases t)
      (simp add: downgrade_002_def second_database_def drop_table_def drop_index_def create_index_def indexes_at_def
        drop_column_def change_table_def shrink_table_def column_defs comp_def, auto intro!: ext)
qed

subsection \<open>003 and 004\<close>

lemma extend_003:
  assumes "at_revision 2 d"
  obtains t where "db_tables d ''outbox'' = Some t" and "tt_columns t = outbox_columns_at 2" and "table_ok t"
    and "list_all (\<lambda>key. ''available_at'' \<notin> set key) (keys t)"
    and "run_ddl upgrade_003 d = Inr (d\<lparr>db_tables := (db_tables d)(''outbox'' \<mapsto>
      t\<lparr>tt_columns := tt_columns t @ [available_at_column],
        tt_rows := map (\<lambda>r. r(''available_at'' \<mapsto> Null)) (tt_rows t)\<rparr>)\<rparr>)"
proof -
  obtain t where t: "db_tables d ''outbox'' = Some t" and td: "declared t = (outbox_columns_at 2, [''id''], [])"
    using declared_table [OF assms, of "''outbox''"] by (auto simp: tables_at_def)
  have cols: "tt_columns t = outbox_columns_at 2" "tt_primary t = [''id'']" "tt_unique t = []"
    using td by (simp_all add: declared_def)
  have "table_ok t" using assms t by (auto simp: at_revision_def ran_def)
  moreover have "list_all (\<lambda>key. ''available_at'' \<notin> set key) (keys t)" by (simp add: keys_def cols)
  moreover have "run_ddl upgrade_003 d = Inr (d\<lparr>db_tables := (db_tables d)(''outbox'' \<mapsto>
      t\<lparr>tt_columns := tt_columns t @ [available_at_column],
        tt_rows := map (\<lambda>r. r(''available_at'' \<mapsto> Null)) (tt_rows t)\<rparr>)\<rparr>)"
    by (simp add: upgrade_003_def add_column_def change_table_def extend_table_def t cols column_defs initial_value_def)
  ultimately show ?thesis using that t cols(1) by blast
qed

lemma tables_at_outbox: "2 \<le> k \<Longrightarrow> tables_at k ''outbox'' = Some (outbox_columns_at k, [''id''], [])"
  by (simp add: tables_at_def)

lemma tables_at_other: "n \<noteq> ''outbox'' \<Longrightarrow> tables_at 3 n = tables_at 2 n"
  by (simp add: tables_at_def)

lemma tables_at_4: "tables_at 4 = (tables_at 3)(''gateway_charges'' \<mapsto> (charges_columns, [''payment_id''], []))"
  by (simp add: tables_at_def outbox_columns_at_def)

lemma step_003:
  assumes "at_revision 2 d"
  shows "\<exists>d'. run_ddl upgrade_003 d = Inr d' \<and> at_revision 3 d' \<and> run_ddl downgrade_003 d' = Inr d"
proof -
  obtain t where t: "db_tables d ''outbox'' = Some t"
    and cols: "tt_columns t = outbox_columns_at 2" and ok: "table_ok t"
    and keys: "list_all (\<lambda>key. ''available_at'' \<notin> set key) (keys t)"
    and run: "run_ddl upgrade_003 d = Inr (d\<lparr>db_tables := (db_tables d)(''outbox'' \<mapsto>
      t\<lparr>tt_columns := tt_columns t @ [available_at_column],
        tt_rows := map (\<lambda>r. r(''available_at'' \<mapsto> Null)) (tt_rows t)\<rparr>)\<rparr>)" (is "_ = Inr ?d")
    by (rule extend_003 [OF assms])
  let ?t = "t\<lparr>tt_columns := tt_columns t @ [available_at_column],
        tt_rows := map (\<lambda>r. r(''available_at'' \<mapsto> Null)) (tt_rows t)\<rparr>"
  have name: "cl_name available_at_column = ''available_at''" by (simp add: column_defs)
  have fresh: "cl_name available_at_column \<notin> cl_name ` set (tt_columns t)" by (simp add: cols column_defs)
  have "table_ok ?t"
    using extended_table_ok [OF ok fresh, of "\<lambda>_. Null"] by (simp add: name value_ok_def available_at_column_def column_def)
  moreover have decl: "declared ?t = (outbox_columns_at 3, snd (declared t))"
    by (simp add: declared_def cols outbox_columns_at_def)
  have "map_option declared \<circ> db_tables ?d = tables_at 3"
  proof (rule ext)
    fix n
    show "(map_option declared \<circ> db_tables ?d) n = tables_at 3 n"
      using declared_table [OF assms, of n] decl
      by (cases "n = ''outbox''") (simp_all add: tables_at_outbox tables_at_other t)
  qed
  moreover have "db_indexes ?d = indexes_at 3"
    using assms by (simp add: at_revision_def indexes_at_def)
  ultimately have "at_revision 3 ?d"
    using assms by (auto simp: at_revision_def ran_def split: if_splits)
  moreover have "run_ddl downgrade_003 ?d = Inr d"
  proof -
    have "map (\<lambda>r. (r(''available_at'' \<mapsto> Null))(''available_at'' := None)) (tt_rows t) = tt_rows t"
      using fresh by (intro map_idI) (simp add: name absent_column [OF ok] fun_upd_idem)
    then have "shrink_table ''available_at'' ?t = Inr t"
      using shrink_appended [of available_at_column "tt_columns t" t] fresh keys
      by (cases t) (simp add: name comp_def)
    moreover have "db_indexes d = indexes_at 2" using assms by (simp add: at_revision_def)
    then have "(\<lambda>i. case db_indexes d i of None \<Rightarrow> None
        | Some x \<Rightarrow> if ix_table x = ''outbox'' \<and> (''available_at'' \<in> set (ix_columns x) \<or>
            predicate_column (ix_where x) = ''available_at'') then None else Some x) = db_indexes d"
      by (auto simp: indexes_at_def intro!: ext)
    ultimately show ?thesis
      using t by (cases d) (simp add: downgrade_003_def drop_column_def change_table_def fun_upd_idem)
  qed
  ultimately show ?thesis using run by blast
qed

lemma step_004:
  assumes "at_revision 3 d"
  shows "\<exists>d'. run_ddl upgrade_004 d = Inr d' \<and> at_revision 4 d' \<and> run_ddl downgrade_004 d' = Inr d"
proof -
  let ?t = "\<lparr>tt_columns = charges_columns, tt_primary = [''payment_id''], tt_unique = [], tt_rows = []\<rparr>"
  let ?d = "d\<lparr>db_tables := (db_tables d)(''gateway_charges'' \<mapsto> ?t)\<rparr>"
  have none: "db_tables d ''gateway_charges'' = None"
    using declared_table [OF assms, of "''gateway_charges''"] by (simp add: tables_at_def)
  then have "run_ddl upgrade_004 d = Inr ?d" by (simp add: upgrade_004_def create_table_def)
  moreover have "at_revision 4 ?d"
  proof -
    have "map_option declared \<circ> db_tables ?d = tables_at 4"
    proof (rule ext)
      fix n
      show "(map_option declared \<circ> db_tables ?d) n = tables_at 4 n"
        using declared_table [OF assms, of n]
        by (cases "n = ''gateway_charges''") (simp_all add: tables_at_4 declared_def)
    qed
    moreover have "table_ok ?t" by (rule fresh_table_ok) (simp_all add: column_defs)
    ultimately show ?thesis using assms by (auto simp: at_revision_def ran_def indexes_at_def split: if_splits)
  qed
  moreover have "db_indexes d = indexes_at 3" using assms by (simp add: at_revision_def)
  then have "(\<lambda>i. case db_indexes d i of None \<Rightarrow> None
      | Some x \<Rightarrow> if ix_table x = ''gateway_charges'' then None else Some x) = db_indexes d"
    by (auto simp: indexes_at_def intro!: ext)
  then have "run_ddl downgrade_004 ?d = Inr d"
    using none by (cases d) (simp add: downgrade_004_def drop_table_def fun_upd_idem)
  ultimately show ?thesis by blast
qed

subsection \<open>All of them\<close>

lemma step_001: "at_revision 0 d \<Longrightarrow> \<exists>d'. run_ddl upgrade_001 d = Inr d' \<and> at_revision 1 d' \<and> run_ddl downgrade_001 d' = Inr d"
  using upgrade_001_run downgrade_001_run first_at_revision by (auto simp: empty_at_revision)

lemma step_002:
  assumes "at_revision 1 d"
  shows "\<exists>d'. run_ddl upgrade_002 d = Inr d' \<and> at_revision 2 d' \<and> run_ddl downgrade_002 d' = Inr d"
  by (rule tables_at_1 [OF assms]) (use upgrade_002_run downgrade_002_run second_at_revision in blast)

lemma migration_step:
  assumes "k < length versions" and "at_revision k d"
  shows "\<exists>d'. run_ddl (rv_upgrade (versions ! k)) d = Inr d' \<and> at_revision (k + 1) d' \<and>
    run_ddl (rv_downgrade (versions ! k)) d' = Inr d"
proof -
  have "k < 4" using assms(1) by (simp add: versions_def)
  then consider "k = 0" | "k = 1" | "k = 2" | "k = 3" by linarith
  then show ?thesis
  proof cases
    case 1
    then show ?thesis using step_001 assms(2) by (simp add: versions_def)
  next
    case 2
    then show ?thesis using step_002 assms(2) by (simp add: versions_def numeral_2_eq_2)
  next
    case 3
    then show ?thesis using step_003 assms(2) by (simp add: versions_def)
  next
    case 4
    then show ?thesis using step_004 assms(2) by (simp add: versions_def)
  qed
qed

text \<open>The name of the revision that a database at the \<open>k\<close>th has.\<close>

definition revision_name :: "nat \<Rightarrow> string option" where
  "revision_name k = (if k = 0 then None else Some (rv_revision (versions ! (k - 1))))"

lemma next_revision:
  assumes "k < length versions"
  shows "find (\<lambda>v. rv_down_revision v = revision_name k) versions = Some (versions ! k)"
    and "Some (rv_revision (versions ! k)) = revision_name (k + 1)"
proof -
  have "k < 4" using assms by (simp add: versions_def)
  then consider "k = 0" | "k = 1" | "k = 2" | "k = 3" by linarith
  then show "find (\<lambda>v. rv_down_revision v = revision_name k) versions = Some (versions ! k)"
    by cases (simp_all add: versions_def revision_name_def)
  show "Some (rv_revision (versions ! k)) = revision_name (k + 1)" by (simp add: revision_name_def)
qed

lemma last_revision: "find (\<lambda>v. rv_down_revision v = revision_name 4) versions = None"
  by (simp add: versions_def revision_name_def)

lemma upgrade_from_runs:
  assumes "at_revision k d" and "k + n = 4"
  shows "\<exists>d'. upgrade_from (n + j) (revision_name k) d = Inr (d', revision_name 4) \<and> at_revision 4 d'"
  using assms
proof (induction n arbitrary: k d)
  case 0
  then show ?case by (cases j) (simp_all add: last_revision)
next
  case (Suc n)
  then have "k < length versions" by (simp add: versions_def)
  then obtain d1 where d1: "run_ddl (rv_upgrade (versions ! k)) d = Inr d1" "at_revision (k + 1) d1"
    using migration_step Suc.prems(1) by blast
  obtain d' where "upgrade_from (n + j) (revision_name (k + 1)) d1 = Inr (d', revision_name 4)" "at_revision 4 d'"
    using Suc.IH [OF d1(2)] Suc.prems(2) by auto
  then show ?case
    using d1(1) next_revision [OF \<open>k < length versions\<close>] by simp
qed

lemma migrations_run:
  assumes "at_revision k d" and "k \<le> 4"
  shows "\<exists>d'. do_run_migrations (d, revision_name k) = (Inr (), (d', revision_name 4)) \<and> at_revision 4 d'"
proof -
  have "length versions = (4 - k) + k" using assms(2) by (simp add: versions_def)
  then show ?thesis
    using upgrade_from_runs [OF assms(1), of "4 - k" k] assms(2) by (auto simp: do_run_migrations_def)
qed

text \<open>The migrated tables are those of the models.\<close>

lemma migrated_is_modelled: "map_option without_defaults \<circ> tables_at 4 = models_metadata"
  by (rule ext)
    (simp add: tables_at_def models_metadata_def without_defaults_def payment_model_def outbox_model_def
      inbox_model_def charge_model_def column_defs)

lemma at_head_models:
  assumes "at_revision 4 d"
  shows "(\<lambda>n. map_option (\<lambda>t. without_defaults (declared t)) (db_tables d n)) = models_metadata"
proof
  fix n
  have "map_option (\<lambda>t. without_defaults (declared t)) (db_tables d n) =
      map_option without_defaults (map_option declared (db_tables d n))"
    by (simp add: option.map_comp comp_def)
  also have "\<dots> = models_metadata n"
    using declared_table [OF assms, of n] fun_cong [OF migrated_is_modelled, of n] by simp
  finally show "map_option (\<lambda>t. without_defaults (declared t)) (db_tables d n) = models_metadata n" .
qed

section \<open>Events recorded before the outbox had a status\<close>

lemma upgraded_rows:
  assumes "at_revision 1 d" and "db_tables d ''outbox'' = Some t"
  shows "\<exists>d' t'. do_run_migrations (d, revision_name 1) = (Inr (), (d', revision_name 4)) \<and>
    db_tables d' ''outbox'' = Some t' \<and> tt_rows t' = map (\<lambda>r. (row_002 r)(''available_at'' \<mapsto> Null)) (tt_rows t)"
proof -
  obtain p u where d: "d = \<lparr>db_tables = [''payments'' \<mapsto> p, ''outbox'' \<mapsto> u], db_indexes = indexes_at 1\<rparr>"
    and decl: "declared p = (payments_columns, [''id''], [(''uq_payments_idempotency_key'', [''idempotency_key''])])"
      "declared u = (outbox_columns, [''id''], [])" and ok: "table_ok p" "table_ok u"
    by (rule tables_at_1 [OF assms(1)])
  have u: "u = t" using assms(2) d by simp
  let ?d2 = "second_database p u"
  have two: "run_ddl upgrade_002 d = Inr ?d2" "at_revision 2 ?d2"
    using upgrade_002_run [OF decl(2)] second_at_revision [OF decl ok] by (simp_all add: d)
  obtain v where v: "db_tables ?d2 ''outbox'' = Some v" and run3: "run_ddl upgrade_003 ?d2 = Inr (?d2\<lparr>db_tables := (db_tables ?d2)(''outbox'' \<mapsto>
      v\<lparr>tt_columns := tt_columns v @ [available_at_column],
        tt_rows := map (\<lambda>r. r(''available_at'' \<mapsto> Null)) (tt_rows v)\<rparr>)\<rparr>)" (is "_ = Inr ?d3")
    by (rule extend_003 [OF two(2)])
  have three: "at_revision 3 ?d3" using step_003 [OF two(2)] run3 by auto
  obtain d4 where four: "run_ddl upgrade_004 ?d3 = Inr d4" "at_revision 4 d4" using step_004 [OF three] by blast
  have "db_tables d4 ''outbox'' = db_tables ?d3 ''outbox''"
    using four(1) by (auto simp: upgrade_004_def create_table_def split: if_splits)
  moreover have "tt_rows v = map row_002 (tt_rows t)" using v u by (auto simp: second_database_def)
  moreover have "do_run_migrations (d, revision_name 1) = (Inr (), (d4, revision_name 4))"
  proof -
    have "upgrade_from 4 (revision_name 1) d = Inr (d4, revision_name 4)"
      using two(1) run3 four(1) by (simp add: versions_def revision_name_def eval_nat_numeral)
    then show ?thesis by (simp add: do_run_migrations_def versions_def eval_nat_numeral)
  qed
  ultimately show ?thesis by auto
qed

lemma has_typeE:
  "has_type v Uuid_type \<Longrightarrow> \<exists>i. v = V_uuid i" "has_type v (String_type n) \<Longrightarrow> \<exists>t. v = V_text t"
  "has_type v Jsonb_type \<Longrightarrow> \<exists>p. v = V_json p" "has_type v Timestamptz_type \<Longrightarrow> \<exists>t. v = V_time t"
  by (cases v; simp)+

text \<open>A row of revision 001, read through the model once it is migrated.\<close>

lemma legacy_row:
  assumes "row_ok outbox_columns r"
  shows "\<exists>o'. read_outbox ((row_002 r)(''available_at'' \<mapsto> Null)) = Some o' \<and> r ''id'' = Some (V_uuid (ow_id o')) \<and>
    (claim_filter now stale o' \<longleftrightarrow> r ''published_at'' = Some Null)"
proof -
  have cols: "column_ok r (column ''id'' Uuid_type False)" "column_ok r (column ''event_type'' (String_type 64) False)"
    "column_ok r (column ''payload'' Jsonb_type False)" "column_ok r (column ''created_at'' Timestamptz_type False)"
    "column_ok r (column ''published_at'' Timestamptz_type True)"
    using assms by (simp_all add: row_ok_def outbox_columns_def)
  obtain i ty p t where vals: "r ''id'' = Some (V_uuid i)" "r ''event_type'' = Some (V_text ty)"
      "r ''payload'' = Some (V_json p)" "r ''created_at'' = Some (V_time t)"
    using cols(1-4) by (auto simp: column_ok_def column_def split: option.splits if_splits dest!: has_typeE)
  have "r ''published_at'' = Some Null \<or> (\<exists>q. r ''published_at'' = Some (V_time q))"
    using cols(5) by (auto simp: column_ok_def column_def split: option.splits if_splits dest!: has_typeE)
  then show ?thesis
    by (auto simp: read_outbox_def row_002_def vals claim_filter_def claim_due_def time_of_def)
qed

section \<open>An example\<close>

definition legacy_event :: "uuid \<Rightarrow> sql_value \<Rightarrow> row" where
  "legacy_event i published =
     [''id'' \<mapsto> V_uuid i, ''event_type'' \<mapsto> V_text ''payment.created'', ''payload'' \<mapsto> V_json [],
      ''created_at'' \<mapsto> V_time 0, ''published_at'' \<mapsto> published]"

definition legacy_table :: table where
  "legacy_table = \<lparr>tt_columns = outbox_columns, tt_primary = [''id''], tt_unique = [],
     tt_rows = [legacy_event 1 Null, legacy_event 2 (V_time 5)]\<rparr>"

definition legacy_database :: database where
  "legacy_database = first_database\<lparr>db_tables := (db_tables first_database)(''outbox'' \<mapsto> legacy_table)\<rparr>"

lemma legacy_at_revision: "at_revision 1 legacy_database"
proof -
  have "row_ok outbox_columns (legacy_event i v)" if "v = Null \<or> v = V_time 5" for i v
    using that by (auto simp: row_ok_def column_ok_def column_defs legacy_event_def split: if_splits)
  then have "table_ok legacy_table"
    by (simp add: table_ok_def legacy_table_def keys_def unique_key_def)
      (simp add: column_defs legacy_event_def)
  moreover have "map_option declared \<circ> db_tables legacy_database = tables_at 1"
  proof (rule ext)
    fix n
    show "(map_option declared \<circ> db_tables legacy_database) n = tables_at 1 n"
      using declared_table [OF first_at_revision, of n]
      by (cases "n = ''outbox''")
        (simp_all add: legacy_database_def declared_def legacy_table_def tables_at_def outbox_columns_at_def)
  qed
  ultimately show ?thesis
    using first_at_revision by (auto simp: at_revision_def legacy_database_def ran_def split: if_splits)
qed

section \<open>Properties\<close>

text \<open>C36: Every migration runs on every database at the revision before it, whatever rows it has; it leaves
  every row well typed and every key unique, at the next revision; and its downgrade gives back exactly
  the database as it was, row for row.\<close>

theorem migrations_are_undone:
  assumes "k < length versions" and "at_revision k d"
  shows "\<exists>d'. run_ddl (rv_upgrade (versions ! k)) d = Inr d' \<and> at_revision (k + 1) d' \<and>
    run_ddl (rv_downgrade (versions ! k)) d' = Inr d"
  using assms by (rule migration_step)

theorem migrations_are_undone_witness:
  "\<exists>d'. run_ddl upgrade_002 legacy_database = Inr d' \<and> run_ddl downgrade_002 d' = Inr legacy_database"
  using migrations_are_undone [of 1 legacy_database] legacy_at_revision by (auto simp: versions_def)

text \<open>C38: The migrations build what the models declare: from any revision, upgrading to the head succeeds, and
  its tables have exactly the columns, types, nullability, primary keys and unique constraints of the
  models, up to defaults of the server.\<close>

theorem migrated_schema_is_the_models:
  assumes "at_revision k d" and "k \<le> 4"
  shows "\<exists>d'. do_run_migrations (d, revision_name k) = (Inr (), (d', Some ''004_gateway_charges'')) \<and>
    (\<lambda>n. map_option (\<lambda>t. without_defaults (declared t)) (db_tables d' n)) = models_metadata"
proof -
  obtain d' where "do_run_migrations (d, revision_name k) = (Inr (), (d', revision_name 4))" "at_revision 4 d'"
    using migrations_run [OF assms] by blast
  with at_head_models [of d'] show ?thesis by (auto simp: revision_name_def versions_def)
qed

theorem migrated_schema_is_the_models_witness:
  "\<exists>d'. do_run_migrations (empty_database, None) = (Inr (), (d', Some ''004_gateway_charges'')) \<and>
    map_option (\<lambda>t. without_defaults (declared t)) (db_tables d' ''outbox'') = Some outbox_model"
proof -
  obtain d' where d': "do_run_migrations (empty_database, revision_name 0) = (Inr (), (d', Some ''004_gateway_charges''))"
    "(\<lambda>n. map_option (\<lambda>t. without_defaults (declared t)) (db_tables d' n)) = models_metadata"
    using migrated_schema_is_the_models [of 0 empty_database] by (auto simp: empty_at_revision)
  from d'(1) fun_cong [OF d'(2), of "''outbox''"] show ?thesis
    by (auto simp: revision_name_def models_metadata_def)
qed

text \<open>C39: No event is lost or published twice by the migration to a status: an event recorded at revision 001
  is read back by the migrated service, and is due for publication exactly when it had not been
  published.\<close>

theorem legacy_events_survive:
  assumes "at_revision 1 d" and "db_tables d ''outbox'' = Some t"
  shows "\<exists>d' t'. do_run_migrations (d, Some ''001_payments_outbox'') = (Inr (), (d', Some ''004_gateway_charges'')) \<and>
    db_tables d' ''outbox'' = Some t' \<and>
    list_all2 (\<lambda>r r'. \<exists>o'. read_outbox r' = Some o' \<and> r ''id'' = Some (V_uuid (ow_id o')) \<and>
      (claim_filter now stale o' \<longleftrightarrow> r ''published_at'' = Some Null)) (tt_rows t) (tt_rows t')"
proof -
  have "tt_columns t = outbox_columns"
    using declared_table [OF assms(1), of "''outbox''"] assms(2) by (simp add: tables_at_def declared_def outbox_columns_at_def)
  moreover have "table_ok t" using assms by (auto simp: at_revision_def ran_def)
  ultimately have "row_ok outbox_columns r" if "r \<in> set (tt_rows t)" for r
    using that by (auto simp: table_ok_def list_all_iff)
  then have "list_all2 (\<lambda>r r'. \<exists>o'. read_outbox r' = Some o' \<and> r ''id'' = Some (V_uuid (ow_id o')) \<and>
      (claim_filter now stale o' \<longleftrightarrow> r ''published_at'' = Some Null)) (tt_rows t)
      (map (\<lambda>r. (row_002 r)(''available_at'' \<mapsto> Null)) (tt_rows t))"
    by (simp add: list_all2_map2 list_all2_same legacy_row)
  with upgraded_rows [OF assms] show ?thesis by (auto simp: revision_name_def versions_def)
qed

theorem legacy_events_survive_witness:
  "\<exists>d' t'. do_run_migrations (legacy_database, Some ''001_payments_outbox'') = (Inr (), (d', Some ''004_gateway_charges'')) \<and>
    db_tables d' ''outbox'' = Some t' \<and> length (tt_rows t') = 2"
proof -
  have "db_tables legacy_database ''outbox'' = Some legacy_table" by (simp add: legacy_database_def)
  from legacy_events_survive [OF legacy_at_revision this, where now = 0 and stale = 0] show ?thesis
    by (auto simp: legacy_table_def dest!: list_all2_lengthD)
qed

end
