(* ===== verification/Alembic.thy ===== *)
theory Alembic
  imports Factory Migrations "HOL-Library.AList"
begin

text \<open>
  \<open>src/alembic/env.py\<close> and the section \<open>[alembic]\<close> of \<open>alembic.ini\<close>: how a migration run gets its URL from the
  settings, through an option of a \<open>ConfigParser\<close>, and what it does with it, online (on the database) and offline
  (as a script). The interpolation of options is the standard library's, the reading of sections and the engine
  are Alembic's and SQLAlchemy's, as they are documented.
\<close>

section \<open>ConfigParser\<close>

text \<open>
  The raw texts of the options of a section. \<open>%%\<close> stands for \<open>%\<close>, and \<open>%(name)s\<close> for the value of another option,
  which is interpolated itself if it has a \<open>%\<close>, up to the depth of 10.
\<close>

type_synonym options = "(string \<times> string) list"

definition syntax_error :: exn where "syntax_error = ForeignError ''InterpolationSyntaxError''"
definition missing_option :: exn where "missing_option = ForeignError ''InterpolationMissingOptionError''"
definition depth_error :: exn where "depth_error = ForeignError ''InterpolationDepthError''"

text \<open>The name after \<open>%(\<close>, and what follows its \<open>)s\<close>.\<close>

definition option_reference :: "string \<Rightarrow> (string \<times> string) option" where
  "option_reference cs =
     (case (takeWhile (\<lambda>c. c \<noteq> CHR '')'') cs, drop (length (takeWhile (\<lambda>c. c \<noteq> CHR '')'') cs) + 2) cs,
            take 2 (dropWhile (\<lambda>c. c \<noteq> CHR '')'') cs)) of
        (name, after, end_mark) \<Rightarrow> if name \<noteq> [] \<and> end_mark = '')s'' then Some (name, after) else None)"

lemma option_reference_shorter: "option_reference cs = Some (name, after) \<Longrightarrow> length after < Suc (length cs)"
  by (auto simp: option_reference_def split: if_splits)

function interpolate :: "nat \<Rightarrow> options \<Rightarrow> string \<Rightarrow> exn + string" where
  "interpolate depth opts [] = Inr []"
| "interpolate depth opts (c # cs) =
     (if c \<noteq> CHR ''%'' then bind_exn (interpolate depth opts cs) (\<lambda>t. Inr (c # t))
      else if take 1 cs = ''%'' then bind_exn (interpolate depth opts (drop 1 cs)) (\<lambda>t. Inr (CHR ''%'' # t))
      else if take 1 cs = ''('' then
        (case option_reference (drop 1 cs) of
           None \<Rightarrow> Inl syntax_error
         | Some (name, after) \<Rightarrow>
             (case map_of opts (lower name) of
                None \<Rightarrow> Inl missing_option
              | Some v \<Rightarrow>
                  bind_exn (if CHR ''%'' \<notin> set v then Inr v
                            else case depth of 0 \<Rightarrow> Inl depth_error | Suc d \<Rightarrow> interpolate d opts v) (\<lambda>s.
                  bind_exn (interpolate depth opts after) (\<lambda>t. Inr (s @ t)))))
      else Inl syntax_error)"
  by pat_completeness auto
termination
  by (relation "measures [\<lambda>(depth, _, _). depth, \<lambda>(_, _, cs). length cs]")
    (auto dest!: option_reference_shorter)

text \<open>\<open>before_set\<close>: a text is refused that has a \<open>%\<close> besides \<open>%%\<close> and references.\<close>

fun without_doubles :: "string \<Rightarrow> string" where
  "without_doubles (a # b # cs) =
     (if a = CHR ''%'' \<and> b = CHR ''%'' then without_doubles cs else a # without_doubles (b # cs))"
| "without_doubles cs = cs"

function without_references :: "string \<Rightarrow> string" where
  "without_references [] = []"
| "without_references (c # cs) =
     (if c = CHR ''%'' \<and> take 1 cs = ''('' then
        (case option_reference (drop 1 cs) of
           None \<Rightarrow> c # without_references cs
         | Some (name, after) \<Rightarrow> without_references after)
      else c # without_references cs)"
  by pat_completeness auto
termination
  by (relation "measure length") (auto dest!: option_reference_shorter)

definition set_option :: "string \<Rightarrow> string \<Rightarrow> options \<Rightarrow> exn + options" where
  "set_option name v opts =
     (if CHR ''%'' \<in> set (without_references (without_doubles v))
      then Inl (ValueError ''invalid interpolation syntax'') else Inr (AList.update name v opts))"

definition get_option :: "string \<Rightarrow> options \<Rightarrow> exn + string option" where
  "get_option name opts =
     (case map_of opts name of
        None \<Rightarrow> Inr None
      | Some v \<Rightarrow> bind_exn (interpolate 9 opts v) (\<lambda>text. Inr (Some text)))"

text \<open>\<open>get_section\<close>: all options of the section, each interpolated.\<close>

fun read_options :: "options \<Rightarrow> options \<Rightarrow> exn + options" where
  "read_options opts [] = Inr []"
| "read_options opts ((name, v) # later) =
     bind_exn (interpolate 9 opts v) (\<lambda>text.
     bind_exn (read_options opts later) (\<lambda>texts. Inr ((name, text) # texts)))"

section \<open>alembic.ini\<close>

definition alembic_ini :: options where
  "alembic_ini =
     [(''script_location'', ''alembic''),
      (''prepend_sys_path'', ''src''),
      (''version_path_separator'', ''os''),
      (''recursive_version_locations'', ''true''),
      (''file_template'', ''%%(year)d_%%(month).2d_%%(day).2d_%%(hour).2d%%(minute).2d-%%(rev)s_%%(slug)s''),
      (''truncate_slug_length'', ''40''),
      (''timezone'', ''UTC''),
      (''sqlalchemy.url'', [])]"

section \<open>env.py\<close>

text \<open>What a run does outside the database, in order, and which of the calls fail.\<close>

datatype engine_call = Create_engine string | Connect | Close_connection | Dispose_engine

text \<open>What an offline script is written for: the dialect of the URL, and how the script writes its values.\<close>

record offline_context =
  oc_dialect :: string
  oc_literal_binds :: bool
  oc_paramstyle :: string

record migration_run =
  mg_database :: "database \<times> string option"
  mg_calls :: "engine_call list"
  mg_context :: "offline_context option"
  mg_script :: "ddl list"

definition engine_call :: "(engine_call \<Rightarrow> exn option) \<Rightarrow> engine_call \<Rightarrow> (migration_run, unit) prog" where
  "engine_call fault c s =
     ((case fault c of None \<Rightarrow> Inr () | Some e \<Rightarrow> Inl e), s\<lparr>mg_calls := mg_calls s @ [c]\<rparr>)"

definition on_database :: "(database \<times> string option, unit) prog \<Rightarrow> (migration_run, unit) prog" where
  "on_database m s = (case m (mg_database s) of (r, d) \<Rightarrow> (r, s\<lparr>mg_database := d\<rparr>))"

text \<open>
  Alembic reads the current revision from the database; offline there is none, and the script starts at the
  base. \<open>script_from\<close> collects the operations, for at most so many revisions.
\<close>

fun script_from :: "nat \<Rightarrow> string option \<Rightarrow> ddl list" where
  "script_from 0 current = []"
| "script_from (Suc k) current =
     (case find (\<lambda>v. rv_down_revision v = current) versions of
        None \<Rightarrow> []
      | Some v \<Rightarrow> rv_upgrade v @ script_from k (Some (rv_revision v)))"

text \<open>
  \<open>context.configure\<close> with a URL and no connection. Without a URL, or with an empty one, Alembic has nothing to
  take the dialect from and raises a bare \<open>Exception\<close>; otherwise SQLAlchemy parses the URL and loads the dialect it
  names, or raises for a URL it cannot parse or a dialect it does not know. This is the parameter \<open>dialect_of\<close>.
\<close>

definition no_url_error :: exn where "no_url_error = ForeignError ''Exception''"

definition configure_offline :: "(string \<Rightarrow> exn + string) \<Rightarrow> string option \<Rightarrow> (migration_run, unit) prog" where
  "configure_offline dialect_of url =
     (case url of
        None \<Rightarrow> raise no_url_error
      | Some [] \<Rightarrow> raise no_url_error
      | Some (c # cs) \<Rightarrow>
          andthen (lift_exn (dialect_of (c # cs))) (\<lambda>dialect.
            modifies (\<lambda>s. s\<lparr>mg_context :=
              Some \<lparr>oc_dialect = dialect, oc_literal_binds = True, oc_paramstyle = ''named''\<rparr>\<rparr>)))"

definition run_migrations_offline :: "(string \<Rightarrow> exn + string) \<Rightarrow> options \<Rightarrow> (migration_run, unit) prog" where
  "run_migrations_offline dialect_of opts =
     andthen (lift_exn (get_option ''sqlalchemy.url'' opts)) (\<lambda>url.
     andthen (configure_offline dialect_of url) (\<lambda>_.
       modifies (\<lambda>s. s\<lparr>mg_script := mg_script s @ script_from (length versions) None\<rparr>)))"

text \<open>\<open>async_engine_from_config\<close> takes the options with its prefix; without a URL it raises \<open>KeyError\<close>.\<close>

definition run_async_migrations :: "(engine_call \<Rightarrow> exn option) \<Rightarrow> options \<Rightarrow> (migration_run, unit) prog" where
  "run_async_migrations fault opts =
     andthen (lift_exn (read_options opts opts)) (\<lambda>texts.
     andthen (case map_of texts ''sqlalchemy.url'' of
                None \<Rightarrow> raise (ForeignError ''KeyError'')
              | Some url \<Rightarrow> engine_call fault (Create_engine url)) (\<lambda>_.
     andthen (engine_call fault Connect) (\<lambda>_.
     andthen (finally_do (on_database do_run_migrations) (engine_call fault Close_connection)) (\<lambda>_.
       engine_call fault Dispose_engine))))"

definition run_migrations_online :: "(engine_call \<Rightarrow> exn option) \<Rightarrow> options \<Rightarrow> (migration_run, unit) prog" where
  "run_migrations_online fault opts = run_async_migrations fault opts"

text \<open>\<open>settings.database_url.replace("%", "%%")\<close>, and the module as a whole.\<close>

fun escape_percent :: "string \<Rightarrow> string" where
  "escape_percent [] = []"
| "escape_percent (c # cs) = (if c = CHR ''%'' then ''%%'' else [c]) @ escape_percent cs"

definition run_env ::
    "(engine_call \<Rightarrow> exn option) \<Rightarrow> (string \<Rightarrow> exn + string) \<Rightarrow> bool \<Rightarrow> setting_source \<Rightarrow> options \<Rightarrow>
     (migration_run, unit) prog" where
  "run_env fault dialect_of is_offline_mode src opts =
     andthen (lift_exn (settings_from_env src)) (\<lambda>s.
     andthen (lift_exn (set_option ''sqlalchemy.url'' (escape_percent (st_database_url s)) opts)) (\<lambda>opts'.
       if is_offline_mode then run_migrations_offline dialect_of opts' else run_migrations_online fault opts'))"

section \<open>The URL survives the parser\<close>

lemma without_doubles_escaped: "without_doubles (escape_percent url) = filter (\<lambda>c. c \<noteq> CHR ''%'') url"
proof (induction url)
  case (Cons c cs)
  have plain: "without_doubles (a # bs) = a # without_doubles bs" if "a \<noteq> CHR ''%''" for a bs
    using that by (cases bs) simp_all
  show ?case using Cons by (simp add: plain)
qed simp

lemma without_references_plain: "CHR ''%'' \<notin> set cs \<Longrightarrow> without_references cs = cs"
  by (induction cs) auto

lemma set_escaped: "set_option name (escape_percent url) opts = Inr (AList.update name (escape_percent url) opts)"
  by (simp add: set_option_def without_doubles_escaped without_references_plain)

lemma interpolate_escaped: "interpolate depth opts (escape_percent url) = Inr url"
  by (induction url) auto

lemma interpolate_plain: "CHR ''%'' \<notin> set cs \<Longrightarrow> interpolate depth opts cs = Inr cs"
  by (induction cs) auto

lemma read_ini:
  assumes "CHR ''%'' \<notin> set here"
  shows "\<exists>texts. read_options opts (AList.update ''sqlalchemy.url'' (escape_percent url) ((''here'', here) # alembic_ini)) = Inr texts \<and>
    map_of texts ''sqlalchemy.url'' = Some url"
proof -
  have template: "interpolate 9 opts ''%%(year)d_%%(month).2d_%%(day).2d_%%(hour).2d%%(minute).2d-%%(rev)s_%%(slug)s'' =
      Inr ''%(year)d_%(month).2d_%(day).2d_%(hour).2d%(minute).2d-%(rev)s_%(slug)s''"
    by simp
  show ?thesis using assms
    by (simp add: alembic_ini_def interpolate_plain interpolate_escaped template)
qed

section \<open>The script is the run\<close>

lemma run_ddl_append: "run_ddl (xs @ ys) d = bind_exn (run_ddl xs d) (run_ddl ys)"
proof (induction xs arbitrary: d)
  case (Cons op xs)
  then show ?case by (cases "op d") simp_all
qed simp

lemma script_upgrade: "upgrade_from n current d = Inr (d', current') \<Longrightarrow> run_ddl (script_from n current) d = Inr d'"
  by (induction n current d rule: upgrade_from.induct)
    (auto simp: run_ddl_append bind_exn_Inr_iff split: option.splits)

text \<open>The calls of a run, until one fails.\<close>

fun until_fault :: "('c \<Rightarrow> exn option) \<Rightarrow> 'c list \<Rightarrow> (exn + unit) \<times> 'c list" where
  "until_fault fault [] = (Inr (), [])"
| "until_fault fault (c # cs) =
     (case fault c of
        Some e \<Rightarrow> (Inl e, [c])
      | None \<Rightarrow> (case until_fault fault cs of (r, calls) \<Rightarrow> (r, c # calls)))"

lemma online_run:
  assumes "read_options opts opts = Inr texts" and "map_of texts ''sqlalchemy.url'' = Some url"
    and "do_run_migrations m = (Inr (), m')"
  shows "run_migrations_online fault opts \<lparr>mg_database = m, mg_calls = [], mg_context = None, mg_script = []\<rparr> =
    (case until_fault fault [Create_engine url, Connect, Close_connection, Dispose_engine] of
       (r, calls) \<Rightarrow>
         (r, \<lparr>mg_database = (if Close_connection \<in> set calls then m' else m), mg_calls = calls, mg_context = None, mg_script = []\<rparr>))"
  by (simp add: run_migrations_online_def run_async_migrations_def andthen_def lift_exn_def assms engine_call_def
      finally_do_def on_database_def split: option.split)

lemma offline_run:
  assumes "map_of opts ''sqlalchemy.url'' = Some (escape_percent url)"
  shows "run_migrations_offline dialect_of opts m =
    (case if url = [] then Inl no_url_error else dialect_of url of
       Inl e \<Rightarrow> (Inl e, m)
     | Inr dialect \<Rightarrow>
         (Inr (), m\<lparr>mg_context := Some \<lparr>oc_dialect = dialect, oc_literal_binds = True, oc_paramstyle = ''named''\<rparr>,
                    mg_script := mg_script m @ script_from (length versions) None\<rparr>))"
proof -
  have get: "get_option ''sqlalchemy.url'' opts = Inr (Some url)"
    using assms by (simp add: get_option_def interpolate_escaped)
  show ?thesis
    by (cases url) (simp_all add: run_migrations_offline_def configure_offline_def get andthen_def lift_exn_def raise_def
        modifies_def split: sum.split)
qed

section \<open>Properties\<close>

text \<open>C37: The environment of the migrations. Whatever characters the URL of the settings has, the run opens its
  engine on exactly this URL; from any revision, and whichever of its calls fails, it stops there, closes the
  connection if it had one, and leaves the database either as it was or with exactly the tables of the models.
  The offline run never touches the database. It fails and writes nothing when the URL is empty or SQLAlchemy
  refuses it; otherwise it writes a script for the dialect this URL names, with its values written out, and the
  script makes the same database from an empty one.\<close>

theorem environment_migrates:
  assumes "settings_from_env src = Inr s" and "CHR ''%'' \<notin> set here" and "at_revision k d" and "k \<le> 4"
  shows "\<exists>d' script.
    (\<lambda>n. map_option (\<lambda>t. without_defaults (declared t)) (db_tables d' n)) = models_metadata \<and>
    run_env fault dialect_of False src ((''here'', here) # alembic_ini)
        \<lparr>mg_database = (d, revision_name k), mg_calls = [], mg_context = None, mg_script = []\<rparr> =
      (case until_fault fault [Create_engine (st_database_url s), Connect, Close_connection, Dispose_engine] of
         (r, calls) \<Rightarrow>
           (r, \<lparr>mg_database = (if Close_connection \<in> set calls then (d', Some ''004_gateway_charges'') else (d, revision_name k)),
                mg_calls = calls, mg_context = None, mg_script = []\<rparr>)) \<and>
    run_env fault dialect_of True src ((''here'', here) # alembic_ini)
        \<lparr>mg_database = (d, revision_name k), mg_calls = [], mg_context = None, mg_script = []\<rparr> =
      (case if st_database_url s = [] then Inl (ForeignError ''Exception'') else dialect_of (st_database_url s) of
         Inl e \<Rightarrow> (Inl e, \<lparr>mg_database = (d, revision_name k), mg_calls = [], mg_context = None, mg_script = []\<rparr>)
       | Inr dialect \<Rightarrow>
           (Inr (), \<lparr>mg_database = (d, revision_name k), mg_calls = [],
              mg_context = Some \<lparr>oc_dialect = dialect, oc_literal_binds = True, oc_paramstyle = ''named''\<rparr>,
              mg_script = script\<rparr>)) \<and>
    (k = 0 \<longrightarrow> run_ddl script d = Inr d')"
proof -
  let ?url = "escape_percent (st_database_url s)"
  let ?opts = "AList.update ''sqlalchemy.url'' ?url ((''here'', here) # alembic_ini)"
  let ?script = "script_from (length versions) None"
  obtain d' where run: "do_run_migrations (d, revision_name k) = (Inr (), (d', revision_name 4))" and d': "at_revision 4 d'"
    using migrations_run [OF assms(3,4)] by blast
  obtain texts where texts: "read_options ?opts ?opts = Inr texts" "map_of texts ''sqlalchemy.url'' = Some (st_database_url s)"
    using read_ini [OF assms(2)] by blast
  have models: "(\<lambda>n. map_option (\<lambda>t. without_defaults (declared t)) (db_tables d' n)) = models_metadata"
    using d' by (rule at_head_models)
  have four: "revision_name 4 = Some ''004_gateway_charges''" by (simp add: revision_name_def versions_def)
  have opts: "set_option ''sqlalchemy.url'' ?url ((''here'', here) # alembic_ini) = Inr ?opts" by (rule set_escaped)
  have "run_env fault dialect_of False src ((''here'', here) # alembic_ini) = run_migrations_online fault ?opts"
    "run_env fault dialect_of True src ((''here'', here) # alembic_ini) = run_migrations_offline dialect_of ?opts"
    by (rule ext, simp only: run_env_def andthen_def lift_exn_def assms(1) opts prod.case sum.case if_True if_False)+
  moreover note online_run [OF texts run [unfolded four], of fault]
  moreover have "map_of ?opts ''sqlalchemy.url'' = Some ?url" by (simp add: update_conv')
  note offline_run [OF this, of dialect_of "\<lparr>mg_database = (d, revision_name k), mg_calls = [], mg_context = None, mg_script = []\<rparr>"]
  moreover have "k = 0 \<longrightarrow> run_ddl ?script d = Inr d'"
    using run script_upgrade [of "length versions" None d d' "revision_name 4"]
    by (auto simp: do_run_migrations_def revision_name_def split: sum.splits)
  ultimately show ?thesis using models by (intro exI [of _ d'] exI [of _ ?script]) (simp add: no_url_error_def split: sum.split)
qed

theorem environment_migrates_witness:
  "\<exists>d' script. run_env (\<lambda>c. if c = Dispose_engine then Some CancelledError else None) Inr False
       \<lparr>sr_float = \<lambda>_. None, sr_int = \<lambda>_. None, sr_bool = \<lambda>_. None,
        sr_lookup = [''database_url'' \<mapsto> ''postgresql://app:p%40ss@db/app'', ''rabbitmq_url'' \<mapsto> ''amqp://mq'', ''api_key'' \<mapsto> ''k'']\<rparr>
       ((''here'', ''/app'') # alembic_ini)
       \<lparr>mg_database = (empty_database, None), mg_calls = [], mg_context = None, mg_script = []\<rparr> =
     (Inl CancelledError,
      \<lparr>mg_database = (d', Some ''004_gateway_charges''),
       mg_calls = [Create_engine ''postgresql://app:p%40ss@db/app'', Connect, Close_connection, Dispose_engine],
       mg_context = None, mg_script = []\<rparr>) \<and>
     run_env (\<lambda>c. if c = Dispose_engine then Some CancelledError else None) (\<lambda>url. Inr (takeWhile (\<lambda>c. c \<noteq> CHR '':'') url)) True
       \<lparr>sr_float = \<lambda>_. None, sr_int = \<lambda>_. None, sr_bool = \<lambda>_. None,
        sr_lookup = [''database_url'' \<mapsto> ''postgresql://app:p%40ss@db/app'', ''rabbitmq_url'' \<mapsto> ''amqp://mq'', ''api_key'' \<mapsto> ''k'']\<rparr>
       ((''here'', ''/app'') # alembic_ini)
       \<lparr>mg_database = (empty_database, None), mg_calls = [], mg_context = None, mg_script = []\<rparr> =
     (Inr (),
      \<lparr>mg_database = (empty_database, None), mg_calls = [],
       mg_context = Some \<lparr>oc_dialect = ''postgresql'', oc_literal_binds = True, oc_paramstyle = ''named''\<rparr>,
       mg_script = script\<rparr>)"
proof -
  let ?src = "\<lparr>sr_float = \<lambda>_. None, sr_int = \<lambda>_. None, sr_bool = \<lambda>_. None,
        sr_lookup = [''database_url'' \<mapsto> ''postgresql://app:p%40ss@db/app'', ''rabbitmq_url'' \<mapsto> ''amqp://mq'', ''api_key'' \<mapsto> ''k'']\<rparr>"
  let ?fault = "\<lambda>c. if c = Dispose_engine then Some CancelledError else None"
  have "bare_source ?src" by (simp add: bare_source_def)
  then obtain s where s: "settings_from_env ?src = Inr s" "st_database_url s = ''postgresql://app:p%40ss@db/app''"
    by (simp add: bare_settings)
  have "at_revision 0 empty_database" by (simp add: empty_at_revision)
  note at = environment_migrates [OF s(1) _ this, of "''/app''" ?fault]
  show ?thesis
    using at [of Inr] at [of "\<lambda>url. Inr (takeWhile (\<lambda>c. c \<noteq> CHR '':'') url)"]
    by (auto simp: s(2) revision_name_def)
qed

end
