(* ===== verification/Worker.thy ===== *)
theory Worker
  imports Relay
begin

text \<open>
  \<open>src/presentation/worker.py\<close> as asyncio runs it: \<open>start\<close> and \<open>stop\<close> may be called by any task of the process, and a
  \<open>stop\<close> gives up control while it waits. \<open>Relay\<close> has the calls as functions, one after the other; here they are
  the steps of a machine in which they interleave. The lemmas show when there is only one loop at a time, and that
  the functions are the machine when calls do not overlap.
\<close>

section \<open>The machine\<close>

text \<open>
  Every task the loop has created, by number, with how it ended; \<open>self._task\<close>; and for every call of \<open>stop\<close> that
  waits the task it waits for (its local variable \<open>task\<close>).
\<close>

record loop =
  lp_stop :: bool
  lp_task :: "nat option"
  lp_tasks :: "nat \<rightharpoonup> worker_task"
  lp_joins :: "nat \<rightharpoonup> nat"

definition loop_new :: loop where
  "loop_new = \<lparr>lp_stop = False, lp_task = None, lp_tasks = Map.empty, lp_joins = Map.empty\<rparr>"

definition task_done :: "loop \<Rightarrow> nat \<Rightarrow> bool" where
  "task_done s t \<longleftrightarrow> lp_tasks s t \<noteq> Some Running"

text \<open>\<open>start\<close>; \<open>t\<close> is the task that \<open>create_task\<close> makes.\<close>

definition loop_start :: "nat \<Rightarrow> loop \<Rightarrow> loop" where
  "loop_start t s =
     (case lp_task s of
        Some u \<Rightarrow> if \<not> task_done s u then s
                  else s\<lparr>lp_stop := False, lp_task := Some t, lp_tasks := (lp_tasks s)(t \<mapsto> Running)\<rparr>
      | None \<Rightarrow> s\<lparr>lp_stop := False, lp_task := Some t, lp_tasks := (lp_tasks s)(t \<mapsto> Running)\<rparr>)"

text \<open>\<open>stop\<close> up to its \<open>await\<close>: a task that is over is not waited for.\<close>

definition loop_stop :: "nat \<Rightarrow> loop \<Rightarrow> loop" where
  "loop_stop c s =
     (case lp_task s of
        None \<Rightarrow> s\<lparr>lp_stop := True\<rparr>
      | Some t \<Rightarrow>
          if task_done s t then s\<lparr>lp_stop := True, lp_task := None\<rparr>
          else s\<lparr>lp_stop := True, lp_joins := (lp_joins s)(c \<mapsto> t)\<rparr>)"

text \<open>\<open>_join\<close> after its \<open>await\<close>: the task it waited for is over, whatever \<open>self._task\<close> is by now.\<close>

definition loop_joined :: "nat \<Rightarrow> loop \<Rightarrow> loop" where
  "loop_joined c s =
     (case lp_joins s c of
        None \<Rightarrow> s
      | Some t \<Rightarrow>
          (let s' = s\<lparr>lp_joins := (lp_joins s)(c := None)\<rparr>
           in if task_done s t then s'\<lparr>lp_task := None\<rparr> else s'))"

text \<open>
  The calls and what happens between them: a task ends, by itself once the event is set, or with an exception (the
  cancellation of a waiting caller cancels its task), which \<open>_guard\<close> lets pass and \<open>_consume_done\<close> only looks at.
\<close>

datatype loop_event = Start nat | Stop nat | Ends nat "exn option" | Joined nat

inductive loop_step :: "loop \<Rightarrow> loop_event \<Rightarrow> loop \<Rightarrow> bool" where
  start: "lp_tasks s t = None \<Longrightarrow> loop_step s (Start t) (loop_start t s)"
| stop: "lp_joins s c = None \<Longrightarrow> loop_step s (Stop c) (loop_stop c s)"
| ends: "lp_tasks s t = Some Running \<Longrightarrow> outcome = None \<longrightarrow> lp_stop s \<Longrightarrow>
    loop_step s (Ends t outcome) (s\<lparr>lp_tasks := (lp_tasks s)(t \<mapsto> Done outcome)\<rparr>)"
| joined: "lp_joins s c = Some t \<Longrightarrow> task_done s t \<Longrightarrow> loop_step s (Joined c) (loop_joined c s)"

inductive_cases loop_step_cases:
  "loop_step s (Start t) s'" "loop_step s (Stop c) s'" "loop_step s (Ends t outcome) s'" "loop_step s (Joined c) s'"

inductive_simps loop_step_simps:
  "loop_step s (Start t) s'" "loop_step s (Stop c) s'" "loop_step s (Ends t outcome) s'" "loop_step s (Joined c) s'"

inductive loop_run :: "loop \<Rightarrow> loop_event list \<Rightarrow> loop \<Rightarrow> bool" where
  nothing: "loop_run s [] s"
| event: "loop_step s e s1 \<Longrightarrow> loop_run s1 es s' \<Longrightarrow> loop_run s (e # es) s'"

inductive_cases loop_run_cases: "loop_run s (e # es) s'" "loop_run s [] s'"

text \<open>The states of a loop that is not started while a \<open>stop\<close> is waiting.\<close>

inductive disciplined :: "loop \<Rightarrow> bool" where
  created: "disciplined loop_new"
| further: "disciplined s \<Longrightarrow> loop_step s e s' \<Longrightarrow> (\<And>t. e = Start t \<Longrightarrow> lp_joins s = Map.empty) \<Longrightarrow> disciplined s'"

section \<open>One loop at a time\<close>

text \<open>
  Only the current task runs; a \<open>stop\<close> waits for the current task, or for one that is over while there is none; and
  after a \<open>stop\<close> a task that runs is waited for.
\<close>

definition single_loop :: "loop \<Rightarrow> bool" where
  "single_loop s \<longleftrightarrow>
     (\<forall>t. lp_tasks s t = Some Running \<longrightarrow> lp_task s = Some t) \<and>
     (\<forall>c t. lp_joins s c = Some t \<longrightarrow> lp_task s = Some t \<or> lp_task s = None) \<and>
     (\<forall>t. lp_stop s \<longrightarrow> lp_tasks s t = Some Running \<longrightarrow> (\<exists>c. lp_joins s c = Some t))"

lemma single_loop_start:
  assumes "single_loop s" and "lp_joins s = Map.empty" and "lp_tasks s t = None"
  shows "single_loop (loop_start t s)"
  using assms by (auto simp: single_loop_def loop_start_def task_done_def split: option.splits)

lemma single_loop_stop:
  assumes "single_loop s" and "lp_joins s c = None"
  shows "single_loop (loop_stop c s)"
proof (cases "lp_task s")
  case None
  with assms(1) show ?thesis by (simp add: single_loop_def loop_stop_def)
next
  case (Some t)
  show ?thesis
  proof (cases "task_done s t")
    case True
    with Some assms(1) have "lp_tasks s u \<noteq> Some Running" for u by (auto simp: single_loop_def task_done_def)
    with True Some show ?thesis by (simp add: single_loop_def loop_stop_def)
  next
    case False
    then have same: "loop_stop c s = s\<lparr>lp_stop := True, lp_joins := (lp_joins s)(c \<mapsto> t)\<rparr>"
      using Some by (simp add: loop_stop_def)
    show ?thesis using assms(1) Some by (simp add: same single_loop_def) blast
  qed
qed

lemma single_loop_ends:
  assumes "single_loop s"
  shows "single_loop (s\<lparr>lp_tasks := (lp_tasks s)(t \<mapsto> Done outcome)\<rparr>)"
  using assms by (simp add: single_loop_def)

lemma single_loop_joined:
  assumes "single_loop s" and "lp_joins s c = Some t" and "task_done s t"
  shows "single_loop (loop_joined c s)"
proof -
  have "lp_task s = Some t \<or> lp_task s = None" using assms(1,2) by (simp add: single_loop_def)
  with assms(1,3) have "lp_tasks s u \<noteq> Some Running" for u by (auto simp: single_loop_def task_done_def)
  with assms(2,3) show ?thesis by (simp add: single_loop_def loop_joined_def Let_def)
qed

lemma disciplined_single: "disciplined s \<Longrightarrow> single_loop s"
proof (induction rule: disciplined.induct)
  case created
  show ?case by (simp add: single_loop_def loop_new_def)
next
  case (further s e s')
  from further.hyps(2) show ?case
  proof cases
    case (start t)
    then show ?thesis using further single_loop_start by blast
  next
    case (stop c)
    then show ?thesis using further single_loop_stop by blast
  next
    case (ends t outcome)
    then show ?thesis using further single_loop_ends by blast
  next
    case (joined c t)
    then show ?thesis using further single_loop_joined by blast
  qed
qed

section \<open>Calls that do not overlap\<close>

text \<open>The loop of \<open>Relay\<close>: the event and the current task.\<close>

definition as_worker :: "loop \<Rightarrow> worker_loop" where
  "as_worker s = \<lparr>wl_stop = lp_stop s, wl_task = (case lp_task s of None \<Rightarrow> None | Some t \<Rightarrow> lp_tasks s t)\<rparr>"

definition known_task :: "loop \<Rightarrow> bool" where
  "known_task s \<longleftrightarrow> (\<forall>t. lp_task s = Some t \<longrightarrow> lp_tasks s t \<noteq> None)"

text \<open>What a call of \<open>stop\<close> that waited ends in.\<close>

definition join_result :: "bool \<Rightarrow> worker_task option \<Rightarrow> exn + unit" where
  "join_result caller_cancelled task =
     (case task of
        Some (Done (Some e)) \<Rightarrow> if e = CancelledError \<and> \<not> caller_cancelled then Inr () else Inl e
      | _ \<Rightarrow> Inr ())"

lemma start_refines: "known_task s \<Longrightarrow> lp_tasks s t = None \<Longrightarrow> as_worker (loop_start t s) = worker_start (as_worker s)"
  by (auto simp: as_worker_def worker_start_def loop_start_def task_done_def known_task_def
      split: option.splits worker_task.splits)

lemma stop_at_once_refines:
  assumes "known_task s" and "\<forall>t. lp_task s = Some t \<longrightarrow> task_done s t"
  shows "worker_stop outcome b (as_worker s) =
    (join_result b (wl_task (as_worker s)), as_worker (loop_stop c s))"
proof (cases "lp_task s")
  case None
  then show ?thesis
    by (simp add: worker_stop_def andthen_def modifies_def worker_join_def as_worker_def loop_stop_def join_result_def)
next
  case (Some t)
  then obtain e where "lp_tasks s t = Some (Done e)"
    using assms by (cases "lp_tasks s t"; cases "the (lp_tasks s t)") (auto simp: known_task_def task_done_def)
  then show ?thesis using Some
    by (auto simp: worker_stop_def andthen_def modifies_def worker_join_def as_worker_def loop_stop_def join_result_def
        task_done_def Let_def split: option.split)
qed

lemma stop_waiting_refines:
  assumes "lp_task s = Some t" and "lp_tasks s t = Some Running" and "lp_joins s = Map.empty"
    and "loop_run s [Stop c, Ends t outcome, Joined c] s'"
  shows "worker_stop outcome b (as_worker s) = (join_result b (Some (Done outcome)), as_worker s')"
proof -
  let ?s1 = "s\<lparr>lp_stop := True, lp_joins := [c \<mapsto> t]\<rparr>"
  have "s' = loop_joined c (?s1\<lparr>lp_tasks := (lp_tasks s)(t \<mapsto> Done outcome)\<rparr>)"
    using assms by (auto elim!: loop_run_cases loop_step_cases simp: loop_stop_def task_done_def)
  then show ?thesis
    using assms(1,2)
    by (auto simp: worker_stop_def andthen_def modifies_def worker_join_def as_worker_def join_result_def loop_joined_def
        task_done_def Let_def split: option.split)
qed

section \<open>Calls that overlap\<close>

text \<open>
  A loop that is started again between the end of its task and the moment a waiting \<open>stop\<close> resumes loses its new
  task, and the next \<open>start\<close> makes another beside it.
\<close>

definition overlapping :: "loop_event list" where
  "overlapping = [Start 0, Stop 0, Ends 0 None, Start 1, Joined 0, Start 2]"

definition two_loops :: loop where
  "two_loops = \<lparr>lp_stop = False, lp_task = Some 2, lp_tasks = [0 \<mapsto> Done None, 1 \<mapsto> Running, 2 \<mapsto> Running],
     lp_joins = Map.empty\<rparr>"

lemma overlap_makes_two: "loop_run loop_new overlapping two_loops"
proof -
  let ?t0 = "[0 \<mapsto> Done None] :: nat \<rightharpoonup> worker_task"
  have "loop_step loop_new (Start 0) \<lparr>lp_stop = False, lp_task = Some 0, lp_tasks = [0 \<mapsto> Running], lp_joins = Map.empty\<rparr>"
    by (simp add: loop_step_simps loop_new_def loop_start_def)
  moreover have "loop_step \<lparr>lp_stop = False, lp_task = Some 0, lp_tasks = [0 \<mapsto> Running], lp_joins = Map.empty\<rparr> (Stop 0)
      \<lparr>lp_stop = True, lp_task = Some 0, lp_tasks = [0 \<mapsto> Running], lp_joins = [0 \<mapsto> 0]\<rparr>"
    by (simp add: loop_step_simps loop_stop_def task_done_def)
  moreover have "loop_step \<lparr>lp_stop = True, lp_task = Some 0, lp_tasks = [0 \<mapsto> Running], lp_joins = [0 \<mapsto> 0]\<rparr> (Ends 0 None)
      \<lparr>lp_stop = True, lp_task = Some 0, lp_tasks = ?t0, lp_joins = [0 \<mapsto> 0]\<rparr>"
    by (simp add: loop_step_simps)
  moreover have "loop_step \<lparr>lp_stop = True, lp_task = Some 0, lp_tasks = ?t0, lp_joins = [0 \<mapsto> 0]\<rparr> (Start 1)
      \<lparr>lp_stop = False, lp_task = Some 1, lp_tasks = ?t0(1 \<mapsto> Running), lp_joins = [0 \<mapsto> 0]\<rparr>"
    by (simp add: loop_step_simps loop_start_def task_done_def)
  moreover have "loop_step \<lparr>lp_stop = False, lp_task = Some 1, lp_tasks = ?t0(1 \<mapsto> Running), lp_joins = [0 \<mapsto> 0]\<rparr> (Joined 0)
      \<lparr>lp_stop = False, lp_task = None, lp_tasks = ?t0(1 \<mapsto> Running), lp_joins = Map.empty\<rparr>"
    by (simp add: loop_step_simps loop_joined_def task_done_def)
  moreover have "loop_step \<lparr>lp_stop = False, lp_task = None, lp_tasks = ?t0(1 \<mapsto> Running), lp_joins = Map.empty\<rparr> (Start 2) two_loops"
    by (simp add: loop_step_simps loop_start_def two_loops_def)
  ultimately show ?thesis unfolding overlapping_def by (blast intro: loop_run.intros)
qed

section \<open>Properties\<close>

definition running :: "loop \<Rightarrow> nat set" where
  "running s = {t. lp_tasks s t = Some Running}"

text \<open>C9: One relay at a time: a loop that is never started while a \<open>stop\<close> of it waits has at most one task running,
  the current one, however its starts, stops and ends interleave; and when all its stops have returned and it was
  not started again, none.\<close>

theorem one_loop_at_a_time:
  assumes "disciplined s"
  shows "card (running s) \<le> 1 \<and> running s \<subseteq> set_option (lp_task s) \<and>
    (lp_stop s \<and> lp_joins s = Map.empty \<longrightarrow> running s = {})"
proof -
  note single = disciplined_single [OF assms, unfolded single_loop_def]
  have sub: "running s \<subseteq> set_option (lp_task s)" using single by (auto simp: running_def)
  moreover have "card (running s) \<le> 1"
  proof (cases "lp_task s")
    case None
    then show ?thesis using sub by simp
  next
    case (Some t)
    then have "card (running s) \<le> card {t}" using sub by (intro card_mono) simp_all
    then show ?thesis by simp
  qed
  moreover have "running s = {}" if "lp_stop s" "lp_joins s = Map.empty"
    using single that by (auto simp: running_def)
  ultimately show ?thesis by blast
qed

theorem one_loop_at_a_time_witness:
  "\<exists>s. loop_run loop_new [Start 0, Stop 0, Ends 0 (Some CancelledError), Joined 0] s \<and> running s = {}"
proof -
  let ?s1 = "\<lparr>lp_stop = False, lp_task = Some 0, lp_tasks = [0 \<mapsto> Running], lp_joins = Map.empty\<rparr>"
  let ?s2 = "?s1\<lparr>lp_stop := True, lp_joins := [0 \<mapsto> 0]\<rparr>"
  let ?s3 = "?s2\<lparr>lp_tasks := [0 \<mapsto> Done (Some CancelledError)]\<rparr>"
  let ?s4 = "?s3\<lparr>lp_task := None, lp_joins := Map.empty\<rparr>"
  have one: "loop_step loop_new (Start 0) ?s1" by (simp add: loop_step_simps loop_new_def loop_start_def)
  have two: "loop_step ?s1 (Stop 0) ?s2" by (simp add: loop_step_simps loop_stop_def task_done_def)
  have three: "loop_step ?s2 (Ends 0 (Some CancelledError)) ?s3" by (simp add: loop_step_simps)
  have four: "loop_step ?s3 (Joined 0) ?s4" by (simp add: loop_step_simps loop_joined_def task_done_def)
  have "lp_joins loop_new = Map.empty" by (simp add: loop_new_def)
  then have "disciplined ?s1" using disciplined.further [OF disciplined.created one] by simp
  then have "disciplined ?s2" by (rule disciplined.further [OF _ two]) simp
  then have "disciplined ?s3" by (rule disciplined.further [OF _ three]) simp
  then have "disciplined ?s4" by (rule disciplined.further [OF _ four]) simp
  from one_loop_at_a_time [OF this] have "running ?s4 = {}" by simp
  moreover have "loop_run loop_new [Start 0, Stop 0, Ends 0 (Some CancelledError), Joined 0] ?s4"
    using one two three four by (blast intro: loop_run.intros)
  ultimately show ?thesis by blast
qed

text \<open>Calls that overlap break it: the second start below makes a loop beside the one that runs.\<close>

lemma overlapping_calls_make_two_loops:
  "\<exists>s. loop_run loop_new [Start 0, Stop 0, Ends 0 None, Start 1, Joined 0, Start 2] s \<and> running s = {1, 2}"
  using overlap_makes_two by (auto simp: overlapping_def running_def two_loops_def split: if_splits)

end
