(* ===== verification/Ports.thy ===== *)
theory Ports
  imports PublishOutbox Charge
begin

text \<open>
  \<open>src/application/ports\<close>: the interfaces through which the use cases see the database, the broker, the gateway and
  the receivers of webhooks, as records of operations, and the instances that the infrastructure puts behind them. What
  the use cases rely on of the payments is stated as a contract: the payments of a unit of work are a map from ids to
  payments with unique keys. The locale proves its consequences once; the SQL repository is shown to keep it.
\<close>

section \<open>The interfaces\<close>

record payment_repository =
  pay_add :: "payment \<Rightarrow> unit action"
  pay_save :: "payment \<Rightarrow> unit action"
  pay_get :: "uuid \<Rightarrow> payment option action"
  pay_get_for_update :: "uuid \<Rightarrow> payment option action"
  pay_get_by_key :: "string \<Rightarrow> payment option action"

record outbox_writer =
  ob_add :: "string \<Rightarrow> pydict \<Rightarrow> time \<Rightarrow> unit action"

record outbox_queue =
  oq_claim_batch :: "int \<Rightarrow> time \<Rightarrow> time \<Rightarrow> outbox_record list action"
  oq_mark_processed :: "uuid \<Rightarrow> time \<Rightarrow> unit action"
  oq_release :: "uuid \<Rightarrow> outbox_status \<Rightarrow> int \<Rightarrow> time option \<Rightarrow> unit action"
  oq_unclaim :: "uuid list \<Rightarrow> unit action"
  oq_count_pending :: "int action"
  oq_count_failed :: "int action"
  oq_delete_processed_before :: "time \<Rightarrow> int \<Rightarrow> int action"

record inbox_repository =
  ir_has_message :: "uuid \<Rightarrow> bool action"
  ir_add :: "uuid \<Rightarrow> time \<Rightarrow> unit action"

record unit_of_work =
  uw_payments :: payment_repository
  uw_outbox :: outbox_writer
  uw_outbox_queue :: outbox_queue
  uw_inbox :: inbox_repository
  uw_enter :: "unit action"
  uw_exit :: "bool \<Rightarrow> unit action"
  uw_commit :: "unit action"
  uw_rollback :: "unit action"

record clock =
  ck_now :: "time action"

record gateway_result_cache =
  gc_get :: "uuid \<Rightarrow> gateway_result option action"
  gc_put_if_absent :: "uuid \<Rightarrow> gateway_result \<Rightarrow> gateway_result action"

record payment_gateway =
  pg_charge :: "payment \<Rightarrow> gateway_result action"

record publisher =
  pb_publish :: "string \<Rightarrow> string \<Rightarrow> pydict option \<Rightarrow> int option \<Rightarrow> unit action"

record webhook_sender =
  ws_send :: "string \<Rightarrow> pydict \<Rightarrow> string \<Rightarrow> unit action"

section \<open>What the infrastructure puts behind them\<close>

definition sql_payment_repository :: "env \<Rightarrow> payment_repository" where
  "sql_payment_repository env =
     \<lparr>pay_add = payments_add env, pay_save = payments_save env, pay_get = payments_get env,
      pay_get_for_update = payments_get_for_update env, pay_get_by_key = payments_get_by_key env\<rparr>"

definition sql_unit_of_work :: "env \<Rightarrow> unit_of_work" where
  "sql_unit_of_work env =
     \<lparr>uw_payments = sql_payment_repository env,
      uw_outbox = \<lparr>ob_add = outbox_add env\<rparr>,
      uw_outbox_queue = \<lparr>oq_claim_batch = claim_batch env, oq_mark_processed = mark_processed env,
        oq_release = queue_release env, oq_unclaim = queue_unclaim env, oq_count_pending = count_pending env,
        oq_count_failed = count_failed env, oq_delete_processed_before = delete_processed_before env\<rparr>,
      uw_inbox = \<lparr>ir_has_message = inbox_has_message env, ir_add = inbox_add env\<rparr>,
      uw_enter = uow_enter env, uw_exit = uow_exit env,
      uw_commit = uow_commit env, uw_rollback = uow_rollback env\<rparr>"

definition system_clock :: "env \<Rightarrow> clock" where
  "system_clock env = \<lparr>ck_now = clock_now env\<rparr>"

definition sql_result_cache :: "env \<Rightarrow> gateway_result_cache" where
  "sql_result_cache env = \<lparr>gc_get = sql_cache_get env, gc_put_if_absent = sql_cache_put_if_absent env\<rparr>"

definition random_payment_gateway :: "env \<Rightarrow> payment_gateway" where
  "random_payment_gateway env = \<lparr>pg_charge = sql_gateway_charge env\<rparr>"

definition rabbit_publisher :: "env \<Rightarrow> publisher" where
  "rabbit_publisher env = \<lparr>pb_publish = publisher_publish env\<rparr>"

definition http_webhook_sender :: "env \<Rightarrow> webhook_sender" where
  "http_webhook_sender env = \<lparr>ws_send = webhook_send env\<rparr>"

section \<open>The contract of the payments\<close>

text \<open>The payment with a key, if the map has one.\<close>

definition found_by_key :: "(uuid \<rightharpoonup> payment) \<Rightarrow> string \<Rightarrow> payment option \<Rightarrow> bool" where
  "found_by_key m k x \<longleftrightarrow>
     (case x of
        None \<Rightarrow> \<forall>i p. m i = Some p \<longrightarrow> p_key p \<noteq> k
      | Some p \<Rightarrow> m (p_id p) = Some p \<and> p_key p = k)"

definition key_free :: "(uuid \<rightharpoonup> payment) \<Rightarrow> string \<Rightarrow> bool" where
  "key_free m k \<longleftrightarrow> (\<forall>i p. m i = Some p \<longrightarrow> p_key p \<noteq> k)"

definition settled_with :: "bool \<Rightarrow> time \<Rightarrow> payment \<Rightarrow> payment" where
  "settled_with ok t p = p\<lparr>p_status := outcome_status ok, p_processed_at := Some t\<rparr>"

text \<open>
  \<open>held\<close> is the map that a unit of work sees, \<open>ready\<close> the worlds in which it can work, and \<open>kept p\<close> what a store makes
  of \<open>p\<close> (nothing, if it cannot be stored).
\<close>

locale payment_port =
  fixes repo :: payment_repository and ready :: "world \<Rightarrow> bool" and held :: "world \<Rightarrow> uuid \<rightharpoonup> payment"
    and kept :: "payment \<Rightarrow> payment option"
  assumes kept_identity: "kept p = Some q \<Longrightarrow> p_id q = p_id p \<and> p_key q = p_key p"
    and held_id: "ready w \<Longrightarrow> held w i = Some p \<Longrightarrow> p_id p = i"
    and held_key: "ready w \<Longrightarrow> held w i = Some p \<Longrightarrow> held w j = Some q \<Longrightarrow> p_key p = p_key q \<Longrightarrow> i = j"
    and get: "ready w \<Longrightarrow> \<exists>w'. pay_get repo i w = (Inr (held w i), w') \<and> ready w' \<and> held w' = held w"
    and get_for_update:
      "ready w \<Longrightarrow> \<exists>w'. pay_get_for_update repo i w = (Inr (held w i), w') \<and> ready w' \<and> held w' = held w"
    and get_by_key: "ready w \<Longrightarrow>
      \<exists>x w'. pay_get_by_key repo k w = (Inr x, w') \<and> found_by_key (held w) k x \<and> ready w' \<and> held w' = held w"
    and add_new: "ready w \<Longrightarrow> kept p = Some q \<Longrightarrow> held w (p_id p) = None \<Longrightarrow> key_free (held w) (p_key p) \<Longrightarrow>
      \<exists>w'. pay_add repo p w = (Inr (), w') \<and> ready w' \<and> held w' = (held w)(p_id p \<mapsto> q)"
    and add_used: "ready w \<Longrightarrow> kept p = Some q \<Longrightarrow> held w (p_id p) = None \<Longrightarrow> \<not> key_free (held w) (p_key p) \<Longrightarrow>
      \<exists>w'. pay_add repo p w = (Inl DuplicateIdempotencyKey, w') \<and> ready w' \<and> held w' = held w"
    and save_held: "ready w \<Longrightarrow> held w i = Some p \<Longrightarrow>
      \<exists>w'. pay_save repo (settled_with ok t p) w = (Inr (), w') \<and> ready w' \<and> held w' = (held w)(i \<mapsto> settled_with ok t p)"
    and save_missing: "ready w \<Longrightarrow> held w (p_id p) = None \<Longrightarrow>
      \<exists>m w'. pay_save repo p w = (Inl (RuntimeError m), w') \<and> ready w' \<and> held w' = held w"
begin

lemma by_key_held:
  assumes "ready w" and "held w i = Some p"
  shows "\<exists>w'. pay_get_by_key repo (p_key p) w = (Inr (Some p), w') \<and> ready w' \<and> held w' = held w"
proof -
  obtain x w' where x: "pay_get_by_key repo (p_key p) w = (Inr x, w')" "found_by_key (held w) (p_key p) x" "ready w'" "held w' = held w"
    using get_by_key [OF assms(1)] by blast
  have "x = Some p"
  proof (cases x)
    case None
    then show ?thesis using x(2) assms(2) by (auto simp: found_by_key_def)
  next
    case (Some q)
    then have q: "held w (p_id q) = Some q" "p_key q = p_key p" using x(2) by (simp_all add: found_by_key_def)
    then have "p_id q = i" using held_key [OF assms(1) q(1) assms(2)] by simp
    then show ?thesis using q(1) assms(2) Some by simp
  qed
  then show ?thesis using x by blast
qed

text \<open>What was added is what every look-up finds, and its key is taken.\<close>

lemma added_is_found:
  assumes "ready w" and "kept p = Some q" and "held w (p_id p) = None" and "key_free (held w) (p_key p)"
  shows "\<exists>w1. pay_add repo p w = (Inr (), w1) \<and> ready w1 \<and> held w1 = (held w)(p_id p \<mapsto> q) \<and>
    (\<exists>w2. pay_get repo (p_id p) w1 = (Inr (Some q), w2)) \<and>
    (\<exists>w2. pay_get_by_key repo (p_key p) w1 = (Inr (Some q), w2)) \<and>
    (\<forall>r s. kept r = Some s \<longrightarrow> held w1 (p_id r) = None \<longrightarrow> p_key r = p_key p \<longrightarrow>
       (\<exists>w2. pay_add repo r w1 = (Inl DuplicateIdempotencyKey, w2) \<and> held w2 = held w1))"
proof -
  obtain w1 where w1: "pay_add repo p w = (Inr (), w1)" "ready w1" "held w1 = (held w)(p_id p \<mapsto> q)"
    using add_new [OF assms] by blast
  then have q: "held w1 (p_id p) = Some q" by simp
  have key: "p_key q = p_key p" using kept_identity [OF assms(2)] by simp
  have "\<exists>w2. pay_get repo (p_id p) w1 = (Inr (Some q), w2)" using get [OF w1(2), of "p_id p"] q by auto
  moreover have "\<exists>w2. pay_get_by_key repo (p_key p) w1 = (Inr (Some q), w2)"
    using by_key_held [OF w1(2) q] key by auto
  moreover have "\<not> key_free (held w1) (p_key p)" using q key by (auto simp: key_free_def)
  then have "\<forall>r s. kept r = Some s \<longrightarrow> held w1 (p_id r) = None \<longrightarrow> p_key r = p_key p \<longrightarrow>
      (\<exists>w2. pay_add repo r w1 = (Inl DuplicateIdempotencyKey, w2) \<and> held w2 = held w1)"
    using add_used [OF w1(2)] by metis
  ultimately show ?thesis using w1 by blast
qed

text \<open>A payment that is settled under its lock is settled for every look-up, and no other payment has changed.\<close>

lemma settled_is_found:
  assumes "ready w" and "held w i = Some p"
  shows "\<exists>w1 w2. pay_get_for_update repo i w = (Inr (Some p), w1) \<and>
    pay_save repo (settled_with ok t p) w1 = (Inr (), w2) \<and> held w2 = (held w)(i \<mapsto> settled_with ok t p) \<and>
    (\<exists>w3. pay_get repo i w2 = (Inr (Some (settled_with ok t p)), w3)) \<and>
    (\<exists>w3. pay_get_by_key repo (p_key p) w2 = (Inr (Some (settled_with ok t p)), w3))"
proof -
  obtain w1 where w1: "pay_get_for_update repo i w = (Inr (Some p), w1)" "ready w1" "held w1 = held w"
    using get_for_update [OF assms(1), of i] assms(2) by auto
  then have "held w1 i = Some p" using assms(2) by simp
  from save_held [OF w1(2) this] obtain w2
    where w2: "pay_save repo (settled_with ok t p) w1 = (Inr (), w2)" "ready w2" "held w2 = (held w1)(i \<mapsto> settled_with ok t p)"
    by blast
  then have s: "held w2 i = Some (settled_with ok t p)" by simp
  have "\<exists>w3. pay_get repo i w2 = (Inr (Some (settled_with ok t p)), w3)" using get [OF w2(2), of i] s by auto
  moreover have "p_key (settled_with ok t p) = p_key p" by (simp add: settled_with_def)
  then have "\<exists>w3. pay_get_by_key repo (p_key p) w2 = (Inr (Some (settled_with ok t p)), w3)"
    using by_key_held [OF w2(2) s] by auto
  ultimately show ?thesis using w1 w2 by auto
qed

text \<open>A payment from its creation to its settlement.\<close>

lemma added_and_settled:
  assumes "ready w" and "kept p = Some q" and "held w (p_id p) = None" and "key_free (held w) (p_key p)"
  shows "\<exists>w1 w2 w3. pay_add repo p w = (Inr (), w1) \<and> held w1 = (held w)(p_id p \<mapsto> q) \<and>
    pay_get_for_update repo (p_id p) w1 = (Inr (Some q), w2) \<and>
    pay_save repo (settled_with ok t q) w2 = (Inr (), w3) \<and>
    held w3 = (held w)(p_id p \<mapsto> settled_with ok t q) \<and>
    (\<exists>w4. pay_get repo (p_id p) w3 = (Inr (Some (settled_with ok t q)), w4)) \<and>
    (\<exists>w4. pay_get_by_key repo (p_key p) w3 = (Inr (Some (settled_with ok t q)), w4))"
proof -
  obtain w1 where w1: "pay_add repo p w = (Inr (), w1)" "ready w1" "held w1 = (held w)(p_id p \<mapsto> q)"
    using added_is_found [OF assms] by blast
  then have "held w1 (p_id p) = Some q" by simp
  from settled_is_found [OF w1(2) this, of ok t] show ?thesis
    using w1 kept_identity [OF assms(2)] by auto
qed

end

section \<open>The SQL repository keeps the contract\<close>

definition row_payment :: "payment_row \<Rightarrow> payment option" where
  "row_payment r = (case mapper_to_domain r of Inl e \<Rightarrow> None | Inr p \<Rightarrow> Some p)"

definition payments_in :: "tables \<Rightarrow> uuid \<rightharpoonup> payment" where
  "payments_in v i = Option.bind (find_payment v i) row_payment"

definition session_payments :: "world \<Rightarrow> uuid \<rightharpoonup> payment" where
  "session_payments w = (case w_session w of None \<Rightarrow> Map.empty | Some s \<Rightarrow> payments_in (s_view s))"

definition payments_readable :: "tables \<Rightarrow> bool" where
  "payments_readable v \<longleftrightarrow> payments.unique v \<and> distinct (map pr_key (t_payments v)) \<and>
     list_all payment_row_ok (t_payments v) \<and> list_all row_fits (t_payments v)"

text \<open>A session without pending rows over readable tables, on a day without faults.\<close>

definition session_ready :: "env \<Rightarrow> world \<Rightarrow> bool" where
  "session_ready env w \<longleftrightarrow> calm env \<and> driver_names_key env \<and> (\<exists>v. session_is v [] w \<and> payments_readable v)"

definition stored_form :: "env \<Rightarrow> payment \<Rightarrow> payment option" where
  "stored_form env p =
     (if payment_ok p then (case mapper_to_model env p of Inl e \<Rightarrow> None | Inr row \<Rightarrow> row_payment row) else None)"

lemma session_readyD:
  assumes "session_ready env w"
  obtains v where "calm env" "driver_names_key env" "w_session w = Some \<lparr>s_view = v, s_new = []\<rparr>"
    "payments_readable v" "session_payments w = payments_in v"
  using assms by (auto simp: session_ready_def session_is_def session_payments_def)

lemma session_readyI:
  assumes "calm env" and "driver_names_key env" and "payments_readable v"
  shows "session_ready env (w\<lparr>w_tick := n, w_session := Some \<lparr>s_view = v, s_new = []\<rparr>\<rparr>)"
    and "session_payments (w\<lparr>w_tick := n, w_session := Some \<lparr>s_view = v, s_new = []\<rparr>\<rparr>) = payments_in v"
  using assms by (auto simp: session_ready_def session_is_def session_payments_def)

lemma readable_row:
  assumes "payments_readable v" and "r \<in> set (t_payments v)"
  obtains p where "mapper_to_domain r = Inr p" "payments_in v (pr_id r) = Some p" "p_id p = pr_id r" "p_key p = pr_key r"
proof -
  have "payment_row_ok r" using assms by (auto simp: payments_readable_def list_all_iff)
  then obtain p where p: "mapper_to_domain r = Inr p" by (auto simp: payment_row_ok_def split: sum.splits)
  have "find_payment v (pr_id r) = Some r"
    using assms payments.lookup_in by (auto simp: payments_readable_def)
  then have "payments_in v (pr_id r) = Some p" by (simp add: payments_in_def row_payment_def p)
  moreover have "p_id p = pr_id r" "p_key p = pr_key r"
    using p by (auto elim!: mapper_to_domain_Inr simp: payment_reconstitute_def)
  ultimately show thesis using p that by blast
qed

lemma payments_in_row:
  assumes "payments_readable v" and "payments_in v i = Some p"
  obtains r where "find_payment v i = Some r" "r \<in> set (t_payments v)" "pr_id r = i" "mapper_to_domain r = Inr p"
    "p_id p = i" "p_key p = pr_key r" "row_fits r"
proof -
  obtain r where r: "find_payment v i = Some r" "row_payment r = Some p"
    using assms(2) by (auto simp: payments_in_def bind_eq_Some_conv)
  have mem: "r \<in> set (t_payments v)" "pr_id r = i" using payments.lookup_key [OF r(1)] by auto
  obtain q where q: "mapper_to_domain r = Inr q" "payments_in v (pr_id r) = Some q" "p_id q = pr_id r" "p_key q = pr_key r"
    by (rule readable_row [OF assms(1) mem(1)])
  then have "q = p" using assms(2) mem(2) by simp
  moreover have "row_fits r" using assms(1) mem(1) by (simp add: payments_readable_def list_all_iff)
  ultimately show thesis using that [OF r(1) mem] q mem(2) by simp
qed

lemma payments_in_None:
  assumes "payments_readable v" and "payments_in v i = None"
  shows "find_payment v i = None"
proof (cases "find_payment v i")
  case (Some r)
  have mem: "r \<in> set (t_payments v)" "pr_id r = i" using payments.lookup_key [OF Some] by auto
  obtain q where "payments_in v (pr_id r) = Some q" by (rule readable_row [OF assms(1) mem(1)])
  then show ?thesis using assms(2) mem(2) by simp
qed

lemma optional_found:
  "payments_readable v \<Longrightarrow> optional_payment (find_payment v i) = Inr (payments_in v i)"
proof (cases "find_payment v i")
  case (Some r)
  assume v: "payments_readable v"
  have r: "r \<in> set (t_payments v)" "pr_id r = i" using payments.lookup_key [OF Some] by blast+
  obtain p where "mapper_to_domain r = Inr p" "payments_in v (pr_id r) = Some p" by (rule readable_row [OF v r(1)])
  then show ?thesis using Some r(2) by (simp add: optional_payment_def)
qed (simp add: optional_payment_def payments_in_def)

lemma filter_by_key:
  assumes "distinct (map f xs)"
  shows "scalar_one_or_none (filter (\<lambda>y. f y = k) xs) = Inr (find (\<lambda>y. f y = k) xs)"
proof (cases "find (\<lambda>y. f y = k) xs")
  case None
  then have "filter (\<lambda>y. f y = k) xs = []" by (auto simp: find_None_iff filter_empty_conv)
  then show ?thesis by (simp add: None scalar_one_or_none_def)
next
  case (Some x)
  then have "x \<in> set xs" "f x = k" by (auto simp: find_Some_iff)
  then show ?thesis using filter_eq_key_distinct [OF assms, of x] Some by (simp add: scalar_one_or_none_def)
qed

lemma key_in_use:
  assumes "payments_readable v"
  shows "key_free (payments_in v) k \<longleftrightarrow> k \<notin> pr_key ` set (t_payments v)"
proof
  assume free: "key_free (payments_in v) k"
  show "k \<notin> pr_key ` set (t_payments v)"
  proof
    assume "k \<in> pr_key ` set (t_payments v)"
    then obtain r where r: "r \<in> set (t_payments v)" "k = pr_key r" by auto
    obtain p where "payments_in v (pr_id r) = Some p" "p_key p = pr_key r" by (rule readable_row [OF assms r(1)])
    then show False using free r(2) by (auto simp: key_free_def)
  qed
next
  assume unused: "k \<notin> pr_key ` set (t_payments v)"
  show "key_free (payments_in v) k"
    unfolding key_free_def
  proof (intro allI impI notI)
    fix i p
    assume p: "payments_in v i = Some p" and k: "p_key p = k"
    obtain r where "r \<in> set (t_payments v)" "p_key p = pr_key r" by (rule payments_in_row [OF assms p])
    then show False using unused k by auto
  qed
qed

subsection \<open>Look-ups\<close>

lemma session_tick [simp]:
  "session_ready env (w\<lparr>w_tick := n\<rparr>) = session_ready env w" "session_payments (w\<lparr>w_tick := n\<rparr>) = session_payments w"
  by (simp_all add: session_ready_def session_is_def session_payments_def)

lemma sql_lookup:
  assumes "session_ready env w" and "\<And>v. payments_readable v \<Longrightarrow> f v = Inr (x (payments_in v))"
  shows "\<exists>w'. query env f w = (Inr (x (session_payments w)), w') \<and> session_ready env w' \<and>
    session_payments w' = session_payments w"
proof -
  obtain v where v: "calm env" "driver_names_key env" "w_session w = Some \<lparr>s_view = v, s_new = []\<rparr>"
    "payments_readable v" "session_payments w = payments_in v"
    using assms(1) by (rule session_readyD)
  have "query env f w = (Inr (x (session_payments w)), w\<lparr>w_tick := w_tick w + 1\<rparr>)"
    by (simp add: query_calm [OF v(1,3)] assms(2) [OF v(4)] v(5))
  then show ?thesis using assms(1) by (intro exI [of _ "w\<lparr>w_tick := w_tick w + 1\<rparr>"]) simp
qed

lemma sql_get:
  "session_ready env w \<Longrightarrow> \<exists>w'. payments_get env i w = (Inr (session_payments w i), w') \<and> session_ready env w' \<and>
    session_payments w' = session_payments w"
  unfolding payments_get_def by (rule sql_lookup) (simp_all add: optional_found)

lemma sql_get_for_update:
  assumes "session_ready env w"
  shows "\<exists>w'. payments_get_for_update env i w = (Inr (session_payments w i), w') \<and> session_ready env w' \<and>
    session_payments w' = session_payments w"
  unfolding payments_get_for_update_def
proof (rule sql_lookup [OF assms])
  fix v
  assume v: "payments_readable v"
  then have "distinct (map pr_id (t_payments v))" by (simp add: payments_readable_def payments.unique_def)
  from filter_by_key [OF this, of i]
  show "bind_exn (scalar_one_or_none (filter (\<lambda>r. pr_id r = i) (t_payments v))) optional_payment = Inr (payments_in v i)"
    using optional_found [OF v, of i] by (simp add: find_payment_def)
qed

lemma found_in_rows:
  assumes "payments_readable v"
  shows "\<exists>x. optional_payment (find (\<lambda>r. pr_key r = k) (t_payments v)) = Inr x \<and> found_by_key (payments_in v) k x"
proof (cases "find (\<lambda>r. pr_key r = k) (t_payments v)")
  case None
  then have "k \<notin> pr_key ` set (t_payments v)" by (auto simp: find_None_iff)
  then have "found_by_key (payments_in v) k None"
    using key_in_use [OF assms] by (simp add: found_by_key_def key_free_def)
  then show ?thesis by (simp add: None optional_payment_def)
next
  case (Some r)
  then have r: "r \<in> set (t_payments v)" "pr_key r = k" by (auto simp: find_Some_iff)
  obtain p where "mapper_to_domain r = Inr p" "payments_in v (pr_id r) = Some p" "p_id p = pr_id r" "p_key p = pr_key r"
    by (rule readable_row [OF assms r(1)])
  then show ?thesis using r by (simp add: Some optional_payment_def found_by_key_def)
qed

lemma sql_get_by_key:
  assumes "session_ready env w"
  shows "\<exists>x w'. payments_get_by_key env k w = (Inr x, w') \<and> found_by_key (session_payments w) k x \<and>
    session_ready env w' \<and> session_payments w' = session_payments w"
proof -
  obtain v where v: "calm env" "driver_names_key env" "w_session w = Some \<lparr>s_view = v, s_new = []\<rparr>"
    "payments_readable v" "session_payments w = payments_in v"
    using assms by (rule session_readyD)
  have "distinct (map pr_key (t_payments v))" using v(4) by (simp add: payments_readable_def)
  from filter_by_key [OF this, of k] found_in_rows [OF v(4), of k]
  obtain x where x: "bind_exn (scalar_one_or_none (filter (\<lambda>r. pr_key r = k) (t_payments v))) optional_payment = Inr x"
    "found_by_key (payments_in v) k x" by auto
  have "payments_get_by_key env k w = (Inr x, w\<lparr>w_tick := w_tick w + 1\<rparr>)"
    by (simp add: payments_get_by_key_def query_calm [OF v(1,3)] x(1))
  then show ?thesis
    using x(2) v(5) assms by (intro exI [of _ x] exI [of _ "w\<lparr>w_tick := w_tick w + 1\<rparr>"]) simp
qed

subsection \<open>Writes\<close>

text \<open>What a new payment becomes as a row.\<close>

lemma stored_formD:
  assumes "stored_form env p = Some q"
  obtains row where "mapper_to_model env p = Inr row" "mapper_to_domain row = Inr q" "pr_id row = p_id p"
    "pr_key row = p_key p" "payment_row_ok row" "row_fits row" "p_id q = p_id p" "p_key q = p_key p"
proof -
  obtain row where ok: "payment_ok p" and row: "mapper_to_model env p = Inr row" "row_payment row = Some q"
    using assms by (auto simp: stored_form_def split: if_splits sum.splits)
  obtain extra where e: "mapper_to_domain row = Inr (p\<lparr>p_metadata := extra\<rparr>)"
    using mapper_round_trip [OF row(1) ok] by blast
  then have q: "q = p\<lparr>p_metadata := extra\<rparr>" using row(2) by (simp add: row_payment_def)
  have "pr_id row = p_id p" "pr_key row = p_key p"
    using row(1) unfolding mapper_to_model_def by (elim mapper_apply_Inr, simp)+
  moreover have "payment_row_ok row" using e ok by (simp add: payment_row_ok_def payment_ok_def)
  ultimately show thesis using that [OF row(1)] e q model_fits [OF row(1)] by simp
qed

lemma sql_add:
  assumes w: "session_ready env w" and kept: "stored_form env p = Some q" and new: "session_payments w (p_id p) = None"
  shows "if key_free (session_payments w) (p_key p)
    then \<exists>w'. payments_add env p w = (Inr (), w') \<and> session_ready env w' \<and>
      session_payments w' = (session_payments w)(p_id p \<mapsto> q)
    else \<exists>w'. payments_add env p w = (Inl DuplicateIdempotencyKey, w') \<and> session_ready env w' \<and>
      session_payments w' = session_payments w"
proof -
  obtain v where v: "calm env" "driver_names_key env" "w_session w = Some \<lparr>s_view = v, s_new = []\<rparr>"
    "payments_readable v" "session_payments w = payments_in v"
    using w by (rule session_readyD)
  obtain row where row: "mapper_to_model env p = Inr row" "mapper_to_domain row = Inr q" "pr_id row = p_id p"
    "pr_key row = p_key p" "payment_row_ok row" "row_fits row" "p_id q = p_id p"
    using kept by (rule stored_formD)
  have s: "session_is v [] w" using v(3) by (simp add: session_is_def)
  have none: "find_payment v (pr_id row) = None" using payments_in_None [OF v(4)] new v(5) row(3) by simp
  show ?thesis
  proof (cases "key_free (session_payments w) (p_key p)")
    case True
    let ?v = "v\<lparr>t_payments := t_payments v @ [row]\<rparr>"
    have unused: "pr_key row \<notin> pr_key ` set (t_payments v)" using True key_in_use [OF v(4)] v(5) row(4) by simp
    have "payments_readable ?v"
      using v(4) none unused row(5,6) payments.unique_append [of v row] by (simp add: payments_readable_def)
    moreover have "payments_in ?v = (payments_in v)(p_id p \<mapsto> q)"
      using none row(2,3)
      by (intro ext) (simp add: payments_in_def payments.lookup_append row_payment_def split: option.split)
    moreover have "payments_add env p w = (Inr (), w\<lparr>w_tick := w_tick w + 1, w_session := Some \<lparr>s_view = ?v, s_new = []\<rparr>\<rparr>)"
      using none unused by (simp add: payments_add_calm [OF v(1) s] insert_payment_def row(1))
    ultimately show ?thesis using True session_readyI [OF v(1,2)] v(5) by auto
  next
    case False
    then have used: "pr_key row \<in> pr_key ` set (t_payments v)" using key_in_use [OF v(4)] v(5) row(4) by simp
    have "is_idempotency_conflict (unique_violation env ''uq_payments_idempotency_key'')"
      using v(2) by (simp add: unique_violation_def driver_names_key_def)
    then have "payments_add env p w =
        (Inl DuplicateIdempotencyKey, w\<lparr>w_tick := w_tick w + 1, w_session := Some \<lparr>s_view = v, s_new = []\<rparr>\<rparr>)"
      using none used by (simp add: payments_add_calm [OF v(1) s] insert_payment_def row(1))
    then show ?thesis using False session_readyI [OF v(1,2,4)] v(5) by auto
  qed
qed

text \<open>The tables after a settlement.\<close>

lemma settled_tables_in:
  assumes v: "payments_readable v" and row: "find_payment v i = Some r" "mapper_to_domain r = Inr p"
  shows "payments_readable (v\<lparr>t_payments := update_rows (\<lambda>x. pr_id x = i) (\<lambda>_. completed ok t r) (t_payments v)\<rparr>)"
    and "payments_in (v\<lparr>t_payments := update_rows (\<lambda>x. pr_id x = i) (\<lambda>_. completed ok t r) (t_payments v)\<rparr>) =
      (payments_in v)(i \<mapsto> settled_with ok t p)"
proof -
  let ?f = "\<lambda>x. if pr_id x = i then completed ok t x else x"
  let ?v = "v\<lparr>t_payments := update_rows (\<lambda>x. pr_id x = i) (\<lambda>_. completed ok t r) (t_payments v)\<rparr>"
  have u: "payments.unique v" using v by (simp add: payments_readable_def)
  have only: "x = r" if "x \<in> set (t_payments v)" "pr_id x = i" for x
    using payments.lookup_in [OF u that(1)] that(2) row(1) by simp
  have rows: "t_payments ?v = map ?f (t_payments v)" using only by (auto simp: update_rows_def)
  then have eq: "?v = v\<lparr>t_payments := map ?f (t_payments v)\<rparr>" by simp
  have id: "pr_id (?f x) = pr_id x" for x by (simp add: completed_def)
  have "payments.unique ?v" unfolding eq by (rule payments.unique_map [OF id u])
  moreover have "map pr_key (t_payments ?v) = map pr_key (t_payments v)" unfolding rows by (simp add: completed_def)
  moreover have "list_all payment_row_ok (t_payments ?v)"
    using v completed_row_ok unfolding rows by (auto simp: payments_readable_def list_all_iff)
  moreover have "list_all row_fits (t_payments ?v)"
    using v unfolding rows by (auto simp: payments_readable_def list_all_iff row_fits_def completed_def)
  ultimately show "payments_readable ?v" using v unfolding payments_readable_def by metis
  have look: "find_payment ?v j = map_option ?f (find_payment v j)" for j
    unfolding eq by (rule payments.lookup_map [OF id])
  have "pr_id x = j" if "find_payment v j = Some x" for j x using payments.lookup_key [OF that] by simp
  then show "payments_in ?v = (payments_in v)(i \<mapsto> settled_with ok t p)"
    using completed_domain [OF row(2), of ok t] row(1)
    by (intro ext) (auto simp: payments_in_def look row_payment_def settled_with_def bind_map_option
        split: option.split bind_splits)
qed

lemma sql_save_held:
  assumes w: "session_ready env w" and p: "session_payments w i = Some p"
  shows "\<exists>w'. payments_save env (settled_with ok t p) w = (Inr (), w') \<and> session_ready env w' \<and>
    session_payments w' = (session_payments w)(i \<mapsto> settled_with ok t p)"
proof -
  obtain v where v: "calm env" "driver_names_key env" "w_session w = Some \<lparr>s_view = v, s_new = []\<rparr>"
    "payments_readable v" "session_payments w = payments_in v"
    using w by (rule session_readyD)
  obtain r where r: "find_payment v i = Some r" "r \<in> set (t_payments v)" "pr_id r = i" "mapper_to_domain r = Inr p"
    "p_id p = i" "p_key p = pr_key r" "row_fits r"
    by (rule payments_in_row [OF v(4) p [unfolded v(5)]])
  let ?w1 = "w\<lparr>w_tick := w_tick w + 1\<rparr>"
  let ?v = "v\<lparr>t_payments := update_rows (\<lambda>x. pr_id x = i) (\<lambda>_. completed ok t r) (t_payments v)\<rparr>"
  have keys: "distinct (map pr_key (t_payments v))" using v(4) by (simp add: payments_readable_def)
  then have "\<not> (\<exists>x\<in>set (t_payments v). pr_key x = pr_key (completed ok t r) \<and> pr_id x \<noteq> pr_id (completed ok t r))"
    using r(2) by (auto simp: completed_def distinct_map dest: inj_onD)
  then have "update_payment env r (settled_with ok t p) v = (Inr (), ?v)"
    unfolding update_payment_def settled_with_def write_completed [OF r(4,7)] using r(3) by (simp add: completed_def)
  moreover have "flush env ?w1 = (Inr (), ?w1\<lparr>w_tick := w_tick ?w1 + 1\<rparr>)"
    by (rule flush_calm [OF v(1)]) (simp add: session_is_def v(3))
  moreover have "p_id (settled_with ok t p) = i" using r(5) by (simp add: settled_with_def)
  ultimately have "payments_save env (settled_with ok t p) w =
      (Inr (), w\<lparr>w_tick := w_tick w + 2, w_session := Some \<lparr>s_view = ?v, s_new = []\<rparr>\<rparr>)"
    by (simp add: payments_save_def andthen_def query_calm [OF v(1,3)] r(1) run_sql_def v(3))
  then show ?thesis using settled_tables_in [OF v(4) r(1,4), of ok t] session_readyI [OF v(1,2)] v(5) by auto
qed

lemma sql_save_missing:
  assumes w: "session_ready env w" and p: "session_payments w (p_id p) = None"
  shows "\<exists>m w'. payments_save env p w = (Inl (RuntimeError m), w') \<and> session_ready env w' \<and>
    session_payments w' = session_payments w"
proof -
  obtain v where v: "calm env" "driver_names_key env" "w_session w = Some \<lparr>s_view = v, s_new = []\<rparr>"
    "payments_readable v" "session_payments w = payments_in v"
    using w by (rule session_readyD)
  have "find_payment v (p_id p) = None" using payments_in_None [OF v(4)] p v(5) by simp
  then have "payments_save env p w =
      (Inl (RuntimeError (''payment '' @ uuid_str (p_id p) @ '' missing for save'')), w\<lparr>w_tick := w_tick w + 1\<rparr>)"
    by (simp add: payments_save_def andthen_def query_calm [OF v(1,3)] raise_def)
  then show ?thesis using w by auto
qed

lemma session_held:
  assumes w: "session_ready env w" and p: "session_payments w i = Some p"
  shows "p_id p = i" and "session_payments w j = Some q \<Longrightarrow> p_key p = p_key q \<Longrightarrow> i = j"
proof -
  obtain v where v: "payments_readable v" "session_payments w = payments_in v" using w by (rule session_readyD)
  obtain r where r: "r \<in> set (t_payments v)" "pr_id r = i" "p_id p = i" "p_key p = pr_key r"
    by (rule payments_in_row [OF v(1) p [unfolded v(2)]])
  show "p_id p = i" by (rule r(3))
  assume q: "session_payments w j = Some q" and k: "p_key p = p_key q"
  obtain s where s: "s \<in> set (t_payments v)" "pr_id s = j" "p_key q = pr_key s"
    by (rule payments_in_row [OF v(1) q [unfolded v(2)]])
  have "distinct (map pr_key (t_payments v))" using v(1) by (simp add: payments_readable_def)
  then have "r = s" using r s k by (auto simp: distinct_map dest: inj_onD)
  then show "i = j" using r(2) s(2) by simp
qed

interpretation sql_port: payment_port "sql_payment_repository env" "session_ready env" session_payments "stored_form env"
  for env
proof
  fix p q
  assume "stored_form env p = Some q"
  then show "p_id q = p_id p \<and> p_key q = p_key p" by (rule stored_formD) simp
next
  fix w i p
  assume "session_ready env w" "session_payments w i = Some p"
  then show "p_id p = i" by (rule session_held)
next
  fix w i p j q
  assume "session_ready env w" "session_payments w i = Some p" "session_payments w j = Some q" "p_key p = p_key q"
  then show "i = j" by (rule session_held(2))
next
  fix w p q
  assume add: "session_ready env w" "stored_form env p = Some q" "session_payments w (p_id p) = None"
  note run = sql_add [OF add]
  { assume "key_free (session_payments w) (p_key p)"
    then show "\<exists>w'. pay_add (sql_payment_repository env) p w = (Inr (), w') \<and> session_ready env w' \<and>
        session_payments w' = (session_payments w)(p_id p \<mapsto> q)"
      using run by (simp add: sql_payment_repository_def) }
  { assume "\<not> key_free (session_payments w) (p_key p)"
    then show "\<exists>w'. pay_add (sql_payment_repository env) p w = (Inl DuplicateIdempotencyKey, w') \<and> session_ready env w' \<and>
        session_payments w' = session_payments w"
      using run by (simp add: sql_payment_repository_def) }
qed (simp_all add: sql_payment_repository_def sql_get sql_get_for_update sql_get_by_key sql_save_held sql_save_missing)

section \<open>Property\<close>

definition open_world :: "tables \<Rightarrow> world" where
  "open_world v = empty_world\<lparr>w_db := v, w_session := Some \<lparr>s_view = v, s_new = []\<rparr>\<rparr>"

lemma open_world_ready:
  assumes "payments_readable v"
  shows "session_ready quiet_env (open_world v)" and "session_payments (open_world v) = payments_in v"
  using assms quiet_calm quiet_driver
  by (simp_all add: session_ready_def open_world_def session_is_def session_payments_def)

lemma empty_readable: "payments_readable empty_tables" "payments_in empty_tables = Map.empty"
  by (auto simp: payments_readable_def payments.unique_def empty_tables_def payments_in_def find_payment_def)

text \<open>The payment of the example, and another one with the same key.\<close>

definition second_payment :: payment where
  "second_payment = sample_payment\<lparr>p_id := 9\<rparr>"

lemma second_model: "mapper_to_model quiet_env second_payment = Inr (sample_row\<lparr>pr_id := 9\<rparr>)"
  by code_simp

lemma second_domain: "mapper_to_domain (sample_row\<lparr>pr_id := 9\<rparr>) = Inr second_payment"
  by code_simp

lemma sample_stored:
  "stored_form quiet_env sample_payment = Some sample_payment" "stored_form quiet_env second_payment = Some second_payment"
proof -
  have "num_digits 1050 \<le> 28" by code_simp
  then have "money_ok sample_money" by (simp add: money_ok_def sample_money_def)
  moreover have "key_ok (ci_key sample_command)" by code_simp
  ultimately have "payment_ok sample_payment"
    by (simp add: sample_payment_def planned_payment_def payment_create_ok)
  moreover from this have "payment_ok second_payment" by (simp add: second_payment_def payment_ok_def)
  ultimately show "stored_form quiet_env sample_payment = Some sample_payment"
    "stored_form quiet_env second_payment = Some second_payment"
    using sample_model second_model second_domain sample_domain
    by (simp_all add: stored_form_def row_payment_def sample_payment_def [symmetric])
qed

text \<open>C10: The payments that a session sees are a map. A payment that is new to it, by id and by key, is added and nothing
  else changes; read under its lock and saved as settled, it is found settled by its id and by its key, and every other
  payment is what it was. Adding another payment under its key is refused with \<open>DuplicateIdempotencyKey\<close> and changes
  nothing.\<close>

theorem payments_are_a_map:
  assumes "session_ready env w" and "stored_form env p = Some q"
    and "session_payments w (p_id p) = None" and "key_free (session_payments w) (p_key p)"
  shows "(\<exists>w1 w2 w3. payments_add env p w = (Inr (), w1) \<and>
      session_payments w1 = (session_payments w)(p_id p \<mapsto> q) \<and>
      payments_get_for_update env (p_id p) w1 = (Inr (Some q), w2) \<and>
      payments_save env (settled_with ok t q) w2 = (Inr (), w3) \<and>
      session_payments w3 = (session_payments w)(p_id p \<mapsto> settled_with ok t q) \<and>
      (\<exists>w4. payments_get env (p_id p) w3 = (Inr (Some (settled_with ok t q)), w4)) \<and>
      (\<exists>w4. payments_get_by_key env (p_key p) w3 = (Inr (Some (settled_with ok t q)), w4))) \<and>
    (\<forall>r s. stored_form env r = Some s \<longrightarrow> p_id r \<noteq> p_id p \<longrightarrow> session_payments w (p_id r) = None \<longrightarrow> p_key r = p_key p \<longrightarrow>
      (\<exists>w1 w2. payments_add env p w = (Inr (), w1) \<and>
        payments_add env r w1 = (Inl DuplicateIdempotencyKey, w2) \<and> session_payments w2 = session_payments w1))"
  using sql_port.added_and_settled [OF assms, of ok t] sql_port.added_is_found [OF assms]
  by (fastforce simp: sql_payment_repository_def)

text \<open>The payment of the example over empty tables, and a second one under its key.\<close>

theorem payments_are_a_map_witness:
  "(\<exists>w1 w2 w3. payments_add quiet_env sample_payment (open_world empty_tables) = (Inr (), w1) \<and>
      payments_get_for_update quiet_env 1 w1 = (Inr (Some sample_payment), w2) \<and>
      payments_save quiet_env (settled_with True 50 sample_payment) w2 = (Inr (), w3) \<and>
      session_payments w3 1 = Some (settled_with True 50 sample_payment)) \<and>
   (\<exists>w1 w2. payments_add quiet_env sample_payment (open_world empty_tables) = (Inr (), w1) \<and>
      payments_add quiet_env second_payment w1 = (Inl DuplicateIdempotencyKey, w2) \<and>
      session_payments w2 9 = None)"
proof -
  have id: "p_id sample_payment = 1" and second: "p_id second_payment = 9" "p_key second_payment = p_key sample_payment"
    by code_simp+
  note sees = open_world_ready [OF empty_readable(1)]
  have "session_payments (open_world empty_tables) = Map.empty" using sees(2) empty_readable(2) by simp
  then have new: "session_payments (open_world empty_tables) i = None" "key_free (session_payments (open_world empty_tables)) k"
    for i k by (simp_all add: key_free_def)
  note run = payments_are_a_map [OF sees(1) sample_stored(1) new, of True 50]
  obtain w1 w2 w3 where a: "payments_add quiet_env sample_payment (open_world empty_tables) = (Inr (), w1)"
    "session_payments w1 = (session_payments (open_world empty_tables))(1 \<mapsto> sample_payment)"
    "payments_get_for_update quiet_env 1 w1 = (Inr (Some sample_payment), w2)"
    "payments_save quiet_env (settled_with True 50 sample_payment) w2 = (Inr (), w3)"
    "session_payments w3 = (session_payments (open_world empty_tables))(1 \<mapsto> settled_with True 50 sample_payment)"
    using run [THEN conjunct1] unfolding id by blast
  obtain w4 where b: "payments_add quiet_env second_payment w1 = (Inl DuplicateIdempotencyKey, w4)"
    "session_payments w4 = session_payments w1"
    using run [THEN conjunct2, rule_format, OF sample_stored(2)] new(1) a(1) id second by auto
  have "session_payments w4 9 = None" using a(2) b(2) new(1) by simp
  then show ?thesis using a b(1) by (metis fun_upd_same)
qed

end
