(* ===== verification/Spec2Isabelle.thy ===== *)
theory Spec2Isabelle
  imports Retries Entry Alembic Worker Ports
begin

text \<open>
  PAYMENT PROCESSING: VERIFICATION LIBRARY

  The program. A payment service in Python: an HTTP API accepts payments under an idempotency key and
  writes each with an event into PostgreSQL (\<open>payments\<close>, \<open>outbox\<close>) in one unit of work; a publisher process
  relays the events of the outbox to RabbitMQ; a consumer process charges each payment once through a
  gateway (\<open>gateway_charges\<close>), settles it, calls the merchant's webhook and remembers the message (\<open>inbox\<close>).
  The source is in \<open>src/\<close> of the repository (\<open>domain\<close>, \<open>application\<close>, \<open>infrastructure\<close>, \<open>presentation\<close>, \<open>factory.py\<close>,
  \<open>runtime.py\<close>), the migrations in \<open>alembic/\<close>.

  How it is modelled. A coroutine is an \<open>action\<close>: a function from the \<open>world\<close> (Store) to a result, \<open>Inr\<close> a value or
  \<open>Inl\<close> an exception, and the next world. \<open>andthen\<close>, \<open>attempt\<close>, \<open>finally_do\<close> and \<open>raise\<close> (Prelude) are Python's \<open>await\<close> in
  sequence, \<open>try/except/else\<close>, \<open>try/finally\<close> and \<open>raise\<close>; \<open>CancelledError\<close> passes an \<open>except Exception\<close>. The world is the
  database, the open session, the messages with the broker, the webhook calls made, the metrics, the
  settled deliveries and a tick. Everything outside the process is a parameter \<open>env\<close>, asked by tick: the
  clock, random numbers, uuid4, the faults of every statement, commit, publication, call, sleep and
  acknowledgement, and what the other processes do to the database and the broker meanwhile (\<open>e_others\<close>).

  The theories, in the order of the layers:

  Foundations.
    Prelude     exceptions of \<open>domain/exceptions.py\<close> and \<open>application/exceptions.py\<close>; programs; a Hoare logic with
                an invariant and a relation between states, as the locale \<open>hoare_logic\<close>
    PyText, PyValue, PyTime   what the source uses of \<open>str\<close>, \<open>int\<close>, \<open>UUID\<close>, \<open>dict\<close>, \<open>json\<close>, \<open>datetime\<close> and \<open>timedelta\<close>
    Frame       what a program leaves alone (locales \<open>frame\<close>, \<open>frame_posts\<close>)

  Domain.
    Money       \<open>domain/money.py\<close> over \<open>decimal.Decimal\<close>
    Payment     \<open>domain/ids.py\<close>, \<open>domain/payment.py\<close>: status machine and aggregate
    IpAddress, WebhookUrl   \<open>domain/webhook.py\<close> over \<open>ipaddress\<close> and \<open>urlparse\<close>

  Application and its adapters.
    Retry       \<open>application/retry\<close>, \<open>presentation/backoff.py\<close>; the locale \<open>bounded_schedule\<close>
    Codec, Metrics, Messaging   events, metrics, topology and publisher
    Store       \<open>persistence/models\<close>, \<open>persistence/uow.py\<close>; the locale \<open>keyed_table\<close>, interpreted on the four tables
    PaymentRepo, OutboxRepo   mappers and repositories; the locales \<open>outbox_row_update\<close>, \<open>quiet_row_update\<close>
    Gateway     \<open>infrastructure/gateway\<close>; the locale \<open>result_cache\<close>, interpreted on both caches
    Guarantee, Outside   what every process relies on and guarantees: \<open>tables_inv\<close>, \<open>persists\<close>, \<open>rely\<close>
    CreatePayment, Charge, Webhooks, Process, PublishOutbox   the use cases
    Ports       \<open>application/ports\<close> as records of operations, with the infrastructure's instances; what the use cases rely on
                of the payments is the locale \<open>payment_port\<close>, interpreted on the SQL repository

  Presentation and composition.
    Amqp        \<open>presentation/amqp\<close>: from the delivery to its settlement
    Relay       \<open>presentation/worker.py\<close>, \<open>outbox_relay.py\<close>
    Worker      \<open>presentation/worker.py\<close> again, as a machine in which calls of \<open>start\<close> and \<open>stop\<close> interleave
    Http        \<open>presentation/http\<close>
    Lifecycle   \<open>infrastructure/resources.py\<close>, \<open>runtime.py\<close>, start and shutdown of the processes
    Factory     \<open>infrastructure/config.py\<close>, \<open>factory.py\<close>, the entry points
    Logging     \<open>infrastructure/observability/logging.py\<close>
    Entry       from the environment to the three processes
    Schema, Migrations   \<open>alembic/versions\<close> and the tables of the models
    Alembic     \<open>alembic/env.py\<close> and \<open>alembic.ini\<close>: the options, the online and the offline run
    Ledger, System, Journey   the abstract machine, the three processes together, a payment end to end
    Retries     the deliveries of one message from its first failure to its success or the dead-letter queue

  What the lemmas show.
    Rely and guarantee (Guarantee, Outside, \<open>sound_...\<close>, \<open>safe_...\<close>, \<open>holds_...\<close>). Every operation of every process,
    with any faults and with any interference that keeps the guarantee, keeps the invariant of the tables
    and the relation \<open>persists\<close>. System closes the circle: the operations of the other processes are such
    interference, to any depth. Hence the invariant of every reachable state, and the refinement of the
    ledger, which accepts a payment under a new key, charges and settles it once, and owes an event until
    it is sent.
    Runs without faults (\<open>..._calm\<close>): what each operation computes, step by step; Journey composes them
    from the request to the acknowledged notification.
    Retries: attempt after attempt, each in an environment of its own, the consumer's dispatches are composed with
    the way of the message through the retry queue; a failure that passes heals, one that stays is parked.
    Worker: the functions of Relay are the machine when calls do not overlap (\<open>start_refines\<close>,
    \<open>stop_waiting_refines\<close>); a loop that is not started while a stop waits runs once at a time.
    Ports: the consequences of the contract are proved once in its locale and hold of the SQL repository.
    Relay and publisher: what is due is defined by the columns of a row (\<open>awaits_publication\<close>), apart from the filter of
    the query; a batch takes the oldest of it, as much as it may, and a claim is a lease against other relays.
    Errors: the outcome of a webhook call, the routing of a failed delivery, the answer to every request by what its
    endpoint returned or raised (\<open>error_answer\<close>), the shutdown that attempts every step.
    Bounds: 28 digits of an amount, the attempts of a message and of a publication, the delays, and the
    1024 failed batches after which \<open>float * 2 ** n\<close> overflows.
    Migrations: each upgrade is undone by its downgrade, all together build the tables of the models, and
    the events of the first revision keep their state; \<open>env.py\<close> hands the URL of the settings unchanged through the
    option parser and leaves the database as it was or with the tables of the models; offline it writes a script
    for the dialect of this URL, or fails with it (Alembic).

  Fuel and bounds. \<open>relay_run\<close> is the loop of the relay with a bound on its iterations, as the loop itself need
  not end: \<open>relay_survives_failures\<close> is about the first 1024 and \<open>relay_dies_after_1025_failures\<close> about 1025. \<open>upgrade_from\<close>
  takes at most as many steps as there are revisions, four, which is enough to reach the head from
  any of them, and so does \<open>script_from\<close>. \<open>interpolate\<close> follows references to the depth that ConfigParser allows, ten.
  \<open>ancestors\<close> takes at most as many steps as the name has letters. All other recursion is on lists.

  Assumptions about code that is not in the repository are arguments or named hypotheses: \<open>calm\<close> (no faults and no
  interference), \<open>alone\<close>, \<open>rely\<close>, \<open>fair_weather\<close>, \<open>driver_names_key\<close> (the driver's error names the constraint), \<open>e_scan\<close>
  (the order in which the database meets rows), \<open>e_jsonb\<close> (what JSONB makes of a dictionary), \<open>pyrt\<close> (the texts of
  floats and of undecodable bytes), \<open>http_rt\<close> (FastAPI and pydantic before and after the handlers), \<open>setting_source\<close>
  (pydantic-settings), \<open>lib\<close> (structlog's processors), \<open>faults\<close> (connect, declare, stop, dispose), \<open>dialect_of\<close> (the
  dialect SQLAlchemy finds in a URL, or its error), and in Http the constructor \<open>Framework\<close> (what FastAPI answers without
  the application: 404, 405, redirects, its documentation) and \<open>request_body\<close> (what it makes of the bytes of a body). Each is instantiated in
  the examples the witnesses use (\<open>quiet_env\<close>, \<open>sample_...\<close>). The operations of alembic and the data
  definition of PostgreSQL are modelled as their documentation has them.

  Units of work. A unit of work is one step of the model: what the other processes do to the database happens at its
  start, and its own statements then see and change a copy that its commit writes back. So the model takes for granted
  that units of work are isolated from each other; the interleaving of their statements under READ COMMITTED, and the
  row locks of \<open>FOR UPDATE\<close> and \<open>SKIP LOCKED\<close> that the source relies on for it, are not modelled (but that a claim does not
  see the rows others have locked, \<open>e_locked\<close>). What is modelled of concurrency is the order of whole units of work:
  between any two of one process, any others of the other processes.

  What has left the process may have arrived: a commit, a publication and an acknowledgement that raise have taken
  effect or not, as the environment says.

  A process that is killed is one whose environment answers every later call with \<open>CancelledError\<close>, which no
  handler of the service stops: it changes nothing shared any more, and its delivery comes again as another
  operation. The theorems about all environments are about it, too.

  Not modelled. The interleaving of statements, locks and deadlocks, as said above. Rounding of floats: delays and amounts of seconds are exact rationals, but
  for the overflow. Characters above 255: a \<open>string\<close> is a list of 8-bit code points. DNS: the URL guard is about the
  URL as it is written. The texts of log lines, but for the fields that are computed. What the engine of a migration
  run does in its four calls. Constructors that only store their arguments, tests, images and the compose file.

  What modelling showed: deviations of the code from what it means to do, among them that the relay dies after 1025
  failed batches (\<open>relay_dies_after_1025_failures\<close>), a late release publishes a published event again
  (\<open>late_release_republishes\<close>), a relay that is started again while a stop of it waits can be left running twice
  (\<open>overlap_makes_two\<close>), and a key that is not ASCII is answered with 500
  (\<open>unauthorised_request_has_no_effect\<close>).
\<close>

end
